(* ===== verification/Shawn_Prelude.thy ===== *)
theory Shawn_Prelude
  imports Main "HOL-Library.Word"
begin

text \<open>
  Shared vocabulary of the development: the machine integers of the Rust sources, the outcome
  type of an executed operation with its sequencing combinators, the integer helpers of the Rust
  standard library the sources call, the byte encodings, and the arithmetic of circular buffers
  whose 64-bit indices run freely and wrap.

  An operation that may reach the host (a cache flush, the watchdog, the clock) is a function
  from a state to a \<open>res\<close>.  \<open>Ret\<close> is a normal return.  \<open>Halt\<close> is the fail-closed end of every
  host wrapper: the panic hook has been invoked and the thread spins for ever.  \<open>Panic\<close> is a
  Rust panic.  \<open>Undef\<close> is an access the Rust semantics does not define (reading memory as a value
  that was never written).  \<open>Running\<close> is a compare-exchange loop that has not returned when the
  given schedule of its exchanges ends.  Fallible operations return \<open>Err e\<close> or \<open>Ok x\<close>.
\<close>

unbundle bit_operations_syntax

named_theorems exec_simps "evaluation of sequenced operations"
named_theorems ring_simps "circular index arithmetic"

subsection \<open>Machine integers and results\<close>

type_synonym u8 = "8 word"
type_synonym u16 = "16 word"
type_synonym u32 = "32 word"
type_synonym u64 = "64 word"
type_synonym usize = "64 word"
type_synonym bytes = "8 word list"

abbreviation Ok :: "'a \<Rightarrow> 'e + 'a" where
  "Ok \<equiv> Inr"

abbreviation Err :: "'e \<Rightarrow> 'e + 'a" where
  "Err \<equiv> Inl"

fun is_ok :: "'e + 'a \<Rightarrow> bool" where
  "is_ok (Inr _) = True"
| "is_ok (Inl _) = False"

datatype ('s, 'a) res =
    Ret 'a 's
  | Halt 's
  | Panic 's
  | Running 's
  | Undef

type_synonym ('s, 'a) prog = "'s \<Rightarrow> ('s, 'a) res"

definition ret :: "'a \<Rightarrow> ('s, 'a) prog" where
  "ret x = (\<lambda>s. Ret x s)"

definition bindP :: "('s, 'a) prog \<Rightarrow> ('a \<Rightarrow> ('s, 'b) prog) \<Rightarrow> ('s, 'b) prog" where
  "bindP m f = (\<lambda>s. case m s of
       Ret x s' \<Rightarrow> f x s'
     | Halt s' \<Rightarrow> Halt s'
     | Panic s' \<Rightarrow> Panic s'
     | Running s' \<Rightarrow> Running s'
     | Undef \<Rightarrow> Undef)"

definition seqP :: "('s, 'a) prog \<Rightarrow> ('s, 'b) prog \<Rightarrow> ('s, 'b) prog" where
  "seqP m n = bindP m (\<lambda>_. n)"

text \<open>The question mark operator of Rust: an error is returned to the caller at once.\<close>

definition bindE :: "('s, 'e + 'a) prog \<Rightarrow> ('a \<Rightarrow> ('s, 'e + 'b) prog) \<Rightarrow> ('s, 'e + 'b) prog" where
  "bindE m f = bindP m (\<lambda>r. case r of Inl e \<Rightarrow> ret (Inl e) | Inr x \<Rightarrow> f x)"

definition undefP :: "('s, 'a) prog" where
  "undefP = (\<lambda>_. Undef)"

definition panicP :: "('s, 'a) prog" where
  "panicP = (\<lambda>s. Panic s)"

text \<open>
  An object of the program together with the host it runs on is a pair.  \<open>getP\<close> reads the
  object, \<open>modP\<close> updates it, \<open>hostP\<close> runs a host operation and leaves the object alone, so that a
  halted thread still shows the object in the state it was left in.
\<close>

definition getP :: "('c \<times> 'h, 'c) prog" where
  "getP = (\<lambda>(c, h). Ret c (c, h))"

definition modP :: "('c \<Rightarrow> 'c) \<Rightarrow> ('c \<times> 'h, unit) prog" where
  "modP f = (\<lambda>(c, h). Ret () (f c, h))"

definition hostP :: "('h, 'a) prog \<Rightarrow> ('c \<times> 'h, 'a) prog" where
  "hostP m = (\<lambda>(c, h). case m h of
       Ret x h' \<Rightarrow> Ret x (c, h')
     | Halt h' \<Rightarrow> Halt (c, h')
     | Panic h' \<Rightarrow> Panic (c, h')
     | Running h' \<Rightarrow> Running (c, h')
     | Undef \<Rightarrow> Undef)"

primrec mapM_P :: "('a \<Rightarrow> ('s, unit) prog) \<Rightarrow> 'a list \<Rightarrow> ('s, unit) prog" where
  "mapM_P f [] = ret ()"
| "mapM_P f (x # xs) = seqP (f x) (mapM_P f xs)"

subsection \<open>Integer helpers of the Rust standard library\<close>

definition checked_add :: "'a::len word \<Rightarrow> 'a word \<Rightarrow> 'a word option" where
  "checked_add x y = (if unat x + unat y < 2 ^ LENGTH('a) then Some (x + y) else None)"

definition checked_mul :: "'a::len word \<Rightarrow> 'a word \<Rightarrow> 'a word option" where
  "checked_mul x y = (if unat x * unat y < 2 ^ LENGTH('a) then Some (x * y) else None)"

definition saturating_add :: "'a::len word \<Rightarrow> 'a word \<Rightarrow> 'a word" where
  "saturating_add x y = (if unat x + unat y < 2 ^ LENGTH('a) then x + y else - 1)"

definition is_multiple_of :: "'a::len word \<Rightarrow> 'a word \<Rightarrow> bool" where
  "is_multiple_of x y = (if y = 0 then x = 0 else x mod y = 0)"

definition is_power_of_two :: "nat \<Rightarrow> bool" where
  "is_power_of_two n \<longleftrightarrow> (\<exists>k\<in>set [0..<64]. n = 2 ^ k)"

definition odd_word :: "'a::len word \<Rightarrow> bool" where
  "odd_word w \<longleftrightarrow> w AND 1 \<noteq> 0"

definition trailing_zeros :: "'a::len word \<Rightarrow> nat" where
  "trailing_zeros w = (case find (bit w) [0..<LENGTH('a)] of Some i \<Rightarrow> i | None \<Rightarrow> LENGTH('a))"

subsection \<open>Byte encodings\<close>

definition le_bytes :: "nat \<Rightarrow> 'a::len word \<Rightarrow> bytes" where
  "le_bytes n w = map (\<lambda>i. ucast (drop_bit (8 * i) w)) [0..<n]"

definition be_bytes :: "nat \<Rightarrow> 'a::len word \<Rightarrow> bytes" where
  "be_bytes n w = rev (le_bytes n w)"

primrec of_le_bytes :: "bytes \<Rightarrow> 'a::len word" where
  "of_le_bytes [] = 0"
| "of_le_bytes (b # bs) = ucast b OR push_bit 8 (of_le_bytes bs)"

definition zeros :: "nat \<Rightarrow> bytes" where
  "zeros n = replicate n 0"

definition ascii :: "string \<Rightarrow> bytes" where
  "ascii s = map of_char s"

subsection \<open>Circular buffers with free-running indices\<close>

definition slot_index :: "nat \<Rightarrow> usize \<Rightarrow> nat" where
  "slot_index N w = unat w mod N"

definition live :: "nat \<Rightarrow> usize \<Rightarrow> usize \<Rightarrow> nat list" where
  "live N t h = map (\<lambda>k. slot_index N (t + of_nat k)) [0..<unat (h - t)]"

subsection \<open>Lemmas on execution\<close>

lemma ret_apply [exec_simps, simp]: "ret x s = Ret x s"
  by (simp add: ret_def)

lemma undefP_apply [exec_simps, simp]: "undefP s = Undef"
  by (simp add: undefP_def)

lemma panicP_apply [exec_simps, simp]: "panicP s = Panic s"
  by (simp add: panicP_def)

lemma getP_apply [exec_simps, simp]: "getP (c, h) = Ret c (c, h)"
  by (simp add: getP_def)

lemma modP_apply [exec_simps, simp]: "modP f (c, h) = Ret () (f c, h)"
  by (simp add: modP_def)

lemma bindP_Ret [exec_simps, simp]: "m s = Ret x s' \<Longrightarrow> bindP m f s = f x s'"
  by (simp add: bindP_def)

lemma bindP_Halt [exec_simps, simp]: "m s = Halt s' \<Longrightarrow> bindP m f s = Halt s'"
  by (simp add: bindP_def)

lemma bindP_Panic [exec_simps, simp]: "m s = Panic s' \<Longrightarrow> bindP m f s = Panic s'"
  by (simp add: bindP_def)

lemma bindP_Running [exec_simps, simp]: "m s = Running s' \<Longrightarrow> bindP m f s = Running s'"
  by (simp add: bindP_def)

lemma bindP_Undef [exec_simps, simp]: "m s = Undef \<Longrightarrow> bindP m f s = Undef"
  by (simp add: bindP_def)

lemma bindE_Ok [exec_simps, simp]: "m s = Ret (Inr x) s' \<Longrightarrow> bindE m f s = f x s'"
  by (simp add: bindE_def)

lemma bindE_Err [exec_simps, simp]: "m s = Ret (Inl e) s' \<Longrightarrow> bindE m f s = Ret (Inl e) s'"
  by (simp add: bindE_def)

lemma bindE_Halt [exec_simps, simp]: "m s = Halt s' \<Longrightarrow> bindE m f s = Halt s'"
  by (simp add: bindE_def)

lemma seqP_Ret [exec_simps, simp]: "m s = Ret x s' \<Longrightarrow> seqP m n s = n s'"
  by (simp add: seqP_def)

lemma seqP_Halt [exec_simps, simp]: "m s = Halt s' \<Longrightarrow> seqP m n s = Halt s'"
  by (simp add: seqP_def)

lemma seqP_Panic [exec_simps, simp]: "m s = Panic s' \<Longrightarrow> seqP m n s = Panic s'"
  by (simp add: seqP_def)

lemma seqP_Running [exec_simps, simp]: "m s = Running s' \<Longrightarrow> seqP m n s = Running s'"
  by (simp add: seqP_def)

lemma seqP_Undef [exec_simps, simp]: "m s = Undef \<Longrightarrow> seqP m n s = Undef"
  by (simp add: seqP_def)

lemma hostP_Ret [exec_simps, simp]: "m h = Ret x h' \<Longrightarrow> hostP m (c, h) = Ret x (c, h')"
  by (simp add: hostP_def)

lemma hostP_Halt [exec_simps, simp]: "m h = Halt h' \<Longrightarrow> hostP m (c, h) = Halt (c, h')"
  by (simp add: hostP_def)

lemma bindP_eq_Ret:
  "bindP m f s = Ret y s'' \<longleftrightarrow> (\<exists>x s'. m s = Ret x s' \<and> f x s' = Ret y s'')"
  by (cases "m s") (simp_all add: bindP_def)

lemma bindP_assoc: "bindP (bindP f g) k = bindP f (\<lambda>x. bindP (g x) k)"
  by (auto simp: bindP_def fun_eq_iff split: res.splits)

lemma bindP_if: "bindP (if b then f else g) k = (if b then bindP f k else bindP g k)"
  by simp

lemma bindP_ret: "bindP (ret x) k = k x"
  by (simp add: fun_eq_iff)

lemma seqP_eq_Ret:
  "seqP m n s = Ret y s'' \<longleftrightarrow> (\<exists>x s'. m s = Ret x s' \<and> n s' = Ret y s'')"
  by (simp add: seqP_def bindP_eq_Ret)

lemma hostP_eq_Ret:
  "hostP m (c, h) = Ret x s' \<longleftrightarrow> (\<exists>h'. m h = Ret x h' \<and> s' = (c, h'))"
  by (cases "m h") (auto simp: hostP_def)

lemma mapM_P_append:
  "mapM_P f (xs @ ys) = seqP (mapM_P f xs) (mapM_P f ys)"
  by (induction xs) (auto simp: seqP_def bindP_def fun_eq_iff split: res.splits)

subsection \<open>Lemmas on integer helpers\<close>

lemma checked_add_Some:
  fixes x :: "'a::len word"
  shows "checked_add x y = Some z \<longleftrightarrow> unat x + unat y < 2 ^ LENGTH('a) \<and> z = x + y"
  by (auto simp: checked_add_def)

lemma checked_mul_Some:
  fixes x :: "'a::len word"
  shows "checked_mul x y = Some z \<longleftrightarrow> unat x * unat y < 2 ^ LENGTH('a) \<and> z = x * y"
  by (auto simp: checked_mul_def)

lemma unat_checked_add:
  fixes x :: "'a::len word"
  assumes "checked_add x y = Some z"
  shows "unat z = unat x + unat y"
  using assms by (auto simp: checked_add_Some unat_word_ariths)

lemma unat_saturating_add:
  fixes x :: "'a::len word"
  shows "unat (saturating_add x y) = min (unat x + unat y) (2 ^ LENGTH('a) - 1)"
  by (auto simp: saturating_add_def unat_word_ariths unsigned_minus_1_eq_mask mask_eq_exp_minus_1)

lemma saturating_add_ge:
  fixes x :: "'a::len word"
  shows "x \<le> saturating_add x y"
proof -
  have "unat x < 2 ^ LENGTH('a)" by simp
  then have "unat x \<le> 2 ^ LENGTH('a) - 1" by linarith
  then show ?thesis by (simp add: word_le_nat_alt unat_saturating_add)
qed

lemma odd_word_bit: "odd_word w \<longleftrightarrow> bit w 0"
  by (simp add: odd_word_def and_one_eq mod_2_eq_odd bit_0)

lemma odd_word_iff: "odd_word w \<longleftrightarrow> odd (unat w)"
  by (simp add: odd_word_bit bit_unsigned_iff flip: bit_0)

lemma odd_word_mask [simp]: "\<not> odd_word (x AND NOT 1)"
  unfolding odd_word_bit bit_and_iff bit_not_iff bit_1_iff by simp

lemma odd_word_mask_minus_two [simp]: "\<not> odd_word (x AND - 2)"
  using odd_word_mask [of x] by simp

lemma odd_word_set [simp]: "odd_word (x OR 1)"
  unfolding odd_word_bit bit_or_iff bit_1_iff by simp

lemma trailing_zeros_less:
  fixes w :: "'a::len word"
  assumes "trailing_zeros w < LENGTH('a)"
  shows "bit w (trailing_zeros w)" "i < trailing_zeros w \<Longrightarrow> \<not> bit w i"
  using assms by (auto simp: trailing_zeros_def find_Some_iff split: option.splits)

lemma trailing_zeros_none:
  fixes w :: "'a::len word"
  assumes "\<not> trailing_zeros w < LENGTH('a)"
  shows "w = 0"
proof -
  have "\<not> bit w i" for i
    using assms bit_imp_le_length [of w i]
    by (cases "i < LENGTH('a)")
      (auto simp: trailing_zeros_def find_None_iff find_Some_iff split: option.splits)
  then show ?thesis by (simp add: bit_eq_iff)
qed

lemma is_power_of_two_dvd:
  assumes "is_power_of_two N"
  shows "0 < N" "N dvd 2 ^ 64" "N < 2 ^ 64"
proof -
  obtain k where k: "k < 64" "N = 2 ^ k" using assms by (auto simp: is_power_of_two_def)
  show "0 < N" using k by simp
  show "N dvd 2 ^ 64" unfolding k(2) using k(1) by (intro le_imp_power_dvd) simp
  show "N < 2 ^ 64" unfolding k(2) using k(1) by (intro power_strict_increasing) simp_all
qed

subsection \<open>Lemmas on byte encodings\<close>

lemma length_le_bytes [simp]: "length (le_bytes n w) = n"
  by (simp add: le_bytes_def)

lemma length_be_bytes [simp]: "length (be_bytes n w) = n"
  by (simp add: be_bytes_def)

lemma length_zeros [simp]: "length (zeros n) = n"
  by (simp add: zeros_def)

lemma length_ascii [simp]: "length (ascii s) = length s"
  by (simp add: ascii_def)

lemma le_bytes_Suc:
  "le_bytes (Suc n) w = ucast w # le_bytes n (drop_bit 8 w)"
  by (simp add: le_bytes_def upt_rec[of 0 "Suc n"] map_Suc_upt [symmetric] drop_bit_drop_bit
      ac_simps del: upt_Suc)

lemma of_le_bytes_le_bytes:
  fixes w :: "'a::len word"
  assumes "LENGTH('a) \<le> 8 * n"
  shows "of_le_bytes (le_bytes n w) = w"
proof -
  have "of_le_bytes (le_bytes n v) = take_bit (8 * n) v" for v :: "'a word"
  proof (induction n arbitrary: v)
    case 0
    then show ?case by (simp add: le_bytes_def)
  next
    case (Suc n)
    show ?case
      by (rule bit_word_eqI)
        (auto simp: le_bytes_Suc Suc.IH bit_simps)
  qed
  then show ?thesis
    using assms by (simp add: take_bit_word_eq_self)
qed

lemma le_bytes_inj:
  fixes v w :: "'a::len word"
  assumes "LENGTH('a) \<le> 8 * n" "le_bytes n v = le_bytes n w"
  shows "v = w"
  using assms of_le_bytes_le_bytes by metis

lemma be_bytes_inj:
  fixes v w :: "'a::len word"
  assumes "LENGTH('a) \<le> 8 * n" "be_bytes n v = be_bytes n w"
  shows "v = w"
  using assms le_bytes_inj by (auto simp: be_bytes_def)

subsection \<open>Lemmas on circular indices\<close>

lemma slot_index_less [ring_simps]: "0 < N \<Longrightarrow> slot_index N w < N"
  by (simp add: slot_index_def)

lemma slot_index_add [ring_simps]:
  assumes "N dvd 2 ^ 64"
  shows "slot_index N (t + of_nat k) = (slot_index N t + k) mod N"
proof -
  have "unat (t + of_nat k) = (unat t + k) mod 2 ^ 64"
    by (simp add: unat_word_ariths unat_of_nat mod_add_right_eq)
  then have "unat (t + of_nat k) mod N = (unat t + k) mod N"
    using assms by (simp only: mod_mod_cancel)
  then show ?thesis by (simp add: slot_index_def mod_add_left_eq)
qed

lemma live_empty [ring_simps, simp]: "live N t t = []"
  by (simp add: live_def)

lemma length_live [simp]: "length (live N t h) = unat (h - t)"
  by (simp add: live_def)

lemma live_less: "0 < N \<Longrightarrow> i \<in> set (live N t h) \<Longrightarrow> i < N"
  by (auto simp: live_def slot_index_less)

lemma unat_Suc:
  fixes x :: "'a::len word"
  assumes "Suc (unat x) < 2 ^ LENGTH('a)"
  shows "unat (x + 1) = Suc (unat x)"
  using assms by (simp add: unat_word_ariths)

lemma unat_sub_Suc:
  fixes h t :: usize
  assumes "unat (h - t) < 2 ^ 64 - 1"
  shows "unat (h + 1 - t) = Suc (unat (h - t))"
proof -
  have "Suc (unat (h - t)) < 2 ^ LENGTH(64)" using assms by simp
  from unat_Suc [OF this] show ?thesis by (simp add: algebra_simps)
qed

lemma unat_sub_pos:
  fixes h t :: usize
  assumes "h \<noteq> t"
  shows "unat (h - t) = Suc (unat (h - (t + 1)))"
proof -
  have nz: "h - t \<noteq> 0" using assms by simp
  have "unat (h - (t + 1)) = unat (h - t) - 1"
    using unat_minus_one [OF nz] by (simp add: algebra_simps)
  moreover have "0 < unat (h - t)" using nz by (simp add: unat_gt_0)
  ultimately show ?thesis by linarith
qed

lemma live_push:
  assumes "unat (h - t) < 2 ^ 64 - 1"
  shows "live N t (h + 1) = live N t h @ [slot_index N h]"
  by (simp add: live_def unat_sub_Suc [OF assms])

lemma live_pop:
  assumes "h \<noteq> t"
  shows "live N t h = slot_index N t # live N (t + 1) h"
proof -
  have "[0..<unat (h - t)] = 0 # map Suc [0..<unat (h - (t + 1))]"
    by (simp add: unat_sub_pos [OF assms] upt_conv_Cons map_Suc_upt del: upt_Suc)
  then show ?thesis by (simp add: live_def ac_simps)
qed

lemma mod_window_inj:
  fixes a i j N :: nat
  assumes "i < N" "j < N" "(a + i) mod N = (a + j) mod N"
  shows "i = j"
proof -
  have "x = y" if "x \<le> y" "x < N" "y < N" "(a + x) mod N = (a + y) mod N" for x y
  proof -
    have "N dvd (a + y) - (a + x)"
      using that by (intro mod_eq_dvd_iff_nat [THEN iffD1]) auto
    then show ?thesis using that by (auto dest!: dvd_imp_le)
  qed
  then show ?thesis using assms by (metis nat_le_linear)
qed

lemma distinct_live:
  assumes "N dvd 2 ^ 64" "unat (h - t) \<le> N"
  shows "distinct (live N t h)"
  unfolding live_def distinct_map
  using assms by (auto simp: slot_index_add inj_on_def dest: mod_window_inj [rotated 2])

lemma head_not_live:
  assumes "N dvd 2 ^ 64" "unat (h - t) < N" "N < 2 ^ 64"
  shows "slot_index N h \<notin> set (live N t h)"
proof -
  have "unat (h - t) < 2 ^ 64 - 1" using assms by linarith
  moreover from this have "distinct (live N t (h + 1))"
    using assms by (intro distinct_live) (simp_all add: unat_sub_Suc)
  ultimately show ?thesis by (simp add: live_push)
qed

lemma tail_not_live:
  assumes "N dvd 2 ^ 64" "unat (h - t) \<le> N" "h \<noteq> t"
  shows "slot_index N t \<notin> set (live N (t + 1) h)"
  using distinct_live [OF assms(1,2)] by (simp add: live_pop [OF assms(3)])

end
