(* ===== verification/Rtos_Host.thy ===== *)
theory Rtos_Host
  imports Shawn_Prelude
begin

text \<open>
  The error types of the RTOS crate (error.rs, ffi_error.rs) and its host boundary
  (ffi_callbacks.rs): one registry per callback, the registration functions, and the wrappers the
  rest of the crate calls.  A callback is its code address, and 0 is the null pointer.  The host
  itself is outside the library: every call that reaches it is appended to \<open>host_calls\<close>, and the
  values it answers come from the parameter \<open>host_reply\<close>, a function of the calls so far.
\<close>

named_theorems host_simps "evaluation of host wrappers"

subsection \<open>Errors\<close>

datatype allocator_error =
    OutOfMemory | AddressOutOfBounds | InvalidAlignment | LockContention
  | DoubleFree | PoolNotInitialized | PoolAlreadyInitialized

datatype ipc_error =
    QueueFull | QueueNotInitialized | QueueAlreadyInitialized | InvalidMemory

datatype scheduler_error = TaskFault

fun allocator_err_code :: "allocator_error \<Rightarrow> nat" where
  "allocator_err_code OutOfMemory = 1"
| "allocator_err_code AddressOutOfBounds = 2"
| "allocator_err_code InvalidAlignment = 3"
| "allocator_err_code LockContention = 4"
| "allocator_err_code DoubleFree = 5"
| "allocator_err_code PoolNotInitialized = 6"
| "allocator_err_code PoolAlreadyInitialized = 7"

fun ipc_err_code :: "ipc_error \<Rightarrow> nat" where
  "ipc_err_code QueueFull = 8"
| "ipc_err_code QueueNotInitialized = 6"
| "ipc_err_code QueueAlreadyInitialized = 7"
| "ipc_err_code InvalidMemory = 9"

fun scheduler_err_code :: "scheduler_error \<Rightarrow> nat" where
  "scheduler_err_code TaskFault = 10"

subsection \<open>The host and its registries\<close>

datatype rtos_call =
    PanicHook
  | DisableInterrupts
  | RestoreInterrupts usize
  | ReadMonotonicClock
  | CacheInvalidate usize usize
  | CacheFlush usize usize
  | PetWatchdog

record rtos_host =
  panic_callback :: usize
  disable_interrupts_cb :: usize
  restore_interrupts_cb :: usize
  read_monotonic_clock_cb :: usize
  cache_invalidate_cb :: usize
  cache_flush_cb :: usize
  pet_watchdog_cb :: usize
  host_calls :: "(usize \<times> rtos_call) list"
  host_reply :: "(usize \<times> rtos_call) list \<Rightarrow> u64"

definition callback_ptr :: "usize option \<Rightarrow> usize" where
  "callback_ptr cb = (case cb of None \<Rightarrow> 0 | Some f \<Rightarrow> f)"

definition register_panic_hook :: "usize option \<Rightarrow> rtos_host \<Rightarrow> rtos_host" where
  "register_panic_hook cb h = h\<lparr>panic_callback := callback_ptr cb\<rparr>"

definition register_disable_interrupts :: "usize option \<Rightarrow> rtos_host \<Rightarrow> rtos_host" where
  "register_disable_interrupts cb h = h\<lparr>disable_interrupts_cb := callback_ptr cb\<rparr>"

definition register_restore_interrupts :: "usize option \<Rightarrow> rtos_host \<Rightarrow> rtos_host" where
  "register_restore_interrupts cb h = h\<lparr>restore_interrupts_cb := callback_ptr cb\<rparr>"

definition register_read_monotonic_clock :: "usize option \<Rightarrow> rtos_host \<Rightarrow> rtos_host" where
  "register_read_monotonic_clock cb h = h\<lparr>read_monotonic_clock_cb := callback_ptr cb\<rparr>"

definition register_cache_invalidate :: "usize option \<Rightarrow> rtos_host \<Rightarrow> rtos_host" where
  "register_cache_invalidate cb h = h\<lparr>cache_invalidate_cb := callback_ptr cb\<rparr>"

definition register_cache_flush :: "usize option \<Rightarrow> rtos_host \<Rightarrow> rtos_host" where
  "register_cache_flush cb h = h\<lparr>cache_flush_cb := callback_ptr cb\<rparr>"

definition register_pet_watchdog :: "usize option \<Rightarrow> rtos_host \<Rightarrow> rtos_host" where
  "register_pet_watchdog cb h = h\<lparr>pet_watchdog_cb := callback_ptr cb\<rparr>"

definition log_call :: "usize \<Rightarrow> rtos_call \<Rightarrow> rtos_host \<Rightarrow> rtos_host" where
  "log_call cb c h = h\<lparr>host_calls := host_calls h @ [(cb, c)]\<rparr>"

definition invoke_panic_hook :: "rtos_host \<Rightarrow> rtos_host" where
  "invoke_panic_hook h =
     (if panic_callback h \<noteq> 0 then log_call (panic_callback h) PanicHook h else h)"

text \<open>
  The common shape of the wrappers: load the registry, on null invoke the panic hook and spin for
  ever, otherwise call through the pointer.
\<close>

definition call_host :: "(rtos_host \<Rightarrow> usize) \<Rightarrow> rtos_call \<Rightarrow> (rtos_host, u64) prog" where
  "call_host registry c h =
     (let cb_ptr = registry h in
      if cb_ptr = 0 then Halt (invoke_panic_hook h)
      else let h' = log_call cb_ptr c h in Ret (host_reply h' (host_calls h')) h')"

definition disable_and_save :: "(rtos_host, usize) prog" where
  "disable_and_save = call_host disable_interrupts_cb DisableInterrupts"

definition restore :: "usize \<Rightarrow> (rtos_host, unit) prog" where
  "restore flags = bindP (call_host restore_interrupts_cb (RestoreInterrupts flags)) (\<lambda>_. ret ())"

definition host_read_monotonic_clock :: "(rtos_host, u64) prog" where
  "host_read_monotonic_clock = call_host read_monotonic_clock_cb ReadMonotonicClock"

definition host_cache_invalidate :: "usize \<Rightarrow> usize \<Rightarrow> (rtos_host, unit) prog" where
  "host_cache_invalidate ptr len =
     bindP (call_host cache_invalidate_cb (CacheInvalidate ptr len)) (\<lambda>_. ret ())"

definition host_cache_flush :: "usize \<Rightarrow> usize \<Rightarrow> (rtos_host, unit) prog" where
  "host_cache_flush ptr len =
     bindP (call_host cache_flush_cb (CacheFlush ptr len)) (\<lambda>_. ret ())"

definition host_pet_watchdog :: "(rtos_host, unit) prog" where
  "host_pet_watchdog = bindP (call_host pet_watchdog_cb PetWatchdog) (\<lambda>_. ret ())"

subsection \<open>Evaluation\<close>

lemma call_host_null [host_simps]:
  "registry h = 0 \<Longrightarrow> call_host registry c h = Halt (invoke_panic_hook h)"
  by (simp add: call_host_def)

lemma call_host_set [host_simps]:
  "registry h \<noteq> 0 \<Longrightarrow> call_host registry c h =
     Ret (host_reply h (host_calls h @ [(registry h, c)])) (log_call (registry h) c h)"
  by (simp add: call_host_def log_call_def Let_def)

lemma host_cache_flush_set [host_simps]:
  "cache_flush_cb h \<noteq> 0 \<Longrightarrow>
   host_cache_flush p n h = Ret () (log_call (cache_flush_cb h) (CacheFlush p n) h)"
  by (simp add: host_cache_flush_def host_simps)

lemma host_cache_flush_null [host_simps]:
  "cache_flush_cb h = 0 \<Longrightarrow> host_cache_flush p n h = Halt (invoke_panic_hook h)"
  by (simp add: host_cache_flush_def host_simps)

lemma host_cache_invalidate_set [host_simps]:
  "cache_invalidate_cb h \<noteq> 0 \<Longrightarrow>
   host_cache_invalidate p n h = Ret () (log_call (cache_invalidate_cb h) (CacheInvalidate p n) h)"
  by (simp add: host_cache_invalidate_def host_simps)

lemma host_cache_invalidate_null [host_simps]:
  "cache_invalidate_cb h = 0 \<Longrightarrow> host_cache_invalidate p n h = Halt (invoke_panic_hook h)"
  by (simp add: host_cache_invalidate_def host_simps)

lemma host_pet_watchdog_set [host_simps]:
  "pet_watchdog_cb h \<noteq> 0 \<Longrightarrow>
   host_pet_watchdog h = Ret () (log_call (pet_watchdog_cb h) PetWatchdog h)"
  by (simp add: host_pet_watchdog_def host_simps)

lemma host_pet_watchdog_null [host_simps]:
  "pet_watchdog_cb h = 0 \<Longrightarrow> host_pet_watchdog h = Halt (invoke_panic_hook h)"
  by (simp add: host_pet_watchdog_def host_simps)

lemma log_call_registries [simp]:
  "panic_callback (log_call cb c h) = panic_callback h"
  "disable_interrupts_cb (log_call cb c h) = disable_interrupts_cb h"
  "restore_interrupts_cb (log_call cb c h) = restore_interrupts_cb h"
  "read_monotonic_clock_cb (log_call cb c h) = read_monotonic_clock_cb h"
  "cache_invalidate_cb (log_call cb c h) = cache_invalidate_cb h"
  "cache_flush_cb (log_call cb c h) = cache_flush_cb h"
  "pet_watchdog_cb (log_call cb c h) = pet_watchdog_cb h"
  "host_calls (log_call cb c h) = host_calls h @ [(cb, c)]"
  "host_reply (log_call cb c h) = host_reply h"
  by (simp_all add: log_call_def)

text \<open>A host with every callback registered, for evaluation on concrete inputs.\<close>

definition demo_host :: rtos_host where
  "demo_host = \<lparr>panic_callback = 7, disable_interrupts_cb = 1, restore_interrupts_cb = 2,
     read_monotonic_clock_cb = 3, cache_invalidate_cb = 4, cache_flush_cb = 5, pet_watchdog_cb = 6,
     host_calls = [], host_reply = (\<lambda>_. 0)\<rparr>"

end
