(* ===== verification/Interrupt_Spinlock.thy ===== *)
theory Interrupt_Spinlock
  imports Rtos_Host
begin

text \<open>
  The interrupt-safe spinlock (interrupt_spinlock.rs), as a step relation of any number of cores.
  A core's \<open>lock\<close> disables interrupts and keeps the flags it found, tries a weak compare-exchange
  of \<open>locked\<close> from false to true, and between two tries spins until it reads false.  The guard
  gives access to the data; its drop stores false and then restores the saved flags.  What
  disabling does to the flags of a core is the host's (\<open>disable\<close>, a parameter).
\<close>

datatype spin_pc =
    Unlocked
  | TryLock usize
  | Spinning usize
  | Guard usize
  | Dropping usize

record 'd spinlock_conf =
  locked :: bool
  lock_data :: 'd
  core_flags :: "nat \<Rightarrow> usize"
  cores :: "nat \<Rightarrow> spin_pc"
  updates :: "(nat \<times> ('d \<Rightarrow> 'd)) list"

inductive spin_step :: "(usize \<Rightarrow> usize) \<Rightarrow> 'd spinlock_conf \<Rightarrow> 'd spinlock_conf \<Rightarrow> bool"
  for disable :: "usize \<Rightarrow> usize" where
  lock_disable: "cores c i = Unlocked \<Longrightarrow>
    spin_step disable c (c\<lparr>core_flags := (core_flags c)(i := disable (core_flags c i)),
      cores := (cores c)(i := TryLock (core_flags c i))\<rparr>)"
| lock_exchange_ok: "cores c i = TryLock saved \<Longrightarrow> \<not> locked c \<Longrightarrow>
    spin_step disable c (c\<lparr>locked := True, cores := (cores c)(i := Guard saved)\<rparr>)"
| lock_exchange_fail: "cores c i = TryLock saved \<Longrightarrow>
    spin_step disable c (c\<lparr>cores := (cores c)(i := Spinning saved)\<rparr>)"
| lock_spin: "cores c i = Spinning saved \<Longrightarrow> \<not> locked c \<Longrightarrow>
    spin_step disable c (c\<lparr>cores := (cores c)(i := TryLock saved)\<rparr>)"
| guard_write: "cores c i = Guard saved \<Longrightarrow>
    spin_step disable c (c\<lparr>lock_data := f (lock_data c), updates := updates c @ [(i, f)]\<rparr>)"
| guard_drop: "cores c i = Guard saved \<Longrightarrow>
    spin_step disable c (c\<lparr>locked := False, cores := (cores c)(i := Dropping saved)\<rparr>)"
| guard_restore: "cores c i = Dropping saved \<Longrightarrow>
    spin_step disable c (c\<lparr>core_flags := (core_flags c)(i := saved),
      cores := (cores c)(i := Unlocked)\<rparr>)"

definition spinlock_new :: "'d \<Rightarrow> (nat \<Rightarrow> usize) \<Rightarrow> 'd spinlock_conf" where
  "spinlock_new d flags = \<lparr>locked = False, lock_data = d, core_flags = flags,
     cores = (\<lambda>_. Unlocked), updates = []\<rparr>"

fun holds_guard :: "spin_pc \<Rightarrow> bool" where
  "holds_guard (Guard _) = True"
| "holds_guard _ = False"

fun saved_flags :: "spin_pc \<Rightarrow> usize option" where
  "saved_flags Unlocked = None"
| "saved_flags (TryLock f) = Some f"
| "saved_flags (Spinning f) = Some f"
| "saved_flags (Guard f) = Some f"
| "saved_flags (Dropping f) = Some f"

definition flags_ok :: "(usize \<Rightarrow> usize) \<Rightarrow> usize \<Rightarrow> spin_pc \<Rightarrow> usize \<Rightarrow> bool" where
  "flags_ok disable initial pc now = (case saved_flags pc of
     None \<Rightarrow> now = initial
   | Some f \<Rightarrow> f = initial \<and> now = disable initial)"

definition spin_inv :: "(usize \<Rightarrow> usize) \<Rightarrow> (nat \<Rightarrow> usize) \<Rightarrow> 'd spinlock_conf \<Rightarrow> bool" where
  "spin_inv disable flags c \<longleftrightarrow>
     (\<forall>i. holds_guard (cores c i) \<longrightarrow> locked c) \<and>
     (\<forall>i j. holds_guard (cores c i) \<and> holds_guard (cores c j) \<longrightarrow> i = j) \<and>
     (\<forall>i. flags_ok disable (flags i) (cores c i) (core_flags c i))"

lemma spin_inv_flags:
  assumes "spin_inv disable flags c" "saved_flags pc = saved_flags (cores c i)"
  shows "flags_ok disable (flags i) pc (core_flags c i)"
proof -
  have "flags_ok disable (flags i) (cores c i) (core_flags c i)"
    using assms(1) by (simp add: spin_inv_def)
  then show ?thesis using assms(2) by (simp add: flags_ok_def)
qed

lemma spin_inv_move:
  assumes "spin_inv disable flags c" "saved_flags pc = saved_flags (cores c i)"
    and "holds_guard pc \<Longrightarrow> holds_guard (cores c i)"
  shows "spin_inv disable flags (c\<lparr>cores := (cores c)(i := pc)\<rparr>)"
  using assms(1,3) spin_inv_flags [OF assms(1,2)] by (auto simp: spin_inv_def)

lemma spin_inv_new: "spin_inv disable flags (spinlock_new d flags)"
  by (simp add: spin_inv_def spinlock_new_def flags_ok_def)

lemma spin_inv_step:
  "spin_step disable c c' \<Longrightarrow> spin_inv disable flags c \<Longrightarrow> spin_inv disable flags c'"
proof (induction rule: spin_step.induct)
  case (lock_exchange_ok c i saved)
  then have "\<not> holds_guard (cores c j)" for j
    unfolding spin_inv_def by blast
  moreover have "flags_ok disable (flags i) (Guard saved) (core_flags c i)"
    using lock_exchange_ok by (intro spin_inv_flags) simp_all
  ultimately show ?case using lock_exchange_ok(3) by (simp add: spin_inv_def)
next
  case (guard_drop c i saved)
  then have "\<not> holds_guard (cores c j)" if "j \<noteq> i" for j
    using that unfolding spin_inv_def by (metis holds_guard.simps(1))
  moreover have "flags_ok disable (flags i) (Dropping saved) (core_flags c i)"
    using guard_drop by (intro spin_inv_flags) simp_all
  ultimately show ?case using guard_drop(2) by (simp add: spin_inv_def)
next
  case (lock_disable c i)
  then have "flags_ok disable (flags i) Unlocked (core_flags c i)"
    by (intro spin_inv_flags) simp_all
  then have "core_flags c i = flags i" by (simp add: flags_ok_def)
  then show ?case using lock_disable by (auto simp: spin_inv_def flags_ok_def)
next
  case (guard_restore c i saved)
  then have "flags_ok disable (flags i) (Dropping saved) (core_flags c i)"
    by (intro spin_inv_flags) simp_all
  then have "saved = flags i" by (simp add: flags_ok_def)
  then show ?case using guard_restore by (auto simp: spin_inv_def flags_ok_def)
next
  case (guard_write c i saved f)
  then show ?case by (simp add: spin_inv_def)
qed (rule spin_inv_move; simp)+

lemma spin_inv_steps:
  "(spin_step disable)\<^sup>*\<^sup>* c c' \<Longrightarrow> spin_inv disable flags c \<Longrightarrow> spin_inv disable flags c'"
  by (induction rule: rtranclp_induct) (auto intro: spin_inv_step)

lemma spin_data_step:
  "spin_step disable c c' \<Longrightarrow> lock_data c = fold snd (updates c) d \<Longrightarrow>
   lock_data c' = fold snd (updates c') d"
  by (induction rule: spin_step.induct) simp_all

lemma spin_data_steps:
  "(spin_step disable)\<^sup>*\<^sup>* c c' \<Longrightarrow> lock_data c = fold snd (updates c) d \<Longrightarrow>
   lock_data c' = fold snd (updates c') d"
  by (induction rule: rtranclp_induct) (auto dest: spin_data_step)

text \<open>C11: In every configuration any number of cores can reach from a new lock, at most one
  core holds the guard and it holds it with its interrupts disabled, a core that is in none of the
  lock's code has exactly the interrupt flags it started with, and the data is the result of the
  guarded updates one after another.\<close>

theorem spinlock_mutual_exclusion:
  assumes "(spin_step disable)\<^sup>*\<^sup>* (spinlock_new d flags) c"
  shows "(\<forall>i j. holds_guard (cores c i) \<and> holds_guard (cores c j) \<longrightarrow> i = j) \<and>
    (\<forall>i. holds_guard (cores c i) \<longrightarrow> locked c \<and> core_flags c i = disable (flags i)) \<and>
    (\<forall>i. cores c i = Unlocked \<longrightarrow> core_flags c i = flags i) \<and>
    lock_data c = fold snd (updates c) d"
proof -
  have inv: "spin_inv disable flags c"
    using assms spin_inv_new by (rule spin_inv_steps)
  have flags: "core_flags c i = disable (flags i)" if "holds_guard (cores c i)" for i
    using inv that unfolding spin_inv_def flags_ok_def
    by (cases "cores c i") (auto dest!: spec [of _ i])
  have idle: "core_flags c i = flags i" if "cores c i = Unlocked" for i
    using inv that unfolding spin_inv_def flags_ok_def by (auto dest!: spec [of _ i])
  have "lock_data c = fold snd (updates c) d"
    using assms by (rule spin_data_steps) (simp add: spinlock_new_def)
  with inv flags idle show ?thesis unfolding spin_inv_def by blast
qed

theorem spinlock_mutual_exclusion_witness:
  "\<exists>c :: nat spinlock_conf. cores c 1 = Guard 512 \<and> core_flags c 1 = 0 \<and> locked c \<and> \<not> holds_guard (cores c 0) \<and>
     lock_data c = fold snd (updates c) 7"
proof -
  define c0 where "c0 = spinlock_new (7::nat) (\<lambda>_. 512)"
  define c1 where "c1 = c0\<lparr>core_flags := (core_flags c0)(1 := 0), cores := (cores c0)(1 := TryLock 512)\<rparr>"
  define c2 where "c2 = c1\<lparr>locked := True, cores := (cores c1)(1 := Guard 512)\<rparr>"
  note defs = c0_def c1_def c2_def spinlock_new_def
  have s1: "spin_step (\<lambda>_. 0) c0 c1"
    using spin_step.lock_disable [of c0 1 "\<lambda>_. 0"] by (simp add: defs)
  have s2: "spin_step (\<lambda>_. 0) c1 c2"
    using spin_step.lock_exchange_ok [of c1 1 512 "\<lambda>_. 0"] by (simp add: defs)
  have "(spin_step (\<lambda>_. 0))\<^sup>*\<^sup>* (spinlock_new (7::nat) (\<lambda>_. 512)) c2"
    unfolding c0_def [symmetric]
    by (rule converse_rtranclp_into_rtranclp, rule s1, rule r_into_rtranclp, rule s2)
  from spinlock_mutual_exclusion [OF this] have
    "holds_guard (cores c2 1) \<longrightarrow> locked c2 \<and> core_flags c2 1 = 0"
    "lock_data c2 = fold snd (updates c2) 7" by auto
  then show ?thesis by (intro exI [of _ c2]) (simp add: defs)
qed

end
