(* ===== verification/Bounded_Fifo.thy ===== *)
theory Bounded_Fifo
  imports Shawn_Prelude
begin

text \<open>
  The contract of a bounded first-in first-out queue: what \<open>push\<close> and \<open>pop\<close> of a ready queue
  return and what they do to its contents.  The queues of both crates provide it, and their clients
  use only the lemmas proved from it here.
\<close>

datatype 'a fifo_op = Push 'a | Pop

datatype ('e, 'a) fifo_out = Pushed "'e + unit" | Popped "'a option"

text \<open>Any sequence of operations, on an implementation and on a list of bounded length.\<close>

fun run_fifo ::
  "('a \<Rightarrow> ('s, 'e + unit) prog) \<Rightarrow> ('s, 'a option) prog \<Rightarrow> 'a fifo_op list \<Rightarrow>
   ('s, ('e, 'a) fifo_out list) prog" where
  "run_fifo push pop [] = ret []"
| "run_fifo push pop (Push x # ops) =
     bindP (push x) (\<lambda>r. bindP (run_fifo push pop ops) (\<lambda>outs. ret (Pushed r # outs)))"
| "run_fifo push pop (Pop # ops) =
     bindP pop (\<lambda>r. bindP (run_fifo push pop ops) (\<lambda>outs. ret (Popped r # outs)))"

fun spec_fifo :: "nat \<Rightarrow> 'e \<Rightarrow> 'a fifo_op list \<Rightarrow> 'a list \<Rightarrow> ('e, 'a) fifo_out list \<times> 'a list" where
  "spec_fifo cap full [] xs = ([], xs)"
| "spec_fifo cap full (Push x # ops) xs =
     (if length xs < cap
      then (let (outs, ys) = spec_fifo cap full ops (xs @ [x]) in (Pushed (Ok ()) # outs, ys))
      else (let (outs, ys) = spec_fifo cap full ops xs in (Pushed (Err full) # outs, ys)))"
| "spec_fifo cap full (Pop # ops) xs =
     (case xs of
        [] \<Rightarrow> (let (outs, ys) = spec_fifo cap full ops [] in (Popped None # outs, ys))
      | x # xs' \<Rightarrow> (let (outs, ys) = spec_fifo cap full ops xs' in (Popped (Some x) # outs, ys)))"

locale bounded_fifo =
  fixes push :: "'a \<Rightarrow> ('s, 'e + unit) prog"
    and pop :: "('s, 'a option) prog"
    and ready :: "'s \<Rightarrow> bool"
    and contents :: "'s \<Rightarrow> 'a list"
    and capacity :: nat
    and full :: 'e
  assumes push_room: "ready s \<Longrightarrow> length (contents s) < capacity \<Longrightarrow>
      \<exists>s'. push x s = Ret (Ok ()) s' \<and> ready s' \<and> contents s' = contents s @ [x]"
    and push_full: "ready s \<Longrightarrow> \<not> length (contents s) < capacity \<Longrightarrow> push x s = Ret (Err full) s"
    and pop_empty: "ready s \<Longrightarrow> contents s = [] \<Longrightarrow> pop s = Ret None s"
    and pop_next: "ready s \<Longrightarrow> contents s = x # xs \<Longrightarrow>
      \<exists>s'. pop s = Ret (Some x) s' \<and> ready s' \<and> contents s' = xs"
begin

lemma run_refines:
  assumes "ready s"
  shows "\<exists>s'. run_fifo push pop ops s = Ret (fst (spec_fifo capacity full ops (contents s))) s' \<and>
    ready s' \<and> contents s' = snd (spec_fifo capacity full ops (contents s))"
  using assms
proof (induction ops arbitrary: s)
  case (Cons op ops)
  show ?case
  proof (cases op)
    case (Push x)
    show ?thesis
    proof (cases "length (contents s) < capacity")
      case True
      obtain s1 where s1: "push x s = Ret (Ok ()) s1" "ready s1" "contents s1 = contents s @ [x]"
        using push_room [OF Cons.prems True] by blast
      from Cons.IH [OF s1(2)] show ?thesis
        using s1 True by (auto simp: Push split_beta)
    next
      case False
      from Cons.IH [OF Cons.prems] show ?thesis
        using push_full [OF Cons.prems False] False by (auto simp: Push split_beta)
    qed
  next
    case Pop
    show ?thesis
    proof (cases "contents s")
      case Nil
      from Cons.IH [OF Cons.prems] show ?thesis
        using pop_empty [OF Cons.prems Nil] by (auto simp: Pop Nil split_beta)
    next
      case (Cons x xs)
      obtain s1 where s1: "pop s = Ret (Some x) s1" "ready s1" "contents s1 = xs"
        using pop_next [OF Cons.prems Cons] by blast
      from Cons.IH [OF s1(2)] show ?thesis
        using s1 by (auto simp: Pop Cons split_beta)
    qed
  qed
qed simp

end

end
