(* ===== verification/Spsc_Queue.thy ===== *)
theory Spsc_Queue
  imports Rtos_Host Bounded_Fifo
begin

text \<open>
  The single-producer single-consumer queue (spsc_queue.rs), its operations run one after another.
  The storage the host provides is the list \<open>slots\<close> of the queue; a payload cell that was never
  written is \<open>Uninit\<close>, one the consumer has overwritten with zero bytes is \<open>ZeroBytes\<close>, and reading
  either as a value is undefined.  The element type enters by its layout and its default value.
  What the cache-invalidate callback brings into a slot is the parameter \<open>inval\<close>.
\<close>

datatype 'a cell = Uninit | ZeroBytes | Val 'a

record 'a queue_slot =
  slot_data :: "'a cell"
  sequence_counter :: usize

record 'a spsc_queue =
  buffer :: usize
  head :: usize
  tail :: usize
  is_initialized :: bool
  is_initializing :: bool
  slots :: "'a queue_slot list"

record 'a element_type =
  type_size :: usize
  slot_size :: usize
  slot_align :: usize
  type_default :: 'a

definition spsc_new :: "'a spsc_queue" where
  "spsc_new = \<lparr>buffer = 0, head = 0, tail = 0, is_initialized = False, is_initializing = False,
     slots = []\<rparr>"

definition spsc_init ::
  "nat \<Rightarrow> 'a element_type \<Rightarrow> usize \<Rightarrow> usize \<Rightarrow> 'a queue_slot list \<Rightarrow> 'a spsc_queue \<Rightarrow>
   (ipc_error + unit) \<times> 'a spsc_queue" where
  "spsc_init N T base_ptr size_in_bytes memory q =
     (if base_ptr = 0 then (Err InvalidMemory, q)
      else case checked_mul (of_nat N) (slot_size T) of
        None \<Rightarrow> (Err InvalidMemory, q)
      | Some required_size \<Rightarrow>
          if size_in_bytes < required_size then (Err InvalidMemory, q)
          else if \<not> is_multiple_of base_ptr 4096 \<or> \<not> is_multiple_of base_ptr (slot_align T)
          then (Err InvalidMemory, q)
          else if is_initialized q \<or> is_initializing q then (Err QueueAlreadyInitialized, q)
          else let q = q\<lparr>is_initializing := True\<rparr> in
          if is_initialized q then (Err QueueAlreadyInitialized, q\<lparr>is_initializing := False\<rparr>)
          else (Ok (), q\<lparr>slots := map (\<lambda>slot. slot\<lparr>sequence_counter := 0\<rparr>) memory,
                         buffer := base_ptr, is_initialized := True, is_initializing := False\<rparr>))"

definition put_sequence :: "nat \<Rightarrow> usize \<Rightarrow> 'a spsc_queue \<Rightarrow> 'a spsc_queue" where
  "put_sequence i n q = q\<lparr>slots := (slots q)[i := (slots q ! i)\<lparr>sequence_counter := n\<rparr>]\<rparr>"

definition put_data :: "nat \<Rightarrow> 'a cell \<Rightarrow> 'a spsc_queue \<Rightarrow> 'a spsc_queue" where
  "put_data i d q = q\<lparr>slots := (slots q)[i := (slots q ! i)\<lparr>slot_data := d\<rparr>]\<rparr>"

definition slot_ptr :: "'a element_type \<Rightarrow> 'a spsc_queue \<Rightarrow> nat \<Rightarrow> usize" where
  "slot_ptr T q i = buffer q + of_nat i * slot_size T"

definition spsc_push ::
  "nat \<Rightarrow> 'a element_type \<Rightarrow> 'a \<Rightarrow> ('a spsc_queue \<times> rtos_host, ipc_error + unit) prog" where
  "spsc_push N T item = bindP getP (\<lambda>q.
     if \<not> is_initialized q then ret (Err QueueNotInitialized)
     else if N \<le> unat (head q - tail q) then ret (Err QueueFull)
     else
       let index = slot_index N (head q);
           sequence = sequence_counter (slots q ! index) in
       seqP (modP (put_sequence index ((sequence + 1) OR 1)))
      (seqP (modP (put_data index (Val item)))
      (seqP (hostP (host_cache_flush (slot_ptr T q index) (type_size T)))
      (seqP (modP (put_sequence index ((sequence + 2) AND NOT 1)))
      (seqP (modP (\<lambda>q'. q'\<lparr>head := head q + 1\<rparr>))
            (ret (Ok ())))))))"

definition read_data :: "nat \<Rightarrow> ('a spsc_queue \<times> rtos_host, 'a) prog" where
  "read_data i = bindP getP (\<lambda>q. case slot_data (slots q ! i) of
     Val x \<Rightarrow> ret x | _ \<Rightarrow> undefP)"

definition spsc_pop ::
  "nat \<Rightarrow> 'a element_type \<Rightarrow> ('a queue_slot \<Rightarrow> 'a queue_slot) \<Rightarrow>
   ('a spsc_queue \<times> rtos_host, 'a option) prog" where
  "spsc_pop N T inval = bindP getP (\<lambda>q.
     if \<not> is_initialized q then ret None
     else if head q = tail q then ret None
     else
       let index = slot_index N (tail q);
           first_sequence = sequence_counter (slots q ! index) in
       if odd_word first_sequence then ret None
       else
         seqP (hostP (host_cache_invalidate (slot_ptr T q index) (type_size T)))
        (seqP (modP (\<lambda>q'. q'\<lparr>slots := (slots q')[index := inval (slots q' ! index)]\<rparr>))
        (bindP (read_data index) (\<lambda>item.
         bindP getP (\<lambda>q'.
         let second_sequence = sequence_counter (slots q' ! index) in
         if first_sequence \<noteq> second_sequence \<or> odd_word second_sequence then ret None
         else
           seqP (modP (put_data index ZeroBytes))
          (seqP (modP (put_data index (Val (type_default T))))
          (seqP (modP (\<lambda>q'. q'\<lparr>tail := tail q + 1\<rparr>))
                (ret (Some item)))))))))"

subsection \<open>Invariant and contents\<close>

fun is_val :: "'a cell \<Rightarrow> bool" where
  "is_val (Val _) = True"
| "is_val _ = False"

primrec cell_val :: "'a cell \<Rightarrow> 'a option" where
  "cell_val Uninit = None"
| "cell_val ZeroBytes = None"
| "cell_val (Val x) = Some x"

definition spsc_inv :: "nat \<Rightarrow> 'a spsc_queue \<Rightarrow> bool" where
  "spsc_inv N q \<longleftrightarrow>
     is_power_of_two N \<and> is_initialized q \<and> \<not> is_initializing q \<and> length (slots q) = N \<and>
     unat (head q - tail q) \<le> N \<and>
     (\<forall>i\<in>set (live N (tail q) (head q)). is_val (slot_data (slots q ! i))) \<and>
     (\<forall>i<N. \<not> odd_word (sequence_counter (slots q ! i)))"

definition spsc_contents :: "nat \<Rightarrow> 'a spsc_queue \<Rightarrow> 'a list" where
  "spsc_contents N q =
     map (\<lambda>i. the (cell_val (slot_data (slots q ! i)))) (live N (tail q) (head q))"

definition queue_host :: "rtos_host \<Rightarrow> bool" where
  "queue_host h \<longleftrightarrow> cache_flush_cb h \<noteq> 0 \<and> cache_invalidate_cb h \<noteq> 0"

definition spsc_ready :: "nat \<Rightarrow> 'a spsc_queue \<times> rtos_host \<Rightarrow> bool" where
  "spsc_ready N s \<longleftrightarrow> spsc_inv N (fst s) \<and> queue_host (snd s)"

subsection \<open>Lemmas\<close>

lemma queue_hostD: "queue_host h \<Longrightarrow> cache_flush_cb h \<noteq> 0" "queue_host h \<Longrightarrow> cache_invalidate_cb h \<noteq> 0"
  by (simp_all add: queue_host_def)

lemma is_val_iff: "is_val c \<longleftrightarrow> (\<exists>x. c = Val x)"
  by (cases c) simp_all

lemma put_slots [simp]:
  "slots (put_sequence i n q) = (slots q)[i := (slots q ! i)\<lparr>sequence_counter := n\<rparr>]"
  "slots (put_data i d q) = (slots q)[i := (slots q ! i)\<lparr>slot_data := d\<rparr>]"
  "head (put_sequence i n q) = head q" "head (put_data i d q) = head q"
  "tail (put_sequence i n q) = tail q" "tail (put_data i d q) = tail q"
  by (simp_all add: put_sequence_def put_data_def)

lemmas queue_exec = Let_def host_simps slot_ptr_def queue_host_def

definition pushed :: "nat \<Rightarrow> 'a \<Rightarrow> 'a spsc_queue \<Rightarrow> 'a spsc_queue" where
  "pushed N x q = (let i = slot_index N (head q); slot = slots q ! i in
     q\<lparr>slots := (slots q)[i := slot\<lparr>slot_data := Val x,
         sequence_counter := (sequence_counter slot + 2) AND NOT 1\<rparr>],
       head := head q + 1\<rparr>)"

definition popped :: "nat \<Rightarrow> 'a element_type \<Rightarrow> 'a spsc_queue \<Rightarrow> 'a spsc_queue" where
  "popped N T q = (let i = slot_index N (tail q) in
     q\<lparr>slots := (slots q)[i := (slots q ! i)\<lparr>slot_data := Val (type_default T)\<rparr>],
       tail := tail q + 1\<rparr>)"

lemma spsc_inv_bounds:
  assumes "spsc_inv N q"
  shows "0 < N" "N dvd 2 ^ 64" "N < 2 ^ 64" "length (slots q) = N" "slot_index N w < N"
  using assms is_power_of_two_dvd [of N] by (auto simp: spsc_inv_def slot_index_less)

lemma length_spsc_contents: "length (spsc_contents N q) = unat (head q - tail q)"
  by (simp add: spsc_contents_def)

lemma spsc_push_room:
  assumes "spsc_inv N q" "cache_flush_cb h \<noteq> 0" "unat (head q - tail q) < N"
  shows "spsc_push N T x (q, h) = Ret (Ok ()) (pushed N x q,
    log_call (cache_flush_cb h) (CacheFlush (slot_ptr T q (slot_index N (head q))) (type_size T)) h)"
  using assms spsc_inv_bounds [OF assms(1)]
  by (simp add: spsc_push_def queue_exec pushed_def put_sequence_def put_data_def spsc_inv_def
      not_le)

lemma spsc_push_full:
  assumes "is_initialized q" "\<not> unat (head q - tail q) < N"
  shows "spsc_push N T x (q, h) = Ret (Err QueueFull) (q, h)"
  using assms by (simp add: spsc_push_def)

lemma spsc_inv_pushed:
  assumes inv: "spsc_inv N q" and room: "unat (head q - tail q) < N"
  shows "spsc_inv N (pushed N x q)" "spsc_contents N (pushed N x q) = spsc_contents N q @ [x]"
proof -
  note b = spsc_inv_bounds [OF inv]
  have lt: "unat (head q - tail q) < 2 ^ 64 - 1" using b(3) room by linarith
  note lv = live_push [OF lt, of N]
  have nl: "slot_index N (head q) \<notin> set (live N (tail q) (head q))"
    using b room by (intro head_not_live)
  show "spsc_inv N (pushed N x q)"
    using inv b nl room unat_sub_Suc [OF lt]
    by (auto simp: spsc_inv_def pushed_def Let_def lv nth_list_update)
  show "spsc_contents N (pushed N x q) = spsc_contents N q @ [x]"
    using b nl by (auto simp: spsc_contents_def pushed_def Let_def lv nth_list_update)
qed

lemma spsc_pop_empty:
  "head q = tail q \<Longrightarrow> spsc_pop N T inval (q, h) = Ret None (q, h)"
  by (simp add: spsc_pop_def)

lemma spsc_pop_next:
  assumes "spsc_inv N q" "cache_invalidate_cb h \<noteq> 0" "head q \<noteq> tail q"
    and "inval (slots q ! slot_index N (tail q)) = slots q ! slot_index N (tail q)"
  shows "spsc_pop N T inval (q, h) = Ret (Some (hd (spsc_contents N q))) (popped N T q,
    log_call (cache_invalidate_cb h)
      (CacheInvalidate (slot_ptr T q (slot_index N (tail q))) (type_size T)) h)"
proof -
  note b = spsc_inv_bounds [OF assms(1)]
  let ?i = "slot_index N (tail q)"
  have "?i \<in> set (live N (tail q) (head q))" using live_pop [OF assms(3)] by simp
  then obtain x where x: "slot_data (slots q ! ?i) = Val x"
    using assms(1) by (auto simp: spsc_inv_def is_val_iff)
  have "hd (spsc_contents N q) = x"
    using x by (simp add: spsc_contents_def live_pop [OF assms(3)])
  moreover have "\<not> odd_word (sequence_counter (slots q ! ?i))"
    using assms(1) b by (simp add: spsc_inv_def)
  ultimately show ?thesis
    using assms b x
    by (simp add: spsc_pop_def queue_exec popped_def put_data_def read_data_def spsc_inv_def)
qed

lemma spsc_inv_popped:
  assumes inv: "spsc_inv N q" and ne: "head q \<noteq> tail q"
  shows "spsc_inv N (popped N T q)" "spsc_contents N q = hd (spsc_contents N q) # spsc_contents N (popped N T q)"
proof -
  note b = spsc_inv_bounds [OF inv]
  note lv = live_pop [OF ne, of N]
  have nl: "slot_index N (tail q) \<notin> set (live N (tail q + 1) (head q))"
    using inv b ne by (intro tail_not_live) (simp_all add: spsc_inv_def)
  show "spsc_inv N (popped N T q)"
    using inv b nl unat_sub_pos [OF ne]
    by (auto simp: spsc_inv_def popped_def Let_def lv nth_list_update)
  show "spsc_contents N q = hd (spsc_contents N q) # spsc_contents N (popped N T q)"
    using b nl by (auto simp: spsc_contents_def popped_def Let_def lv nth_list_update)
qed

interpretation spsc_fifo: bounded_fifo "spsc_push N T" "spsc_pop N T (\<lambda>slot. slot)"
    "spsc_ready N" "\<lambda>s. spsc_contents N (fst s)" N QueueFull for N T
proof (unfold_locales, goal_cases)
  case (1 s x)
  then show ?case
    using spsc_push_room [of N "fst s" "snd s" T x] spsc_inv_pushed [of N "fst s" x]
    by (auto simp: spsc_ready_def length_spsc_contents queue_host_def)
next
  case (2 s x)
  then show ?case
    using spsc_push_full [of "fst s" N T x "snd s"]
    by (simp add: spsc_ready_def length_spsc_contents spsc_inv_def)
next
  case (3 s)
  then have "head (fst s) = tail (fst s)"
    using length_spsc_contents [of N "fst s"] by (simp add: unat_eq_0)
  then show ?case using spsc_pop_empty [of "fst s" N T "\<lambda>slot. slot" "snd s"] by simp
next
  case (4 s x xs)
  then have ne: "head (fst s) \<noteq> tail (fst s)" by (auto simp: spsc_contents_def)
  show ?case
    using 4 spsc_pop_next [of N "fst s" "snd s" "\<lambda>slot. slot" T, OF _ _ ne] spsc_inv_popped [OF _ ne, of N T]
    by (auto simp: spsc_ready_def queue_host_def)
qed

lemma spsc_init_Ok:
  assumes "spsc_init N T base_ptr size_in_bytes memory q = (Ok (), q')"
  shows "is_initialized q'" "\<not> is_initializing q'" "head q' = head q" "tail q' = tail q"
    "slots q' = map (\<lambda>slot. slot\<lparr>sequence_counter := 0\<rparr>) memory"
  using assms by (auto simp: spsc_init_def Let_def split: if_splits option.splits)

lemma spsc_init_inv:
  assumes "is_power_of_two N" "length memory = N"
    and "spsc_init N T base_ptr size_in_bytes memory spsc_new = (Ok (), q)"
  shows "spsc_inv N q" "spsc_contents N q = []"
  using assms(1,2) spsc_init_Ok [OF assms(3)]
  by (simp_all add: spsc_inv_def spsc_contents_def spsc_new_def odd_word_def)

subsection \<open>Properties\<close>

text \<open>C4: Once init of a new queue has accepted a buffer of N slots whose payloads may be
  uninitialised, with N a power of two, on a host with registered cache flush and invalidate
  callbacks, every sequence of pushes and pops returns exactly what a list of at most N elements
  returns in first-in first-out order, QueueFull and None included, through any number of
  wrap-arounds of the 64-bit indices, and no payload is ever read before it was written.\<close>

theorem spsc_queue_fifo:
  assumes "is_power_of_two N" "length memory = N" "queue_host h"
    and "spsc_init N T base_ptr size_in_bytes memory spsc_new = (Ok (), q)"
  shows "\<exists>s'. run_fifo (spsc_push N T) (spsc_pop N T (\<lambda>slot. slot)) ops (q, h) =
      Ret (fst (spec_fifo N QueueFull ops [])) s' \<and>
    spsc_inv N (fst s') \<and> spsc_contents N (fst s') = snd (spec_fifo N QueueFull ops [])"
  using spsc_fifo.run_refines [of N "(q, h)" T ops] spsc_init_inv [OF assms(1,2,4)] assms(3)
  by (auto simp: spsc_ready_def)

definition demo_type :: "nat element_type" where
  "demo_type = \<lparr>type_size = 8, slot_size = 64, slot_align = 64, type_default = 0\<rparr>"

definition demo_slot :: "nat queue_slot" where
  "demo_slot = \<lparr>slot_data = Uninit, sequence_counter = 12345\<rparr>"

lemma demo_queue_host: "queue_host demo_host"
  by (simp add: queue_host_def demo_host_def)

lemma two_is_power: "is_power_of_two 2"
  unfolding is_power_of_two_def by (rule bexI [of _ 1]) auto

lemma demo_spsc_init:
  "spsc_init 2 demo_type 4096 128 [demo_slot, demo_slot] spsc_new =
     (Ok (), \<lparr>buffer = 4096, head = 0, tail = 0, is_initialized = True, is_initializing = False,
        slots = [demo_slot\<lparr>sequence_counter := 0\<rparr>, demo_slot\<lparr>sequence_counter := 0\<rparr>]\<rparr>)"
  by (simp add: spsc_init_def demo_type_def checked_mul_def is_multiple_of_def spsc_new_def Let_def)

definition demo_queue :: "nat spsc_queue" where
  "demo_queue = pushed 2 9 (snd (spsc_init 2 demo_type 4096 128 [demo_slot, demo_slot] spsc_new))"

lemma demo_queue_inv: "spsc_inv 2 demo_queue"
  unfolding demo_queue_def demo_spsc_init snd_conv
  by (rule spsc_inv_pushed, rule spsc_init_inv [OF two_is_power _ demo_spsc_init]) simp_all

lemma demo_queue_eq:
  "demo_queue = \<lparr>buffer = 4096, head = 1, tail = 0, is_initialized = True, is_initializing = False,
     slots = [\<lparr>slot_data = Val 9, sequence_counter = 2\<rparr>, demo_slot\<lparr>sequence_counter := 0\<rparr>]\<rparr>"
  unfolding demo_queue_def demo_spsc_init by (simp add: pushed_def slot_index_def demo_slot_def Let_def)

theorem spsc_queue_fifo_witness:
  "\<exists>s'. run_fifo (spsc_push 2 demo_type) (spsc_pop 2 demo_type (\<lambda>slot. slot))
      [Push 11, Push 22, Push 33, Pop, Push 44, Pop, Pop, Pop]
      (snd (spsc_init 2 demo_type 4096 128 [demo_slot, demo_slot] spsc_new), demo_host) =
      Ret [Pushed (Ok ()), Pushed (Ok ()), Pushed (Err QueueFull), Popped (Some 11),
           Pushed (Ok ()), Popped (Some 22), Popped (Some 44), Popped None] s'"
  using spsc_queue_fifo [OF two_is_power _ demo_queue_host demo_spsc_init,
      of "[Push 11, Push 22, Push 33, Pop, Push 44, Pop, Pop, Pop]"]
  by (auto simp: demo_spsc_init)

text \<open>When the sequence counter of the slot differs after the cache invalidation from what
  it was before, pop answers None and neither index moves: the item stays in the queue and its
  payload is not wiped, whatever the invalidation brought in.\<close>

theorem spsc_pop_unstable_slot:
  assumes "spsc_inv N q" "queue_host h" "head q \<noteq> tail q"
    and "slot = inval (slots q ! slot_index N (tail q))" "is_val (slot_data slot)"
    and "sequence_counter slot \<noteq> sequence_counter (slots q ! slot_index N (tail q))"
  shows "\<exists>h'. spsc_pop N T inval (q, h) =
    Ret None (q\<lparr>slots := (slots q)[slot_index N (tail q) := slot]\<rparr>, h')"
  using assms spsc_inv_bounds [OF assms(1)]
  by (auto simp: spsc_pop_def queue_exec read_data_def spsc_inv_def is_val_iff)

theorem spsc_pop_unstable_slot_witness:
  "\<exists>h'. spsc_pop 2 demo_type (\<lambda>slot. slot\<lparr>sequence_counter := 4\<rparr>) (demo_queue, demo_host) =
    Ret None (demo_queue\<lparr>slots := [\<lparr>slot_data = Val 9, sequence_counter = 4\<rparr>,
      demo_slot\<lparr>sequence_counter := 0\<rparr>]\<rparr>, h')"
  using spsc_pop_unstable_slot [OF demo_queue_inv demo_queue_host,
      of "\<lparr>slot_data = Val 9, sequence_counter = 4\<rparr>" "\<lambda>slot. slot\<lparr>sequence_counter := 4\<rparr>" demo_type]
  by (simp add: demo_queue_eq slot_index_def)

text \<open>A pop that returns an item overwrites its payload with the default value, so that the
  item is no longer in the storage slot it came from, and hands the slot back to the producer with
  the sequence counter unchanged.\<close>

theorem spsc_pop_wipes_slot:
  assumes "spsc_inv N q" "queue_host h" "head q \<noteq> tail q"
  shows "\<exists>q' h'. spsc_pop N T (\<lambda>slot. slot) (q, h) = Ret (Some (hd (spsc_contents N q))) (q', h') \<and>
    slots q' = (slots q)[slot_index N (tail q) :=
      (slots q ! slot_index N (tail q))\<lparr>slot_data := Val (type_default T)\<rparr>] \<and>
    head q' = head q \<and> tail q' = tail q + 1"
  using spsc_pop_next [OF assms(1) queue_hostD(2) [OF assms(2)] assms(3), of "\<lambda>slot. slot" T] by (simp add: popped_def Let_def)

theorem spsc_pop_wipes_slot_witness:
  "\<exists>q' h'. spsc_pop 2 demo_type (\<lambda>slot. slot) (demo_queue, demo_host) =
    Ret (Some 9) (q', h') \<and> map slot_data (slots q') = [Val 0, Uninit] \<and> tail q' = 1"
  using spsc_pop_wipes_slot [OF demo_queue_inv demo_queue_host, of demo_type]
  by (auto simp: demo_queue_eq demo_slot_def slot_index_def spsc_contents_def live_def demo_type_def)

end
