(* ===== verification/Slot_Allocator.thy ===== *)
theory Slot_Allocator
  imports Shawn_Prelude
begin

text \<open>
  The contract of an allocator of numbered slots with ownership tokens: which slots are held under
  which token, and what allocating and freeing answer and change.  \<open>fair\<close> selects the schedules
  under which the compare-exchange loops of an operation get through.
\<close>

datatype 'c pool_op = Alloc 'c | Free 'c nat u64

datatype 'e pool_out = Allocated "'e + (nat \<times> u64 \<times> usize)" | Freed "'e + unit"

primrec op_schedule :: "'c pool_op \<Rightarrow> 'c" where
  "op_schedule (Alloc c) = c"
| "op_schedule (Free c i g) = c"

fun run_pool ::
  "('c \<Rightarrow> ('s, 'e + (nat \<times> u64 \<times> usize)) prog) \<Rightarrow> ('c \<Rightarrow> nat \<Rightarrow> u64 \<Rightarrow> ('s, 'e + unit) prog) \<Rightarrow>
   'c pool_op list \<Rightarrow> ('s, 'e pool_out list) prog" where
  "run_pool alloc free [] = ret []"
| "run_pool alloc free (Alloc c # ops) =
     bindP (alloc c) (\<lambda>r. bindP (run_pool alloc free ops) (\<lambda>outs. ret (Allocated r # outs)))"
| "run_pool alloc free (Free c i g # ops) =
     bindP (free c i g) (\<lambda>r. bindP (run_pool alloc free ops) (\<lambda>outs. ret (Freed r # outs)))"

text \<open>
  The answers a sequence of operations may get, from the slots held before it to those held after
  it: an allocation returns a slot nobody holds, or fails because all are held; a free succeeds
  exactly for the holder's token.
\<close>

fun trace_ok ::
  "nat \<Rightarrow> 'e \<Rightarrow> 'e \<Rightarrow> 'e \<Rightarrow> (nat \<rightharpoonup> u64) \<Rightarrow> 'c pool_op list \<Rightarrow> 'e pool_out list \<Rightarrow> (nat \<rightharpoonup> u64) \<Rightarrow> bool"
  where
  "trace_ok n exhausted refused outside held [] [] held' \<longleftrightarrow> held' = held"
| "trace_ok n exhausted refused outside held (Alloc c # ops) (Allocated (Inr (i, t, ptr)) # outs) held' \<longleftrightarrow>
     i < n \<and> held i = None \<and> trace_ok n exhausted refused outside (held(i \<mapsto> t)) ops outs held'"
| "trace_ok n exhausted refused outside held (Alloc c # ops) (Allocated (Inl e) # outs) held' \<longleftrightarrow>
     e = exhausted \<and> (\<forall>i<n. held i \<noteq> None) \<and> trace_ok n exhausted refused outside held ops outs held'"
| "trace_ok n exhausted refused outside held (Free c i g # ops) (Freed r # outs) held' \<longleftrightarrow>
     (if held i = Some g
      then r = Ok () \<and> trace_ok n exhausted refused outside (held(i := None)) ops outs held'
      else r = Err (if i < n then refused else outside) \<and>
        trace_ok n exhausted refused outside held ops outs held')"
| "trace_ok n exhausted refused outside held _ _ held' \<longleftrightarrow> False"

locale slot_allocator =
  fixes alloc :: "'c \<Rightarrow> ('s, 'e + (nat \<times> u64 \<times> usize)) prog"
    and free :: "'c \<Rightarrow> nat \<Rightarrow> u64 \<Rightarrow> ('s, 'e + unit) prog"
    and fair :: "'c \<Rightarrow> bool"
    and ready :: "'s \<Rightarrow> bool"
    and owner :: "'s \<Rightarrow> nat \<rightharpoonup> u64"
    and total :: nat
    and exhausted refused outside :: 'e
  assumes alloc_free_slot: "ready s \<Longrightarrow> fair c \<Longrightarrow> i < total \<Longrightarrow> owner s i = None \<Longrightarrow>
      \<exists>j t ptr s'. alloc c s = Ret (Ok (j, t, ptr)) s' \<and> j < total \<and> owner s j = None \<and>
        ready s' \<and> owner s' = (owner s)(j \<mapsto> t)"
    and alloc_exhausted: "ready s \<Longrightarrow> \<forall>i<total. owner s i \<noteq> None \<Longrightarrow>
      alloc c s = Ret (Err exhausted) s"
    and free_owner: "ready s \<Longrightarrow> fair c \<Longrightarrow> owner s i = Some g \<Longrightarrow>
      \<exists>s'. free c i g s = Ret (Ok ()) s' \<and> ready s' \<and> owner s' = (owner s)(i := None)"
    and free_refused: "ready s \<Longrightarrow> owner s i \<noteq> Some g \<Longrightarrow>
      free c i g s = Ret (Err (if i < total then refused else outside)) s"
begin

lemma run_trace:
  assumes "ready s" "\<forall>x\<in>set ops. fair (op_schedule x)"
  shows "\<exists>outs s'. run_pool alloc free ops s = Ret outs s' \<and> ready s' \<and>
    trace_ok total exhausted refused outside (owner s) ops outs (owner s')"
  using assms
proof (induction ops arbitrary: s)
  case (Cons x ops)
  have IH: "\<exists>outs s'. run_pool alloc free ops u = Ret outs s' \<and> ready s' \<and>
      trace_ok total exhausted refused outside (owner u) ops outs (owner s')" if "ready u" for u
    using Cons.IH [OF that] Cons.prems(2) by simp
  show ?case
  proof (cases x)
    case (Alloc c)
    show ?thesis
    proof (cases "\<forall>i<total. owner s i \<noteq> None")
      case True
      obtain outs s' where "run_pool alloc free ops s = Ret outs s'" "ready s'"
        "trace_ok total exhausted refused outside (owner s) ops outs (owner s')"
        using IH [OF Cons.prems(1)] by blast
      then show ?thesis
        using alloc_exhausted [OF Cons.prems(1) True] True by (auto simp: Alloc)
    next
      case False
      then obtain i where i: "i < total" "owner s i = None" by blast
      have "fair c" using Cons.prems(2) Alloc by simp
      then obtain j t ptr s1 where s1: "alloc c s = Ret (Ok (j, t, ptr)) s1" "j < total"
        "owner s j = None" "ready s1" "owner s1 = (owner s)(j \<mapsto> t)"
        using alloc_free_slot [OF Cons.prems(1) _ i] by blast
      obtain outs s' where "run_pool alloc free ops s1 = Ret outs s'" "ready s'"
        "trace_ok total exhausted refused outside (owner s1) ops outs (owner s')"
        using IH [of s1] s1 by blast
      then show ?thesis using s1 by (auto simp: Alloc)
    qed
  next
    case (Free c i g)
    show ?thesis
    proof (cases "owner s i = Some g")
      case True
      then obtain s1 where s1: "free c i g s = Ret (Ok ()) s1" "ready s1" "owner s1 = (owner s)(i := None)"
        using free_owner [OF Cons.prems(1) _ True, of c] Cons.prems(2) Free by auto
      obtain outs s' where "run_pool alloc free ops s1 = Ret outs s'" "ready s'"
        "trace_ok total exhausted refused outside (owner s1) ops outs (owner s')"
        using IH [of s1] s1 by blast
      then show ?thesis using s1 True by (auto simp: Free)
    next
      case False
      obtain outs s' where "run_pool alloc free ops s = Ret outs s'" "ready s'"
        "trace_ok total exhausted refused outside (owner s) ops outs (owner s')"
        using IH [OF Cons.prems(1)] by blast
      then show ?thesis using free_refused [OF Cons.prems(1) False] False by (auto simp: Free)
    qed
  qed
qed simp

end

end
