(* ===== verification/Dma_Pool.thy ===== *)
theory Dma_Pool
  imports Rtos_Host Slot_Allocator
begin

text \<open>
  The static DMA pool (static_dma_pool.rs): a free list threaded through \<open>next_links\<close> with a packed
  head of index and ABA generation, and per slot an ownership word of an allocated bit and a 63-bit
  generation that the allocation hands out as its token.  The host region is the byte list
  \<open>storage\<close>.  The loops around weak compare-exchanges take a schedule with one entry per exchange,
  True for a spurious failure; an exhausted schedule is \<open>Running\<close>.  \<open>debug\<close> says whether debug
  assertions are compiled in.
\<close>

definition FREE_LIST_EMPTY :: u32 where
  "FREE_LIST_EMPTY = - 1"

definition OWNERSHIP_ALLOCATED_BIT :: u64 where
  "OWNERSHIP_ALLOCATED_BIT = push_bit 63 1"

definition OWNERSHIP_GENERATION_MASK :: u64 where
  "OWNERSHIP_GENERATION_MASK = OWNERSHIP_ALLOCATED_BIT - 1"

record dma_pool =
  dma_memory :: usize
  free_list_head :: usize
  next_links :: "usize list"
  ownership :: "u64 list"
  pool_initialized :: bool
  pool_initializing :: bool
  storage :: bytes

record dma_layout =
  dma_size :: usize
  dma_align :: usize

definition pack_head :: "u32 \<Rightarrow> u32 \<Rightarrow> usize" where
  "pack_head index generation = push_bit 32 (ucast generation) OR ucast index"

definition unpack_head :: "usize \<Rightarrow> u32 \<times> u32" where
  "unpack_head v = (ucast v, ucast (drop_bit 32 v))"

definition dma_new :: "nat \<Rightarrow> dma_pool" where
  "dma_new N = \<lparr>dma_memory = 0, free_list_head = pack_head 0 0,
     next_links = replicate N (ucast FREE_LIST_EMPTY), ownership = replicate N 0,
     pool_initialized = False, pool_initializing = False, storage = []\<rparr>"

definition dma_init ::
  "nat \<Rightarrow> nat \<Rightarrow> dma_layout \<Rightarrow> usize \<Rightarrow> usize \<Rightarrow> bytes \<Rightarrow> dma_pool \<Rightarrow>
   (allocator_error + unit) \<times> dma_pool" where
  "dma_init N BITMAP_WORDS T base_ptr size_in_bytes region p =
     (if dma_size T = 0 then (Err AddressOutOfBounds, p)
      else if base_ptr = 0 then (Err AddressOutOfBounds, p)
      else case checked_mul (of_nat N) (dma_size T) of
        None \<Rightarrow> (Err AddressOutOfBounds, p)
      | Some required_size \<Rightarrow>
          if size_in_bytes < required_size \<or> checked_add base_ptr required_size = None
          then (Err AddressOutOfBounds, p)
          else if \<not> is_multiple_of base_ptr 4096 \<or> \<not> is_multiple_of base_ptr (dma_align T)
          then (Err InvalidAlignment, p)
          else if BITMAP_WORDS \<noteq> (N + 63) div 64 then (Err AddressOutOfBounds, p)
          else if pool_initialized p \<or> pool_initializing p then (Err PoolAlreadyInitialized, p)
          else (Ok (), p\<lparr>dma_memory := base_ptr,
              next_links := map (\<lambda>index. if index + 1 < N then of_nat (index + 1)
                                         else ucast FREE_LIST_EMPTY) [0..<N],
              ownership := replicate N 0, free_list_head := pack_head 0 0,
              pool_initialized := True, pool_initializing := False, storage := region\<rparr>))"

definition claim_slot ::
  "bool \<Rightarrow> dma_layout \<Rightarrow> nat \<Rightarrow> (dma_pool \<times> rtos_host, allocator_error + (nat \<times> u64 \<times> usize)) prog" where
  "claim_slot debug T slot = bindP getP (\<lambda>p.
     let observed_state = ownership p ! slot in
     if debug \<and> observed_state AND OWNERSHIP_ALLOCATED_BIT \<noteq> 0 then panicP
     else
       let next_generation =
             ((observed_state AND OWNERSHIP_GENERATION_MASK) + 1) AND OWNERSHIP_GENERATION_MASK;
           claimed_state = OWNERSHIP_ALLOCATED_BIT OR next_generation in
       seqP (modP (\<lambda>p. p\<lparr>ownership := (ownership p)[slot := claimed_state]\<rparr>))
            (ret (Ok (slot, next_generation, dma_memory p + of_nat slot * dma_size T))))"

fun allocate_loop ::
  "bool \<Rightarrow> dma_layout \<Rightarrow> bool list \<Rightarrow> usize \<Rightarrow>
   (dma_pool \<times> rtos_host, allocator_error + (nat \<times> u64 \<times> usize)) prog" where
  "allocate_loop debug T sched observed = (\<lambda>(p, h).
     let (index, generation) = unpack_head observed in
     if index = FREE_LIST_EMPTY then Ret (Err OutOfMemory) (p, h)
     else
       let next_index = (ucast (next_links p ! unat index) :: u32);
           replacement = pack_head next_index (generation + 1) in
       case sched of
         [] \<Rightarrow> Running (p, h)
       | spurious # sched' \<Rightarrow>
           if free_list_head p = observed \<and> \<not> spurious
           then claim_slot debug T (unat index) (p\<lparr>free_list_head := replacement\<rparr>, h)
           else allocate_loop debug T sched' (free_list_head p) (p, h))"

definition dma_allocate ::
  "bool \<Rightarrow> dma_layout \<Rightarrow> bool list \<Rightarrow>
   (dma_pool \<times> rtos_host, allocator_error + (nat \<times> u64 \<times> usize)) prog" where
  "dma_allocate debug T sched = bindP getP (\<lambda>p.
     if \<not> pool_initialized p then ret (Err PoolNotInitialized)
     else allocate_loop debug T sched (free_list_head p))"

subsection \<open>Wiping a freed slot\<close>

text \<open>
  The three loops of \<open>free\<close> over the bytes of a slot that starts at index \<open>start\<close> of the storage
  and at address \<open>pointer\<close>: single bytes up to the first aligned address, whole words, and the
  bytes that are left.  Each returns the storage and the offset it stopped at.
\<close>

function clear_prefix :: "usize \<Rightarrow> nat \<Rightarrow> nat \<Rightarrow> nat \<Rightarrow> bytes \<Rightarrow> bytes \<times> nat" where
  "clear_prefix pointer start len offset bs =
     (if offset < len \<and> (pointer + of_nat offset) AND 7 \<noteq> 0
      then clear_prefix pointer start len (offset + 1) (bs[start + offset := 0])
      else (bs, offset))"
  by pat_completeness auto
termination by (relation "measure (\<lambda>(_, _, len, offset, _). len - offset)") auto

fun store_bytes :: "nat \<Rightarrow> bytes \<Rightarrow> bytes \<Rightarrow> bytes" where
  "store_bytes i [] bs = bs"
| "store_bytes i (v # vs) bs = store_bytes (Suc i) vs (bs[i := v])"

function clear_words :: "nat \<Rightarrow> nat \<Rightarrow> nat \<Rightarrow> bytes \<Rightarrow> bytes \<times> nat" where
  "clear_words start len offset bs =
     (if offset + 8 \<le> len
      then clear_words start len (offset + 8) (store_bytes (start + offset) (le_bytes 8 (0 :: u64)) bs)
      else (bs, offset))"
  by pat_completeness auto
termination by (relation "measure (\<lambda>(_, len, offset, _). len - offset)") auto

function clear_tail :: "nat \<Rightarrow> nat \<Rightarrow> nat \<Rightarrow> bytes \<Rightarrow> bytes \<times> nat" where
  "clear_tail start len offset bs =
     (if offset < len then clear_tail start len (offset + 1) (bs[start + offset := 0])
      else (bs, offset))"
  by pat_completeness auto
termination by (relation "measure (\<lambda>(_, len, offset, _). len - offset)") auto

definition wipe_slot :: "usize \<Rightarrow> nat \<Rightarrow> nat \<Rightarrow> bytes \<Rightarrow> bytes" where
  "wipe_slot pointer start len bs =
     (let (bs, offset) = clear_prefix pointer start len 0 bs;
          (bs, offset) = clear_words start len offset bs;
          (bs, offset) = clear_tail start len offset bs in bs)"

fun push_free_loop ::
  "nat \<Rightarrow> bool list \<Rightarrow> usize \<Rightarrow> (dma_pool \<times> rtos_host, allocator_error + unit) prog" where
  "push_free_loop buffer_idx sched observed = (\<lambda>(p, h).
     let (_, head_generation) = unpack_head observed;
         p = p\<lparr>next_links := (next_links p)[buffer_idx := ucast (ucast observed :: u32)]\<rparr>;
         replacement = pack_head (of_nat buffer_idx) (head_generation + 1) in
     case sched of
       [] \<Rightarrow> Running (p, h)
     | spurious # sched' \<Rightarrow>
         if free_list_head p = observed \<and> \<not> spurious
         then Ret (Ok ()) (p\<lparr>free_list_head := replacement\<rparr>, h)
         else push_free_loop buffer_idx sched' (free_list_head p) (p, h))"

definition dma_free ::
  "nat \<Rightarrow> dma_layout \<Rightarrow> bool list \<Rightarrow> nat \<Rightarrow> u64 \<Rightarrow>
   (dma_pool \<times> rtos_host, allocator_error + unit) prog" where
  "dma_free N T sched buffer_idx generation = bindP getP (\<lambda>p.
     if \<not> pool_initialized p then ret (Err PoolNotInitialized)
     else if buffer_idx \<ge> N then ret (Err AddressOutOfBounds)
     else if generation > OWNERSHIP_GENERATION_MASK then ret (Err DoubleFree)
     else if ownership p ! buffer_idx \<noteq> OWNERSHIP_ALLOCATED_BIT OR generation
     then ret (Err DoubleFree)
     else
       let pointer = dma_memory p + of_nat buffer_idx * dma_size T;
           len = unat (dma_size T) in
       seqP (modP (\<lambda>p. p\<lparr>ownership := (ownership p)[buffer_idx := generation]\<rparr>))
      (seqP (modP (\<lambda>p. p\<lparr>storage := wipe_slot pointer (buffer_idx * len) len (storage p)\<rparr>))
      (seqP (hostP (host_cache_flush pointer (dma_size T)))
      (bindP getP (\<lambda>p. push_free_loop buffer_idx sched (free_list_head p))))))"

declare clear_prefix.simps [simp del]
declare clear_words.simps [simp del]
declare clear_tail.simps [simp del]
declare allocate_loop.simps [simp del]
declare push_free_loop.simps [simp del]

subsection \<open>Invariant and ownership\<close>

text \<open>The links from an index visit exactly the given slots and end with the empty marker.\<close>

fun chain :: "usize list \<Rightarrow> u32 \<Rightarrow> nat list \<Rightarrow> bool" where
  "chain links index [] \<longleftrightarrow> index = FREE_LIST_EMPTY"
| "chain links index (i # is) \<longleftrightarrow>
     i < length links \<and> unat index = i \<and> index \<noteq> FREE_LIST_EMPTY \<and> chain links (ucast (links ! i)) is"

definition pool_inv :: "nat \<Rightarrow> dma_pool \<Rightarrow> nat list \<Rightarrow> bool" where
  "pool_inv N p fl \<longleftrightarrow>
     0 < N \<and> N < 2 ^ 32 \<and> pool_initialized p \<and>
     length (next_links p) = N \<and> length (ownership p) = N \<and>
     distinct fl \<and> set fl = {i. i < N \<and> \<not> bit (ownership p ! i) 63} \<and>
     chain (next_links p) (fst (unpack_head (free_list_head p))) fl"

definition owner_token :: "dma_pool \<Rightarrow> nat \<Rightarrow> u64 option" where
  "owner_token p i = (if i < length (ownership p) \<and> bit (ownership p ! i) 63
     then Some (take_bit 63 (ownership p ! i)) else None)"

definition pool_ready :: "nat \<Rightarrow> dma_pool \<times> rtos_host \<Rightarrow> bool" where
  "pool_ready N s \<longleftrightarrow> (\<exists>fl. pool_inv N (fst s) fl) \<and> cache_flush_cb (snd s) \<noteq> 0"

definition zeroed :: "nat \<Rightarrow> nat \<Rightarrow> bytes \<Rightarrow> bytes \<Rightarrow> bool" where
  "zeroed a b bs bs' \<longleftrightarrow> length bs' = length bs \<and>
     (\<forall>i<length bs. bs' ! i = (if a \<le> i \<and> i < b then 0 else bs ! i))"

subsection \<open>Lemmas on the wipe\<close>

lemma zeroed_refl: "zeroed a a bs bs"
  by (auto simp: zeroed_def)

lemma zeroed_trans: "zeroed a b x y \<Longrightarrow> zeroed b c y z \<Longrightarrow> a \<le> b \<Longrightarrow> b \<le> c \<Longrightarrow> zeroed a c x z"
  by (auto simp: zeroed_def)

lemma zeroed_byte: "zeroed a (Suc a) bs (bs[a := 0])"
  by (auto simp: zeroed_def nth_list_update)

lemma zeroed_byte_then: "zeroed (Suc a) c (bs[a := 0]) z \<Longrightarrow> Suc a \<le> c \<Longrightarrow> zeroed a c bs z"
  by (rule zeroed_trans [OF zeroed_byte]) simp_all

lemma store_zeros: "zeroed a (a + n) bs (store_bytes a (replicate n 0) bs)"
proof (induction n arbitrary: a bs)
  case (Suc n)
  show ?case
    using zeroed_byte_then [OF Suc.IH] by simp
qed (simp add: zeroed_refl)

lemma le_bytes_zero: "le_bytes n (0 :: u64) = replicate n 0"
  by (simp add: le_bytes_def map_replicate_const)

lemma clear_prefix_zeroed:
  "offset \<le> len \<Longrightarrow> clear_prefix pointer start len offset bs = (bs', offset') \<Longrightarrow>
   offset \<le> offset' \<and> offset' \<le> len \<and> zeroed (start + offset) (start + offset') bs bs'"
proof (induction pointer start len offset bs arbitrary: bs' offset' rule: clear_prefix.induct)
  case (1 pointer start len offset bs)
  show ?case
  proof (cases "offset < len \<and> (pointer + of_nat offset) AND 7 \<noteq> 0")
    case True
    then have "offset + 1 \<le> offset' \<and> offset' \<le> len \<and>
        zeroed (start + (offset + 1)) (start + offset') (bs[start + offset := 0]) bs'"
      using 1 by (subst (asm) clear_prefix.simps) auto
    then show ?thesis
      by (auto intro: zeroed_byte_then)
  next
    case False
    then show ?thesis using 1 by (subst (asm) clear_prefix.simps) (auto simp: zeroed_refl)
  qed
qed

lemma clear_words_zeroed:
  "offset \<le> len \<Longrightarrow> clear_words start len offset bs = (bs', offset') \<Longrightarrow>
   offset \<le> offset' \<and> offset' \<le> len \<and> zeroed (start + offset) (start + offset') bs bs'"
proof (induction start len offset bs arbitrary: bs' offset' rule: clear_words.induct)
  case (1 start len offset bs)
  show ?case
  proof (cases "offset + 8 \<le> len")
    case True
    let ?bs = "store_bytes (start + offset) (le_bytes 8 (0 :: u64)) bs"
    have "clear_words start len (offset + 8) ?bs = (bs', offset')"
      using 1(3) True unfolding clear_words.simps [of start len offset bs] by simp
    then have IH: "offset + 8 \<le> offset' \<and> offset' \<le> len \<and>
        zeroed (start + (offset + 8)) (start + offset') ?bs bs'"
      by (rule 1(1) [OF True True])
    have "zeroed (start + offset) (start + (offset + 8)) bs ?bs"
      unfolding le_bytes_zero using store_zeros [of "start + offset" 8 bs] by (simp only: add.assoc)
    from zeroed_trans [OF this] show ?thesis using IH by simp
  next
    case False
    then show ?thesis
      using 1(2,3) unfolding clear_words.simps [of start len offset bs] by (simp add: zeroed_refl)
  qed
qed

lemma clear_tail_zeroed:
  "offset \<le> len \<Longrightarrow> clear_tail start len offset bs = (bs', offset') \<Longrightarrow>
   offset' = len \<and> zeroed (start + offset) (start + len) bs bs'"
proof (induction start len offset bs arbitrary: bs' offset' rule: clear_tail.induct)
  case (1 start len offset bs)
  show ?case
  proof (cases "offset < len")
    case True
    then have "offset' = len \<and> zeroed (start + (offset + 1)) (start + len) (bs[start + offset := 0]) bs'"
      using 1 by (subst (asm) clear_tail.simps) auto
    then show ?thesis
      using True by (auto intro: zeroed_byte_then)
  next
    case False
    then show ?thesis using 1 by (subst (asm) clear_tail.simps) (auto simp: zeroed_refl)
  qed
qed

lemma wipe_slot_zeroed: "zeroed start (start + len) bs (wipe_slot pointer start len bs)"
proof -
  obtain b1 o1 where 1: "clear_prefix pointer start len 0 bs = (b1, o1)" by fastforce
  obtain b2 o2 where 2: "clear_words start len o1 b1 = (b2, o2)" by fastforce
  obtain b3 o3 where 3: "clear_tail start len o2 b2 = (b3, o3)" by fastforce
  have z1: "o1 \<le> len" "zeroed start (start + o1) bs b1"
    using clear_prefix_zeroed [OF _ 1] by simp_all
  have z2: "o1 \<le> o2" "o2 \<le> len" "zeroed (start + o1) (start + o2) b1 b2"
    using clear_words_zeroed [OF z1(1) 2] by simp_all
  have z3: "zeroed (start + o2) (start + len) b2 b3"
    using clear_tail_zeroed [OF z2(2) 3] by simp
  have "zeroed start (start + o2) bs b2"
    using zeroed_trans [OF z1(2) z2(3)] z2(1) by simp
  from zeroed_trans [OF this z3] show ?thesis
    using z2 by (simp add: wipe_slot_def 1 2 3)
qed

subsection \<open>Lemmas on packed words\<close>

lemma unpack_pack [simp]: "unpack_head (pack_head i g) = (i, g)"
proof -
  have "(ucast (push_bit 32 (ucast g) OR ucast i :: usize) :: u32) = i"
    by (rule bit_word_eqI) (auto simp: bit_simps)
  moreover have "(ucast (drop_bit 32 (push_bit 32 (ucast g) OR ucast i :: usize)) :: u32) = g"
    by (rule bit_word_eqI) (auto simp: bit_simps dest: bit_imp_le_length)
  ultimately show ?thesis by (simp add: unpack_head_def pack_head_def)
qed

lemma u32_usize_u32 [simp]: "(ucast (ucast (x :: u32) :: usize) :: u32) = x"
  by (rule bit_word_eqI) (simp add: bit_simps)

lemma ucast_head: "(ucast v :: u32) = fst (unpack_head v)"
  by (simp add: unpack_head_def)

lemma generation_mask: "OWNERSHIP_GENERATION_MASK = mask 63"
  by (simp add: OWNERSHIP_GENERATION_MASK_def OWNERSHIP_ALLOCATED_BIT_def mask_eq_exp_minus_1)

lemma and_generation_mask: "w AND OWNERSHIP_GENERATION_MASK = take_bit 63 w"
  by (simp add: generation_mask take_bit_eq_mask)

lemma not_over_mask: "\<not> g > OWNERSHIP_GENERATION_MASK \<longleftrightarrow> take_bit 63 g = g"
proof -
  have "take_bit 63 g = g \<longleftrightarrow> unat (take_bit 63 g) = unat g" by (simp add: word_unat_eq_iff)
  also have "\<dots> \<longleftrightarrow> unat g < 2 ^ 63" by (simp only: unsigned_take_bit_eq take_bit_nat_eq_self_iff)
  finally show ?thesis
    by (auto simp: word_less_nat_alt generation_mask mask_eq_exp_minus_1 not_less less_eq_Suc_le)
qed

lemma and_allocated_bit: "w AND OWNERSHIP_ALLOCATED_BIT \<noteq> 0 \<longleftrightarrow> bit w 63"
  using and_exp_eq_0_iff_not_bit [of w 63] by (simp add: OWNERSHIP_ALLOCATED_BIT_def)

lemma bit_allocated: "bit (OWNERSHIP_ALLOCATED_BIT OR g) 63"
  unfolding OWNERSHIP_ALLOCATED_BIT_def by (simp only: bit_simps) simp

lemma take_bit_allocated: "take_bit 63 (OWNERSHIP_ALLOCATED_BIT OR g) = take_bit 63 g"
  by (rule bit_word_eqI) (auto simp: OWNERSHIP_ALLOCATED_BIT_def bit_take_bit_iff bit_or_iff bit_push_bit_iff
      simp del: push_bit_of_1)

lemma take_bit_allocated_bit [simp]: "take_bit 63 OWNERSHIP_ALLOCATED_BIT = 0"
  using take_bit_allocated [of 0] by simp

lemma owned_word_iff:
  assumes "take_bit 63 g = g"
  shows "w = OWNERSHIP_ALLOCATED_BIT OR g \<longleftrightarrow> bit w 63 \<and> take_bit 63 w = g"
proof
  assume "bit w 63 \<and> take_bit 63 w = g"
  then have "bit w n = bit (OWNERSHIP_ALLOCATED_BIT OR g) n" if "n < 64" for n
    using that by (cases "n = 63") (auto simp: OWNERSHIP_ALLOCATED_BIT_def bit_take_bit_iff bit_or_iff
      bit_push_bit_iff simp del: push_bit_of_1)
  then show "w = OWNERSHIP_ALLOCATED_BIT OR g" by (intro bit_word_eqI) simp
next
  assume w: "w = OWNERSHIP_ALLOCATED_BIT OR g"
  show "bit w 63 \<and> take_bit 63 w = g"
    unfolding w take_bit_allocated assms using bit_allocated by simp
qed

subsection \<open>Lemmas on allocation\<close>

lemma allocate_loop_empty:
  "fst (unpack_head obs) = FREE_LIST_EMPTY \<Longrightarrow>
   allocate_loop debug T sched obs (p, h) = Ret (Err OutOfMemory) (p, h)"
  by (subst allocate_loop.simps) (simp add: split_beta)

lemma allocate_loop_current:
  assumes "unpack_head (free_list_head p) = (index, generation)" "index \<noteq> FREE_LIST_EMPTY"
    and "False \<in> set sched"
  shows "allocate_loop debug T sched (free_list_head p) (p, h) =
    claim_slot debug T (unat index)
      (p\<lparr>free_list_head := pack_head (ucast (next_links p ! unat index)) (generation + 1)\<rparr>, h)"
  using assms(3)
proof (induction sched)
  case (Cons spurious sched)
  then show ?case
    using assms(1,2) by (subst allocate_loop.simps) auto
qed simp

definition allocated :: "nat \<Rightarrow> dma_pool \<Rightarrow> dma_pool" where
  "allocated i p = p\<lparr>
     free_list_head := pack_head (ucast (next_links p ! i)) (snd (unpack_head (free_list_head p)) + 1),
     ownership := (ownership p)[i :=
       OWNERSHIP_ALLOCATED_BIT OR take_bit 63 (take_bit 63 (ownership p ! i) + 1)]\<rparr>"

lemma dma_allocate_next:
  assumes "pool_inv N p (i # fl)" "False \<in> set sched"
  shows "dma_allocate debug T sched (p, h) =
    Ret (Ok (i, take_bit 63 (take_bit 63 (ownership p ! i) + 1), dma_memory p + of_nat i * dma_size T))
      (allocated i p, h)"
proof -
  obtain index generation where u: "unpack_head (free_list_head p) = (index, generation)" by fastforce
  have i: "unat index = i" "index \<noteq> FREE_LIST_EMPTY" "\<not> bit (ownership p ! i) 63" "pool_initialized p"
    using assms(1) u by (auto simp: pool_inv_def)
  show ?thesis
    using allocate_loop_current [OF u i(2) assms(2), of debug T h] i u
    by (simp add: dma_allocate_def claim_slot_def and_allocated_bit and_generation_mask Let_def
        allocated_def)
qed

lemma dma_allocate_empty:
  assumes "pool_inv N p []"
  shows "dma_allocate debug T sched (p, h) = Ret (Err OutOfMemory) (p, h)"
  using assms allocate_loop_empty [of "free_list_head p"]
  by (simp add: dma_allocate_def pool_inv_def)

lemma chain_update: "i \<notin> set is \<Longrightarrow> chain (links[i := v]) index is = chain links index is"
  by (induction "is" arbitrary: index) auto

lemma pool_inv_allocated:
  assumes "pool_inv N p (i # fl)"
  shows "pool_inv N (allocated i p) fl"
proof -
  have d: "i \<notin> set fl" "i < N" "length (ownership p) = N"
    using assms by (auto simp: pool_inv_def)
  have "{j. j < N \<and> \<not> bit (ownership (allocated i p) ! j) 63} = set (i # fl) - {i}"
    using assms d(2,3) by (auto simp: pool_inv_def allocated_def nth_list_update bit_allocated)
  moreover have "set (i # fl) - {i} = set fl" using d by auto
  ultimately show ?thesis
    using assms by (auto simp: pool_inv_def allocated_def)
qed

lemma owner_allocated:
  assumes "pool_inv N p (i # fl)"
  shows "owner_token (allocated i p) =
    (owner_token p)(i \<mapsto> take_bit 63 (take_bit 63 (ownership p ! i) + 1))"
    and "owner_token p i = None"
proof -
  have i: "i < length (ownership p)" "\<not> bit (ownership p ! i) 63"
    using assms by (auto simp: pool_inv_def)
  show "owner_token p i = None" using i by (simp add: owner_token_def)
  show "owner_token (allocated i p) =
      (owner_token p)(i \<mapsto> take_bit 63 (take_bit 63 (ownership p ! i) + 1))"
    using i by (auto simp: owner_token_def allocated_def fun_eq_iff bit_allocated take_bit_allocated
        nth_list_update)
qed

subsection \<open>Lemmas on freeing\<close>

lemma push_free_loop_current:
  assumes "False \<in> set sched" "observed = free_list_head p"
  shows "push_free_loop i sched observed (p, h) =
    Ret (Ok ()) (p\<lparr>next_links := (next_links p)[i := ucast (fst (unpack_head observed))],
      free_list_head := pack_head (of_nat i) (snd (unpack_head observed) + 1)\<rparr>, h)"
  using assms
proof (induction sched arbitrary: p)
  case (Cons spurious sched)
  show ?case
  proof (cases spurious)
    case True
    let ?p = "p\<lparr>next_links := (next_links p)[i := ucast (fst (unpack_head observed))]\<rparr>"
    have "push_free_loop i (spurious # sched) observed (p, h) = push_free_loop i sched observed (?p, h)"
      using True Cons.prems by (subst push_free_loop.simps) (simp add: split_beta ucast_head)
    moreover have "push_free_loop i sched observed (?p, h) = Ret (Ok ())
        (?p\<lparr>next_links := (next_links ?p)[i := ucast (fst (unpack_head observed))],
          free_list_head := pack_head (of_nat i) (snd (unpack_head observed) + 1)\<rparr>, h)"
      using Cons True by (intro Cons.IH) auto
    ultimately show ?thesis by simp
  next
    case False
    then show ?thesis
      using Cons.prems by (subst push_free_loop.simps) (simp add: split_beta ucast_head)
  qed
qed simp

definition freed :: "dma_layout \<Rightarrow> nat \<Rightarrow> u64 \<Rightarrow> dma_pool \<Rightarrow> dma_pool" where
  "freed T i g p = p\<lparr>ownership := (ownership p)[i := g],
     storage := wipe_slot (dma_memory p + of_nat i * dma_size T) (i * unat (dma_size T))
       (unat (dma_size T)) (storage p),
     next_links := (next_links p)[i := ucast (fst (unpack_head (free_list_head p)))],
     free_list_head := pack_head (of_nat i) (snd (unpack_head (free_list_head p)) + 1)\<rparr>"

lemma dma_free_owner:
  assumes "pool_inv N p fl" "owner_token p i = Some g" "cache_flush_cb h \<noteq> 0" "False \<in> set sched"
  shows "dma_free N T sched i g (p, h) = Ret (Ok ()) (freed T i g p,
    log_call (cache_flush_cb h) (CacheFlush (dma_memory p + of_nat i * dma_size T) (dma_size T)) h)"
proof -
  have i: "i < N" "pool_initialized p" "bit (ownership p ! i) 63" "take_bit 63 (ownership p ! i) = g"
    using assms(1,2) by (auto simp: owner_token_def pool_inv_def split: if_splits)
  have g: "take_bit 63 g = g" using i(4) by auto
  then have "ownership p ! i = OWNERSHIP_ALLOCATED_BIT OR g" using i owned_word_iff by blast
  then show ?thesis
    using assms(3,4) i(1,2) g not_over_mask [of g]
    by (simp add: dma_free_def Let_def host_simps freed_def push_free_loop_current)
qed

lemma dma_free_refused:
  assumes "pool_initialized p" "length (ownership p) = N" "owner_token p i \<noteq> Some g"
  shows "dma_free N T sched i g (p, h) =
    Ret (Err (if i < N then DoubleFree else AddressOutOfBounds)) (p, h)"
proof (cases "i < N \<and> take_bit 63 g = g")
  case True
  then have "ownership p ! i \<noteq> OWNERSHIP_ALLOCATED_BIT OR g"
    using assms(2,3) owned_word_iff [of g "ownership p ! i"] by (auto simp: owner_token_def)
  then show ?thesis using True assms(1) by (simp add: dma_free_def)
next
  case False
  then show ?thesis using assms(1) not_over_mask [of g] by (auto simp: dma_free_def)
qed

lemma pool_inv_freed:
  assumes "pool_inv N p fl" "owner_token p i = Some g"
  shows "pool_inv N (freed T i g p) (i # fl)"
proof -
  have i: "i < N" "bit (ownership p ! i) 63" "take_bit 63 (ownership p ! i) = g" "i \<notin> set fl" "N < 2 ^ 32"
    using assms by (auto simp: owner_token_def pool_inv_def split: if_splits)
  have g: "\<not> bit g 63" using i(3) by (auto simp: bit_take_bit_iff)
  have "{j. j < N \<and> \<not> bit (ownership (freed T i g p) ! j) 63} = insert i (set fl)"
    using assms(1) i g by (auto simp: pool_inv_def freed_def nth_list_update)
  moreover have "unat (of_nat i :: u32) = i" using i(1,5) by (simp add: unat_of_nat)
  moreover have "(of_nat i :: u32) \<noteq> FREE_LIST_EMPTY"
  proof
    assume "(of_nat i :: u32) = FREE_LIST_EMPTY"
    then have "unat (of_nat i :: u32) = 2 ^ 32 - 1" by (simp add: FREE_LIST_EMPTY_def unsigned_minus_1_eq_mask mask_eq_exp_minus_1)
    then show False using \<open>unat (of_nat i :: u32) = i\<close> i(1,5) by linarith
  qed
  moreover have "chain (next_links (freed T i g p)) (fst (unpack_head (free_list_head p))) fl"
    using assms(1) i by (simp add: pool_inv_def freed_def chain_update)
  ultimately show ?thesis
    using assms(1) i(1,4) by (simp add: pool_inv_def) (simp add: freed_def)
qed

lemma owner_freed:
  assumes "owner_token p i = Some g"
  shows "owner_token (freed T i g p) = (owner_token p)(i := None)"
proof -
  have "i < length (ownership p)" "take_bit 63 (ownership p ! i) = g"
    using assms by (auto simp: owner_token_def split: if_splits)
  moreover from this have "\<not> bit g 63" by (auto simp: bit_take_bit_iff)
  ultimately show ?thesis by (auto simp: owner_token_def freed_def fun_eq_iff nth_list_update)
qed

definition fair_schedule :: "bool list \<Rightarrow> bool" where
  "fair_schedule sched \<longleftrightarrow> False \<in> set sched"

interpretation dma: slot_allocator "dma_allocate debug T" "dma_free N T" fair_schedule "pool_ready N"
    "\<lambda>s. owner_token (fst s)" N OutOfMemory DoubleFree AddressOutOfBounds for debug T N
proof (unfold_locales, goal_cases)
  case (1 s c i)
  then obtain fl where inv: "pool_inv N (fst s) fl" by (auto simp: pool_ready_def)
  then have "i \<in> set fl" using 1 by (auto simp: pool_inv_def owner_token_def split: if_splits)
  then obtain j fl' where fl: "fl = j # fl'" by (cases fl) auto
  then show ?case
    using inv 1 dma_allocate_next [of N "fst s" j fl' c debug T "snd s"]
      pool_inv_allocated [of N "fst s" j fl'] owner_allocated [of N "fst s" j fl']
    by (auto simp: fair_schedule_def pool_ready_def pool_inv_def [of N "fst s"])
next
  case (2 s c)
  then obtain fl where inv: "pool_inv N (fst s) fl" by (auto simp: pool_ready_def)
  then have "fl = []" using 2 by (cases fl) (auto simp: pool_inv_def owner_token_def split: if_splits)
  then show ?case using dma_allocate_empty [of N "fst s" debug T c "snd s"] inv by simp
next
  case (3 s c i g)
  then obtain fl where inv: "pool_inv N (fst s) fl" by (auto simp: pool_ready_def)
  then show ?case
    using 3 dma_free_owner [OF inv 3(3), of "snd s" c T] pool_inv_freed [OF inv 3(3), of T]
      owner_freed [OF 3(3), of T]
    by (auto simp: fair_schedule_def pool_ready_def)
next
  case (4 s i g c)
  then show ?case
    using dma_free_refused [of "fst s" N i g T c "snd s"] by (auto simp: pool_ready_def pool_inv_def)
qed

subsection \<open>A freshly initialised pool\<close>

definition fresh_links :: "nat \<Rightarrow> usize list" where
  "fresh_links N = map (\<lambda>index. if index + 1 < N then of_nat (index + 1) else ucast FREE_LIST_EMPTY) [0..<N]"

lemma of_nat_index:
  assumes "i < 2 ^ 32 - 1"
  shows "unat (of_nat i :: u32) = i" "(of_nat i :: u32) \<noteq> FREE_LIST_EMPTY"
    "(ucast (of_nat i :: usize) :: u32) = of_nat i"
proof -
  show u: "unat (of_nat i :: u32) = i" using assms by (simp add: unat_of_nat)
  have "unat FREE_LIST_EMPTY = 2 ^ 32 - 1"
    by (simp add: FREE_LIST_EMPTY_def unsigned_minus_1_eq_mask mask_eq_exp_minus_1)
  then show "(of_nat i :: u32) \<noteq> FREE_LIST_EMPTY" using u assms by auto
  show "(ucast (of_nat i :: usize) :: u32) = of_nat i"
    by (rule bit_word_eqI) (simp add: bit_simps)
qed

lemma chain_fresh:
  assumes "k \<le> N" "N < 2 ^ 32"
  shows "chain (fresh_links N) (if k < N then of_nat k else FREE_LIST_EMPTY) [k..<N]"
  using assms
proof (induction "N - k" arbitrary: k)
  case (Suc d)
  then have k: "k < N" "k < 2 ^ 32 - 1" by auto
  have "chain (fresh_links N) (if Suc k < N then of_nat (Suc k) else FREE_LIST_EMPTY) [Suc k..<N]"
    using Suc k by (intro Suc.hyps(1)) auto
  moreover have "(ucast (fresh_links N ! k) :: u32) = (if Suc k < N then of_nat (Suc k) else FREE_LIST_EMPTY)"
    using k Suc.prems of_nat_index(3) [of "Suc k"]
    by (auto simp: fresh_links_def simp del: of_nat_Suc)
  ultimately show ?case
    using k of_nat_index [of k] by (simp add: upt_conv_Cons fresh_links_def)
qed simp

lemma dma_init_Ok:
  assumes "dma_init N W T base_ptr size_in_bytes region p = (Ok (), p')"
  shows "pool_initialized p'" "next_links p' = fresh_links N" "ownership p' = replicate N 0"
    "free_list_head p' = pack_head 0 0" "dma_memory p' = base_ptr" "storage p' = region"
    "0 < dma_size T" "unat base_ptr + N * unat (dma_size T) < 2 ^ 64 \<or> 2 ^ 64 \<le> N"
proof -
  show "pool_initialized p'" "next_links p' = fresh_links N" "ownership p' = replicate N 0"
    "free_list_head p' = pack_head 0 0" "dma_memory p' = base_ptr" "storage p' = region"
    "0 < dma_size T"
    using assms by (auto simp: dma_init_def fresh_links_def word_gt_0 split: if_splits option.splits)
  obtain rs where rs: "checked_mul (of_nat N) (dma_size T) = Some rs" "checked_add base_ptr rs \<noteq> None"
    using assms by (auto simp: dma_init_def split: if_splits option.splits)
  show "unat base_ptr + N * unat (dma_size T) < 2 ^ 64 \<or> 2 ^ 64 \<le> N"
  proof (cases "N < 2 ^ 64")
    case True
    then have "unat (of_nat N :: usize) = N" by (simp add: unat_of_nat)
    then have "unat rs = N * unat (dma_size T)"
      using rs(1) by (auto simp: checked_mul_Some unat_word_ariths)
    then show ?thesis using rs(2) by (auto simp: checked_add_def split: if_splits)
  qed simp
qed

lemma pool_inv_init:
  assumes "0 < N" "N < 2 ^ 32" "dma_init N W T base_ptr size_in_bytes region p = (Ok (), p')"
  shows "pool_inv N p' [0..<N]" "owner_token p' = (\<lambda>_. None)"
  using assms(1,2) dma_init_Ok [OF assms(3)] chain_fresh [of 0 N]
  by (auto simp: pool_inv_def owner_token_def fun_eq_iff fresh_links_def)

subsection \<open>Token generations\<close>

definition slot_generation :: "dma_pool \<Rightarrow> nat \<Rightarrow> nat" where
  "slot_generation p i = unat (ownership p ! i) mod 2 ^ 63"

fun allocs_of :: "nat \<Rightarrow> 'e pool_out list \<Rightarrow> nat" where
  "allocs_of i [] = 0"
| "allocs_of i (Allocated (Inr (j, _, _)) # outs) = (if i = j then 1 else 0) + allocs_of i outs"
| "allocs_of i (_ # outs) = allocs_of i outs"

lemma unat_take_bit_63: "unat (take_bit 63 w) = unat w mod 2 ^ 63" for w :: u64
  unfolding unsigned_take_bit_eq by (rule take_bit_eq_mod)

lemma generation_allocated:
  assumes "pool_inv N p (i # fl)" "j < N"
  shows "slot_generation (allocated i p) j =
    (slot_generation p j + (if j = i then 1 else 0)) mod 2 ^ 63"
proof -
  have len: "length (ownership p) = N" using assms by (simp add: pool_inv_def)
  have nxt: "unat (OWNERSHIP_ALLOCATED_BIT OR take_bit 63 (take_bit 63 w + 1)) mod 2 ^ 63 =
      (unat w mod 2 ^ 63 + 1) mod 2 ^ 63" for w
  proof -
    have "unat (OWNERSHIP_ALLOCATED_BIT OR take_bit 63 (take_bit 63 w + 1)) mod 2 ^ 63 =
        unat (take_bit 63 (OWNERSHIP_ALLOCATED_BIT OR take_bit 63 (take_bit 63 w + 1)))"
      by (simp only: unat_take_bit_63)
    also have "\<dots> = unat (take_bit 63 w + 1) mod 2 ^ 63"
      by (simp only: take_bit_allocated take_bit_take_bit min.idem unat_take_bit_63)
    also have "unat (take_bit 63 w + 1) = unat w mod 2 ^ 63 + 1"
    proof -
      have "unat w mod 2 ^ 63 < 2 ^ 63" by simp
      then have "Suc (unat (take_bit 63 w)) < 2 ^ LENGTH(64)" unfolding unat_take_bit_63 by simp
      from unat_Suc [OF this] show ?thesis by (simp add: unat_take_bit_63)
    qed
    finally show ?thesis .
  qed
  show ?thesis
    using assms(2) nxt [of "ownership p ! i"] unfolding len [symmetric]
    by (simp add: slot_generation_def allocated_def nth_list_update)
qed

lemma generation_freed:
  assumes "owner_token p i = Some g" "j < length (ownership p)"
  shows "slot_generation (freed T i g p) j = slot_generation p j"
proof -
  have "take_bit 63 (ownership p ! i) = g"
    using assms(1) by (auto simp: owner_token_def split: if_splits)
  then have "unat g = unat (ownership p ! i) mod 2 ^ 63" using unat_take_bit_63 by metis
  then show ?thesis
    using assms(2) by (cases "i = j") (simp_all add: slot_generation_def freed_def)
qed

lemma allocate_generation:
  assumes "pool_ready N (p, h)" "fair_schedule c" "j < N"
    and "dma_allocate debug T c (p, h) = Ret r s'"
  shows "pool_ready N s' \<and>
    slot_generation (fst s') j = (slot_generation p j + allocs_of j [Allocated r]) mod 2 ^ 63"
proof -
  obtain fl where inv: "pool_inv N p fl" and cb: "cache_flush_cb h \<noteq> 0"
    using assms(1) by (auto simp: pool_ready_def)
  show ?thesis
  proof (cases fl)
    case Nil
    then show ?thesis
      using dma_allocate_empty [of N p debug T c h] inv assms by (auto simp: slot_generation_def)
  next
    case (Cons i fl')
    then show ?thesis
      using dma_allocate_next [of N p i fl' c debug T h] generation_allocated [of N p i fl' j]
        pool_inv_allocated [of N p i fl'] inv assms cb
      by (auto simp: pool_ready_def fair_schedule_def)
  qed
qed

lemma free_generation:
  assumes "pool_ready N (p, h)" "fair_schedule c" "j < N"
    and "dma_free N T c i g (p, h) = Ret r s'"
  shows "pool_ready N s' \<and> slot_generation (fst s') j = slot_generation p j"
proof -
  obtain fl where inv: "pool_inv N p fl" and cb: "cache_flush_cb h \<noteq> 0"
    using assms(1) by (auto simp: pool_ready_def)
  have len: "length (ownership p) = N" "pool_initialized p" using inv by (auto simp: pool_inv_def)
  show ?thesis
  proof (cases "owner_token p i = Some g")
    case True
    then show ?thesis
      using dma_free_owner [OF inv True cb, of c T] generation_freed [OF True, of j T]
        pool_inv_freed [OF inv True, of T] assms cb len
      by (auto simp: pool_ready_def fair_schedule_def)
  next
    case False
    then show ?thesis
      using dma_free_refused [OF len(2,1) False, of T c h] assms by auto
  qed
qed

lemma slot_generation_mod [simp]: "slot_generation p j mod 2 ^ 63 = slot_generation p j"
  by (simp add: slot_generation_def)

lemma allocs_of_Cons: "allocs_of j (x # outs) = allocs_of j [x] + allocs_of j outs"
  by (cases "(j, x # outs)" rule: allocs_of.cases) auto

lemma run_generation:
  assumes "pool_ready N (p, h)" "\<forall>x\<in>set ops. fair_schedule (op_schedule x)" "j < N"
    and "run_pool (dma_allocate debug T) (dma_free N T) ops (p, h) = Ret outs (p', h')"
  shows "slot_generation p' j = (slot_generation p j + allocs_of j outs) mod 2 ^ 63"
  using assms
proof (induction ops arbitrary: p h outs)
  case (Cons x ops)
  obtain o1 outs1 p1 h1 where x: "outs = o1 # outs1" "pool_ready N (p1, h1)"
      "slot_generation p1 j = (slot_generation p j + allocs_of j [o1]) mod 2 ^ 63"
      "run_pool (dma_allocate debug T) (dma_free N T) ops (p1, h1) = Ret outs1 (p', h')"
  proof (cases x)
    case (Alloc c)
    obtain r p1 h1 outs1 where r: "dma_allocate debug T c (p, h) = Ret r (p1, h1)"
        "run_pool (dma_allocate debug T) (dma_free N T) ops (p1, h1) = Ret outs1 (p', h')"
        "outs = Allocated r # outs1"
      using Cons.prems(4) by (auto simp: Alloc bindP_eq_Ret)
    have fc: "fair_schedule c" using Cons.prems(2) by (simp add: Alloc)
    from that [OF r(3) _ _ r(2)] show thesis
      using allocate_generation [OF Cons.prems(1) fc Cons.prems(3) r(1)] by simp
  next
    case (Free c i g)
    obtain r p1 h1 outs1 where r: "dma_free N T c i g (p, h) = Ret r (p1, h1)"
        "run_pool (dma_allocate debug T) (dma_free N T) ops (p1, h1) = Ret outs1 (p', h')"
        "outs = Freed r # outs1"
      using Cons.prems(4) by (auto simp: Free bindP_eq_Ret)
    have fc: "fair_schedule c" using Cons.prems(2) by (simp add: Free)
    from that [OF r(3) _ _ r(2)] show thesis
      using free_generation [OF Cons.prems(1) fc Cons.prems(3) r(1)] slot_generation_mod [of p j]
      by simp
  qed
  have "slot_generation p' j = (slot_generation p1 j + allocs_of j outs1) mod 2 ^ 63"
    using Cons.IH [OF x(2) _ Cons.prems(3) x(4)] Cons.prems(2) by simp
  then show ?case
    unfolding x(1,3) allocs_of_Cons [of j o1 outs1] by (simp only: mod_add_left_eq add.assoc)
qed (simp add: slot_generation_def)

lemma trace_unallocated:
  "trace_ok n e r b held ops outs held' \<Longrightarrow> held i = None \<Longrightarrow> allocs_of i outs = 0 \<Longrightarrow> held' i = None"
  by (induction n e r b held ops outs held' rule: trace_ok.induct) (auto split: if_splits)

subsection \<open>Properties\<close>

text \<open>C6: After an accepted init of a new pool of N slots, 0 < N < 2^32, on a host with a
  registered cache flush, any sequence of allocate and free calls whose compare-exchange loops get
  through returns normally and answers as the ownership specification
  says: allocate never hands out a slot that is already held, it reports OutOfMemory only when all
  N slots are held, and free succeeds exactly for the token of the current holder, answering
  DoubleFree for every other token and AddressOutOfBounds for an index past the pool.\<close>

theorem dma_pool_ownership:
  assumes "0 < N" "N < 2 ^ 32" "cache_flush_cb h \<noteq> 0" "\<forall>x\<in>set ops. fair_schedule (op_schedule x)"
    and "dma_init N W T base_ptr size_in_bytes region (dma_new N) = (Ok (), p)"
  shows "\<exists>outs s'. run_pool (dma_allocate debug T) (dma_free N T) ops (p, h) = Ret outs s' \<and>
    trace_ok N OutOfMemory DoubleFree AddressOutOfBounds (\<lambda>_. None) ops outs (owner_token (fst s'))"
proof -
  have "pool_ready N (p, h)"
    using pool_inv_init [OF assms(1,2,5)] assms(3) by (auto simp: pool_ready_def)
  from dma.run_trace [OF this assms(4), of debug T] show ?thesis
    using pool_inv_init(2) [OF assms(1,2,5)] by auto
qed

definition demo_layout :: dma_layout where
  "demo_layout = \<lparr>dma_size = 16, dma_align = 16\<rparr>"

definition demo_pool :: dma_pool where
  "demo_pool = snd (dma_init 2 1 demo_layout 8192 4096 (replicate 32 9) (dma_new 2))"

lemma demo_pool_init:
  "dma_init 2 1 demo_layout 8192 4096 (replicate 32 9) (dma_new 2) = (Ok (), demo_pool)"
proof -
  have "fst (dma_init 2 1 demo_layout 8192 4096 (replicate 32 9) (dma_new 2)) = Ok ()"
    by (simp add: dma_init_def demo_layout_def dma_new_def checked_mul_def checked_add_def
        is_multiple_of_def)
  then show ?thesis by (simp add: demo_pool_def prod_eq_iff)
qed

theorem dma_pool_ownership_witness:
  "\<exists>outs s'. run_pool (dma_allocate True demo_layout) (dma_free 2 demo_layout)
      [Alloc [True, False], Free [False] 0 1, Alloc [False]] (demo_pool, demo_host) = Ret outs s' \<and>
    trace_ok 2 OutOfMemory DoubleFree AddressOutOfBounds (\<lambda>_. None)
      [Alloc [True, False], Free [False] 0 1, Alloc [False]] outs (owner_token (fst s'))"
  using dma_pool_ownership [OF _ _ _ _ demo_pool_init, of demo_host
      "[Alloc [True, False], Free [False] 0 1, Alloc [False]]" True]
  by (simp add: fair_schedule_def demo_host_def)

text \<open>C28: A token that has been freed stays refused: after a successful free of a slot, whatever
  is allocated and freed next, the same token is answered DoubleFree and nothing changes, as long
  as that slot has been allocated fewer than 2 to the 63 times in between.\<close>

theorem stale_token_refused:
  assumes "pool_ready N s" "owner_token (fst s) i = Some g" "fair_schedule c"
    and "dma_free N T c i g s = Ret (Ok ()) s1"
    and "\<forall>x\<in>set ops. fair_schedule (op_schedule x)"
    and "run_pool (dma_allocate debug T) (dma_free N T) ops s1 = Ret outs s2"
    and "allocs_of i outs < 2 ^ 63"
  shows "dma_free N T c' i g s2 = Ret (Err DoubleFree) s2"
proof -
  obtain p h p1 h1 p2 h2 where s: "s = (p, h)" "s1 = (p1, h1)" "s2 = (p2, h2)" by (metis surj_pair)
  have i: "i < N" "take_bit 63 (ownership p ! i) = g"
    using assms(1,2) s by (auto simp: pool_ready_def pool_inv_def owner_token_def split: if_splits)
  have r1: "pool_ready N (p1, h1)" "slot_generation p1 i = slot_generation p i"
    using free_generation [OF assms(1) [unfolded s(1)] assms(3) i(1)] assms(4) s by auto
  have free1: "owner_token p1 i = None"
    using dma.free_owner [OF assms(1,3,2), of T] assms(4) s by auto
  obtain outs' s2' where "run_pool (dma_allocate debug T) (dma_free N T) ops (p1, h1) = Ret outs' s2'"
      "pool_ready N s2'"
      "trace_ok N OutOfMemory DoubleFree AddressOutOfBounds (owner_token p1) ops outs' (owner_token (fst s2'))"
    using dma.run_trace [OF r1(1) assms(5), of debug T] by auto
  then have t: "pool_ready N (p2, h2)"
      "trace_ok N OutOfMemory DoubleFree AddressOutOfBounds (owner_token p1) ops outs (owner_token p2)"
    using assms(6) s by auto
  have gen: "slot_generation p2 i = (slot_generation p i + allocs_of i outs) mod 2 ^ 63"
    using run_generation [OF r1(1) assms(5) i(1)] assms(6) s r1(2) by metis
  have "owner_token p2 i \<noteq> Some g"
  proof
    assume o: "owner_token p2 i = Some g"
    then have "take_bit 63 (ownership p2 ! i) = g" by (auto simp: owner_token_def split: if_splits)
    then have "slot_generation p2 i = slot_generation p i"
      using i(2) unat_take_bit_63 unfolding slot_generation_def by metis
    then have "allocs_of i outs = 0"
      using gen assms(7) mod_window_inj [of "allocs_of i outs" "2 ^ 63" 0 "slot_generation p i"] by simp
    from trace_unallocated [OF t(2) free1 this] o show False by simp
  qed
  then show ?thesis
    using dma.free_refused [OF t(1), of i g T c'] i(1) s by simp
qed

lemma demo_pool_alloc:
  "pool_inv 2 (allocated 0 demo_pool) [1]" "owner_token (allocated 0 demo_pool) 0 = Some 1"
  "pool_ready 2 (allocated 0 demo_pool, demo_host)"
proof -
  have inv: "pool_inv 2 demo_pool (0 # [1])"
    using pool_inv_init(1) [OF _ _ demo_pool_init] by (simp add: upt_rec)
  have "ownership demo_pool ! 0 = 0" using dma_init_Ok(3) [OF demo_pool_init] by simp
  then show "owner_token (allocated 0 demo_pool) 0 = Some 1"
    using owner_allocated(1) [OF inv] by simp
  show i: "pool_inv 2 (allocated 0 demo_pool) [1]" using pool_inv_allocated [OF inv] .
  show "pool_ready 2 (allocated 0 demo_pool, demo_host)"
    using i by (auto simp: pool_ready_def demo_host_def)
qed

theorem stale_token_refused_witness:
  "\<exists>s1 outs s2. dma_free 2 demo_layout [False] 0 1 (allocated 0 demo_pool, demo_host) = Ret (Ok ()) s1 \<and>
    run_pool (dma_allocate True demo_layout) (dma_free 2 demo_layout) [Alloc [False]] s1 = Ret outs s2 \<and>
    allocs_of 0 outs = 1 \<and> dma_free 2 demo_layout [False] 0 1 s2 = Ret (Err DoubleFree) s2"
proof -
  have fair: "fair_schedule [False]" by (simp add: fair_schedule_def)
  let ?p = "freed demo_layout 0 1 (allocated 0 demo_pool)"
  obtain h1 where f: "dma_free 2 demo_layout [False] 0 1 (allocated 0 demo_pool, demo_host) = Ret (Ok ()) (?p, h1)"
    using dma_free_owner [OF demo_pool_alloc(1,2), of demo_host "[False]"] by (simp add: demo_host_def)
  have inv: "pool_inv 2 ?p (0 # [1])" using pool_inv_freed [OF demo_pool_alloc(1,2)] .
  obtain outs s2 where r: "run_pool (dma_allocate True demo_layout) (dma_free 2 demo_layout)
      [Alloc [False]] (?p, h1) = Ret outs s2" "allocs_of 0 outs = 1"
    using dma_allocate_next [OF inv, of "[False]" True demo_layout h1] by simp
  have "dma_free 2 demo_layout [False] 0 1 s2 = Ret (Err DoubleFree) s2"
    using stale_token_refused [OF demo_pool_alloc(3) _ fair f _ r(1), of "[False]"] r(2) demo_pool_alloc(2) fair
    by simp
  with f r show ?thesis by blast
qed

text \<open>A successful free overwrites every byte of the slot with zero and no byte of another
  slot, whatever the alignment of the slot's address, and then flushes exactly the range of the
  slot before the slot is back on the free list.\<close>

theorem dma_free_wipes_slot:
  assumes "pool_ready N (p, h)" "owner_token p i = Some g" "fair_schedule c"
    and "length (storage p) = N * unat (dma_size T)"
  shows "\<exists>p' h'. dma_free N T c i g (p, h) = Ret (Ok ()) (p', h') \<and>
    take (unat (dma_size T)) (drop (i * unat (dma_size T)) (storage p')) = zeros (unat (dma_size T)) \<and>
    zeroed (i * unat (dma_size T)) (Suc i * unat (dma_size T)) (storage p) (storage p') \<and>
    host_calls h' = host_calls h @
      [(cache_flush_cb h, CacheFlush (dma_memory p + of_nat i * dma_size T) (dma_size T))]"
proof -
  obtain fl where inv: "pool_inv N p fl" and cb: "cache_flush_cb h \<noteq> 0"
    using assms(1) by (auto simp: pool_ready_def)
  let ?n = "unat (dma_size T)"
  let ?w = "wipe_slot (dma_memory p + of_nat i * dma_size T) (i * ?n) ?n (storage p)"
  have z: "zeroed (i * ?n) (i * ?n + ?n) (storage p) ?w" by (rule wipe_slot_zeroed)
  have "i < N" using assms(2) inv by (auto simp: owner_token_def pool_inv_def split: if_splits)
  then have "Suc i * ?n \<le> N * ?n" by (intro mult_le_mono1) simp
  then have "i * ?n + ?n \<le> length (storage p)" using assms(4) by simp
  then have "take ?n (drop (i * ?n) ?w) = zeros ?n"
    using z by (auto simp: zeroed_def zeros_def list_eq_iff_nth_eq)
  then show ?thesis
    using dma_free_owner [OF inv assms(2) cb, of c T] assms(3) z
    by (simp add: fair_schedule_def freed_def add.commute)
qed

theorem dma_free_wipes_slot_witness:
  "\<exists>p' h'. dma_free 2 demo_layout [False] 0 1 (allocated 0 demo_pool, demo_host) = Ret (Ok ()) (p', h') \<and>
    take 16 (storage p') = zeros 16"
proof -
  have st: "storage (allocated 0 demo_pool) = replicate 32 9"
    using dma_init_Ok(6) [OF demo_pool_init] by (simp add: allocated_def)
  have sz: "unat (dma_size demo_layout) = 16" by (simp add: demo_layout_def)
  show ?thesis
    using dma_free_wipes_slot [OF demo_pool_alloc(3,2), of "[False]" demo_layout]
    by (auto simp: fair_schedule_def st sz)
qed

end
