(* ===== verification/One_Shot_Init.thy ===== *)
theory One_Shot_Init
  imports Spsc_Queue Dma_Pool
begin

text \<open>
  The initialisation gates under concurrent callers.  The init functions of the queues and of the
  DMA pool are documented as one-shot and guard their bodies with two atomic flags.  The steps of
  a caller whose arguments are valid are its atomic accesses to these flags, in program order, and
  the body between them.  The queue of spsc_queue.rs loads \<open>is_initialized\<close> a second time once it
  has won \<open>is_initializing\<close>; the pool of static_dma_pool.rs does not.
\<close>

datatype init_pc =
    InitStart
  | SawUninitialized
  | WonInitializing
  | RunBody
  | PublishReady
  | ReleaseGate
  | InitAccepted
  | InitRefused

record init_gate =
  gate_initialized :: bool
  gate_initializing :: bool
  callers :: "nat \<Rightarrow> init_pc"
  bodies_run :: "nat list"

definition gate_new :: init_gate where
  "gate_new = \<lparr>gate_initialized = False, gate_initializing = False, callers = (\<lambda>_. InitStart),
     bodies_run = []\<rparr>"

definition caller_to :: "nat \<Rightarrow> init_pc \<Rightarrow> init_gate \<Rightarrow> init_gate" where
  "caller_to i pc g = g\<lparr>callers := (callers g)(i := pc)\<rparr>"

inductive spsc_init_step :: "init_gate \<Rightarrow> init_gate \<Rightarrow> bool" where
  check: "callers g i = InitStart \<Longrightarrow>
    spsc_init_step g (caller_to i (if gate_initialized g then InitRefused else SawUninitialized) g)"
| lost: "callers g i = SawUninitialized \<Longrightarrow> gate_initializing g \<Longrightarrow>
    spsc_init_step g (caller_to i InitRefused g)"
| won: "callers g i = SawUninitialized \<Longrightarrow> \<not> gate_initializing g \<Longrightarrow>
    spsc_init_step g (caller_to i WonInitializing (g\<lparr>gate_initializing := True\<rparr>))"
| recheck_late: "callers g i = WonInitializing \<Longrightarrow> gate_initialized g \<Longrightarrow>
    spsc_init_step g (caller_to i InitRefused (g\<lparr>gate_initializing := False\<rparr>))"
| recheck_first: "callers g i = WonInitializing \<Longrightarrow> \<not> gate_initialized g \<Longrightarrow>
    spsc_init_step g (caller_to i RunBody g)"
| body: "callers g i = RunBody \<Longrightarrow>
    spsc_init_step g (caller_to i PublishReady (g\<lparr>bodies_run := bodies_run g @ [i]\<rparr>))"
| publish: "callers g i = PublishReady \<Longrightarrow>
    spsc_init_step g (caller_to i ReleaseGate (g\<lparr>gate_initialized := True\<rparr>))"
| release: "callers g i = ReleaseGate \<Longrightarrow>
    spsc_init_step g (caller_to i InitAccepted (g\<lparr>gate_initializing := False\<rparr>))"

inductive dma_init_step :: "init_gate \<Rightarrow> init_gate \<Rightarrow> bool" where
  check: "callers g i = InitStart \<Longrightarrow>
    dma_init_step g (caller_to i (if gate_initialized g then InitRefused else SawUninitialized) g)"
| lost: "callers g i = SawUninitialized \<Longrightarrow> gate_initializing g \<Longrightarrow>
    dma_init_step g (caller_to i InitRefused g)"
| won: "callers g i = SawUninitialized \<Longrightarrow> \<not> gate_initializing g \<Longrightarrow>
    dma_init_step g (caller_to i RunBody (g\<lparr>gate_initializing := True\<rparr>))"
| body: "callers g i = RunBody \<Longrightarrow>
    dma_init_step g (caller_to i PublishReady (g\<lparr>bodies_run := bodies_run g @ [i]\<rparr>))"
| publish: "callers g i = PublishReady \<Longrightarrow>
    dma_init_step g (caller_to i ReleaseGate (g\<lparr>gate_initialized := True\<rparr>))"
| release: "callers g i = ReleaseGate \<Longrightarrow>
    dma_init_step g (caller_to i InitAccepted (g\<lparr>gate_initializing := False\<rparr>))"

fun in_gate :: "init_pc \<Rightarrow> bool" where
  "in_gate WonInitializing = True"
| "in_gate RunBody = True"
| "in_gate PublishReady = True"
| "in_gate ReleaseGate = True"
| "in_gate _ = False"

text \<open>
  The invariant names the caller \<open>w\<close> inside the gate.  The body has run exactly once from the
  moment the caller inside reaches its publishing store, and never before.
\<close>

fun caller_ok :: "bool \<Rightarrow> nat list \<Rightarrow> nat \<Rightarrow> init_pc \<Rightarrow> bool" where
  "caller_ok ready bodies i RunBody \<longleftrightarrow> \<not> ready \<and> bodies = []"
| "caller_ok ready bodies i PublishReady \<longleftrightarrow> \<not> ready \<and> bodies = [i]"
| "caller_ok ready bodies i ReleaseGate \<longleftrightarrow> ready \<and> bodies = [i]"
| "caller_ok ready bodies i InitAccepted \<longleftrightarrow> ready \<and> bodies = [i]"
| "caller_ok ready bodies i _ \<longleftrightarrow> True"

definition gate_inv :: "nat option \<Rightarrow> init_gate \<Rightarrow> bool" where
  "gate_inv w g \<longleftrightarrow>
     gate_initializing g = (w \<noteq> None) \<and>
     (\<forall>i. in_gate (callers g i) \<longrightarrow> w = Some i) \<and>
     (\<forall>i. caller_ok (gate_initialized g) (bodies_run g) i (callers g i)) \<and>
     (if gate_initialized g then length (bodies_run g) = 1
      else bodies_run g = [] \<or>
        (case w of None \<Rightarrow> False | Some i \<Rightarrow> callers g i = PublishReady \<and> bodies_run g = [i]))"

lemma gate_inv_new: "gate_inv None gate_new"
  by (simp add: gate_inv_def gate_new_def)

lemma gate_inv_length: "gate_inv w g \<Longrightarrow> length (bodies_run g) \<le> 1"
  by (auto simp: gate_inv_def split: if_splits option.splits)

lemma caller_ok_outside: "\<not> in_gate pc \<Longrightarrow> pc \<noteq> InitAccepted \<Longrightarrow> caller_ok ready bodies i pc"
  by (cases pc) simp_all

lemma caller_ok_not_accepted: "caller_ok False bodies i pc \<Longrightarrow> pc \<noteq> InitAccepted"
  by (cases pc) simp_all

lemma gate_not_accepted:
  assumes "gate_inv w g" "\<not> gate_initialized g"
  shows "callers g j \<noteq> InitAccepted"
proof -
  have "caller_ok False (bodies_run g) j (callers g j)" using assms by (simp add: gate_inv_def)
  then show ?thesis by (rule caller_ok_not_accepted)
qed

lemmas gate_defs = gate_inv_def caller_to_def

lemma gate_inv_step:
  assumes "spsc_init_step g g'" "gate_inv w g"
  shows "\<exists>w'. gate_inv w' g'"
  using assms
proof (induction rule: spsc_init_step.induct)
  case (check g i)
  then have "gate_inv w (caller_to i (if gate_initialized g then InitRefused else SawUninitialized) g)"
    by (auto simp: gate_defs split: option.splits)
  then show ?case ..
next
  case (lost g i)
  then have "gate_inv w (caller_to i InitRefused g)" by (auto simp: gate_defs split: option.splits)
  then show ?case ..
next
  case (won g i)
  then have "gate_inv (Some i) (caller_to i WonInitializing (g\<lparr>gate_initializing := True\<rparr>))"
    by (auto simp: gate_defs split: option.splits)
  then show ?case ..
next
  case (recheck_late g i)
  have "w = Some i" using recheck_late by (simp add: gate_inv_def)
  then have "gate_inv None (caller_to i InitRefused (g\<lparr>gate_initializing := False\<rparr>))"
    using recheck_late by (auto simp: gate_defs split: option.splits)
  then show ?case ..
next
  case (recheck_first g i)
  have "w = Some i" using recheck_first by (simp add: gate_inv_def)
  then have "gate_inv w (caller_to i RunBody g)"
    using recheck_first by (auto simp: gate_defs split: option.splits)
  then show ?case ..
next
  case (body g i)
  have w: "w = Some i" "\<not> gate_initialized g" "bodies_run g = []"
    using body by (auto simp: gate_inv_def split: option.splits dest: spec [of _ i])
  have "caller_ok False [i] j (callers g j)" if "j \<noteq> i" for j
  proof (rule caller_ok_outside)
    show "\<not> in_gate (callers g j)" using body w that by (auto simp: gate_inv_def)
    show "callers g j \<noteq> InitAccepted" using body w(2) by (intro gate_not_accepted)
  qed
  then have "gate_inv w (caller_to i PublishReady (g\<lparr>bodies_run := bodies_run g @ [i]\<rparr>))"
    using body w by (auto simp: gate_defs split: option.splits)
  then show ?case ..
next
  case (publish g i)
  have w: "w = Some i" "\<not> gate_initialized g" "bodies_run g = [i]"
    using publish by (auto simp: gate_inv_def split: option.splits dest: spec [of _ i])
  have "caller_ok True [i] j (callers g j)" if "j \<noteq> i" for j
  proof (rule caller_ok_outside)
    show "\<not> in_gate (callers g j)" using publish w that by (auto simp: gate_inv_def)
    show "callers g j \<noteq> InitAccepted" using publish w(2) by (intro gate_not_accepted)
  qed
  then have "gate_inv w (caller_to i ReleaseGate (g\<lparr>gate_initialized := True\<rparr>))"
    using publish w by (auto simp: gate_defs split: option.splits)
  then show ?case ..
next
  case (release g i)
  have w: "w = Some i" "gate_initialized g" "bodies_run g = [i]"
    using release by (auto simp: gate_inv_def split: option.splits dest: spec [of _ i])
  then have "gate_inv None (caller_to i InitAccepted (g\<lparr>gate_initializing := False\<rparr>))"
    using release by (auto simp: gate_defs split: option.splits)
  then show ?case ..
qed

lemma gate_inv_steps: "spsc_init_step\<^sup>*\<^sup>* g g' \<Longrightarrow> gate_inv w g \<Longrightarrow> \<exists>w'. gate_inv w' g'"
  by (induction rule: rtranclp_induct) (blast intro: gate_inv_step)+

subsection \<open>Properties\<close>

text \<open>Whatever number of callers run init of one queue at the same time, its body runs at
  most once, and a caller that was answered Ok is the one that ran it.\<close>

theorem spsc_init_runs_once:
  assumes "spsc_init_step\<^sup>*\<^sup>* gate_new g"
  shows "length (bodies_run g) \<le> 1 \<and> (\<forall>i. callers g i = InitAccepted \<longrightarrow> bodies_run g = [i])"
proof -
  obtain w where inv: "gate_inv w g" using gate_inv_steps [OF assms gate_inv_new] by blast
  have "bodies_run g = [i]" if "callers g i = InitAccepted" for i
  proof -
    have "caller_ok (gate_initialized g) (bodies_run g) i (callers g i)"
      using inv by (simp add: gate_inv_def)
    then show ?thesis by (simp add: that)
  qed
  then show ?thesis using gate_inv_length [OF inv] by blast
qed

text \<open>Running one caller through the whole of either init.\<close>

definition gate_done :: "nat \<Rightarrow> init_gate \<Rightarrow> init_gate" where
  "gate_done i g = g\<lparr>gate_initialized := True, gate_initializing := False,
     callers := (callers g)(i := InitAccepted), bodies_run := bodies_run g @ [i]\<rparr>"

lemma spsc_init_solo:
  assumes "callers g i = SawUninitialized" "\<not> gate_initializing g" "\<not> gate_initialized g"
  shows "spsc_init_step\<^sup>*\<^sup>* g (gate_done i g)"
proof -
  define g1 where "g1 = caller_to i WonInitializing (g\<lparr>gate_initializing := True\<rparr>)"
  define g2 where "g2 = caller_to i RunBody g1"
  define g3 where "g3 = caller_to i PublishReady (g2\<lparr>bodies_run := bodies_run g2 @ [i]\<rparr>)"
  define g4 where "g4 = caller_to i ReleaseGate (g3\<lparr>gate_initialized := True\<rparr>)"
  note defs = g1_def g2_def g3_def g4_def caller_to_def gate_done_def
  have "spsc_init_step g g1" unfolding g1_def using assms by (intro spsc_init_step.won)
  moreover have "spsc_init_step g1 g2"
    unfolding g2_def using assms by (intro spsc_init_step.recheck_first) (simp_all add: defs)
  moreover have "spsc_init_step g2 g3"
    unfolding g3_def by (intro spsc_init_step.body) (simp add: defs)
  moreover have "spsc_init_step g3 g4"
    unfolding g4_def by (intro spsc_init_step.publish) (simp add: defs)
  moreover have "spsc_init_step g4 (gate_done i g)"
    using spsc_init_step.release [of g4 i] by (cases g) (simp add: defs)
  ultimately show ?thesis by (meson converse_rtranclp_into_rtranclp rtranclp.rtrancl_refl)
qed

lemma dma_init_solo:
  assumes "callers g i = SawUninitialized" "\<not> gate_initializing g"
  shows "dma_init_step\<^sup>*\<^sup>* g (gate_done i g)"
proof -
  define g1 where "g1 = caller_to i RunBody (g\<lparr>gate_initializing := True\<rparr>)"
  define g2 where "g2 = caller_to i PublishReady (g1\<lparr>bodies_run := bodies_run g1 @ [i]\<rparr>)"
  define g3 where "g3 = caller_to i ReleaseGate (g2\<lparr>gate_initialized := True\<rparr>)"
  note defs = g1_def g2_def g3_def caller_to_def gate_done_def
  have "dma_init_step g g1" unfolding g1_def using assms by (intro dma_init_step.won)
  moreover have "dma_init_step g1 g2"
    unfolding g2_def by (intro dma_init_step.body) (simp add: defs)
  moreover have "dma_init_step g2 g3"
    unfolding g3_def by (intro dma_init_step.publish) (simp add: defs)
  moreover have "dma_init_step g3 (gate_done i g)"
    using dma_init_step.release [of g3 i] by (cases g) (simp add: defs)
  ultimately show ?thesis by (meson converse_rtranclp_into_rtranclp rtranclp.rtrancl_refl)
qed

theorem spsc_init_runs_once_witness:
  "\<exists>g :: init_gate. callers g 4 = InitAccepted \<and> bodies_run g = [4]"
proof -
  let ?g = "caller_to 4 SawUninitialized gate_new"
  have "spsc_init_step gate_new ?g"
    using spsc_init_step.check [of gate_new 4] by (simp add: gate_new_def)
  moreover have "spsc_init_step\<^sup>*\<^sup>* ?g (gate_done 4 ?g)"
    by (intro spsc_init_solo) (simp_all add: gate_new_def caller_to_def)
  ultimately have "spsc_init_step\<^sup>*\<^sup>* gate_new (gate_done 4 ?g)" by simp
  note once = spsc_init_runs_once [OF this]
  have acc: "callers (gate_done 4 ?g) 4 = InitAccepted" by (simp add: gate_done_def)
  then have "bodies_run (gate_done 4 ?g) = [4]" using once by blast
  with acc show ?thesis by blast
qed

text \<open>C40: The gate of the DMA pool lets init run twice: a caller that has loaded
  \<open>is_initialized\<close> as false can be overtaken by a whole init of another caller, and still wins
  \<open>is_initializing\<close> afterwards: both are answered Ok and the body has run for both, one after the
  other.\<close>

theorem dma_init_can_run_twice:
  "\<exists>g. dma_init_step\<^sup>*\<^sup>* gate_new g \<and> callers g 0 = InitAccepted \<and> callers g 1 = InitAccepted \<and>
     bodies_run g = [1, 0]"
proof -
  let ?a = "caller_to 0 SawUninitialized gate_new"
  let ?b = "caller_to 1 SawUninitialized ?a"
  have "dma_init_step gate_new ?a"
    using dma_init_step.check [of gate_new 0] by (simp add: gate_new_def)
  moreover have "dma_init_step ?a ?b"
    using dma_init_step.check [of ?a 1] by (simp add: gate_new_def caller_to_def)
  moreover have "dma_init_step\<^sup>*\<^sup>* ?b (gate_done 1 ?b)"
    by (intro dma_init_solo) (simp_all add: gate_new_def caller_to_def)
  moreover have "dma_init_step\<^sup>*\<^sup>* (gate_done 1 ?b) (gate_done 0 (gate_done 1 ?b))"
    by (intro dma_init_solo) (simp_all add: gate_new_def caller_to_def gate_done_def)
  ultimately have "dma_init_step\<^sup>*\<^sup>* gate_new (gate_done 0 (gate_done 1 ?b))" by simp
  moreover have "callers (gate_done 0 (gate_done 1 ?b)) 0 = InitAccepted"
    "callers (gate_done 0 (gate_done 1 ?b)) 1 = InitAccepted"
    "bodies_run (gate_done 0 (gate_done 1 ?b)) = [1, 0]"
    by (simp_all add: gate_done_def gate_new_def caller_to_def)
  ultimately show ?thesis by blast
qed

end
