(* ===== verification/State_Machine.thy ===== *)
theory State_Machine
  imports Shawn_Prelude
begin

text \<open>
  The enclave life cycle (state_machine.rs).  \<open>try_advance\<close> is a load followed by a loop around a
  weak compare-exchange.  It is modelled twice: as a function of one thread, whose compare-exchange
  may fail spuriously as a given schedule says, and as a step relation of any number of threads
  that interleave between the load and every compare-exchange.
\<close>

datatype enclave_state = Init | Bootstrapping | Operational | Degraded | Terminal

fun state_u8 :: "enclave_state \<Rightarrow> u8" where
  "state_u8 Init = 0"
| "state_u8 Bootstrapping = 1"
| "state_u8 Operational = 2"
| "state_u8 Degraded = 3"
| "state_u8 Terminal = 4"

record state_machine =
  current_state :: u8

definition state_machine_new :: state_machine where
  "state_machine_new = \<lparr>current_state = state_u8 Init\<rparr>"

definition get_state :: "state_machine \<Rightarrow> u8" where
  "get_state m = current_state m"

definition valid_transition :: "u8 \<Rightarrow> u8 \<Rightarrow> bool" where
  "valid_transition current target \<longleftrightarrow>
     (current, target) \<in> set [(0, 1), (1, 2), (1, 4), (2, 3), (2, 4), (3, 4), (3, 2)]"

subsection \<open>One thread\<close>

text \<open>
  The schedule has one entry per compare-exchange: True makes it fail spuriously.  None means that
  the schedule ended before the loop returned.
\<close>

fun advance_loop :: "bool list \<Rightarrow> u8 \<Rightarrow> u8 \<Rightarrow> state_machine \<Rightarrow> ((unit + unit) \<times> state_machine) option"
  where
  "advance_loop [] current target m =
     (if \<not> valid_transition current target then Some (Err (), m) else None)"
| "advance_loop (spurious # sched) current target m =
     (if \<not> valid_transition current target then Some (Err (), m)
      else if current_state m = current \<and> \<not> spurious
      then Some (Ok (), m\<lparr>current_state := target\<rparr>)
      else advance_loop sched (current_state m) target m)"

definition try_advance ::
  "bool list \<Rightarrow> enclave_state \<Rightarrow> state_machine \<Rightarrow> ((unit + unit) \<times> state_machine) option" where
  "try_advance sched target m = advance_loop sched (current_state m) (state_u8 target) m"

subsection \<open>Many threads\<close>

datatype advance_pc =
    Start enclave_state
  | Exchange u8 enclave_state
  | Returned enclave_state "unit + unit"

definition decide :: "u8 \<Rightarrow> enclave_state \<Rightarrow> advance_pc" where
  "decide current target =
     (if valid_transition current (state_u8 target) then Exchange current target
      else Returned target (Err ()))"

text \<open>
  A configuration is the machine, the program counter of every thread and, for the statements
  only, the log of the exchanges that succeeded: who, from which state, to which state.
\<close>

record advance_conf =
  machine :: state_machine
  threads :: "nat \<Rightarrow> advance_pc"
  advances :: "(nat \<times> u8 \<times> u8) list"

inductive advance_step :: "advance_conf \<Rightarrow> advance_conf \<Rightarrow> bool" where
  load: "threads c i = Start target \<Longrightarrow>
     advance_step c (c\<lparr>threads := (threads c)(i := decide (current_state (machine c)) target)\<rparr>)"
| exchange_ok: "threads c i = Exchange current target \<Longrightarrow> current_state (machine c) = current \<Longrightarrow>
     advance_step c
       \<lparr>machine = (machine c)\<lparr>current_state := state_u8 target\<rparr>,
        threads = (threads c)(i := Returned target (Ok ())),
        advances = advances c @ [(i, current, state_u8 target)]\<rparr>"
| exchange_fail: "threads c i = Exchange current target \<Longrightarrow>
     advance_step c (c\<lparr>threads := (threads c)(i := decide (current_state (machine c)) target)\<rparr>)"
| call_again: "threads c i = Returned target r \<Longrightarrow>
     advance_step c (c\<lparr>threads := (threads c)(i := Start target')\<rparr>)"

definition advance_init :: "(nat \<Rightarrow> enclave_state) \<Rightarrow> advance_conf" where
  "advance_init targets =
     \<lparr>machine = state_machine_new, threads = (\<lambda>i. Start (targets i)), advances = []\<rparr>"

definition advance_reachable :: "advance_conf \<Rightarrow> bool" where
  "advance_reachable c \<longleftrightarrow> (\<exists>targets. advance_step\<^sup>*\<^sup>* (advance_init targets) c)"

text \<open>A log is a path from a state to another when consecutive entries meet and each is an edge.\<close>

fun is_path :: "u8 \<Rightarrow> (nat \<times> u8 \<times> u8) list \<Rightarrow> u8 \<Rightarrow> bool" where
  "is_path s [] t \<longleftrightarrow> s = t"
| "is_path s ((i, a, b) # es) t \<longleftrightarrow> s = a \<and> valid_transition a b \<and> is_path b es t"

subsection \<open>Lemmas\<close>

lemma valid_transition_cases:
  "valid_transition a b \<longleftrightarrow>
     (a = 0 \<and> b = 1) \<or> (a = 1 \<and> b = 2) \<or> (a = 1 \<and> b = 4) \<or> (a = 2 \<and> b = 3) \<or>
     (a = 2 \<and> b = 4) \<or> (a = 3 \<and> b = 4) \<or> (a = 3 \<and> b = 2)"
  by (auto simp: valid_transition_def)

lemma terminal_no_exit: "\<not> valid_transition (state_u8 Terminal) b"
  by (simp add: valid_transition_cases)

lemma advance_loop_current:
  "advance_loop sched (current_state m) t m = Some r \<Longrightarrow>
   r = (if valid_transition (current_state m) t
        then (Ok (), m\<lparr>current_state := t\<rparr>) else (Err (), m))"
  by (induction sched) (auto split: if_splits)

lemma advance_loop_returns:
  "False \<in> set sched \<or> \<not> valid_transition (current_state m) t \<Longrightarrow>
   \<exists>r. advance_loop sched (current_state m) t m = Some r"
  by (induction sched) auto

lemma is_path_append:
  "is_path s es t \<Longrightarrow> valid_transition t b \<Longrightarrow> is_path s (es @ [(i, t, b)]) b"
  by (induction es arbitrary: s) auto

lemma is_path_snoc:
  "is_path s (es @ [(i, a, b)]) t \<longleftrightarrow> is_path s es a \<and> valid_transition a b \<and> b = t"
  by (induction es arbitrary: s) auto

definition advance_inv :: "advance_conf \<Rightarrow> bool" where
  "advance_inv c \<longleftrightarrow>
     is_path (state_u8 Init) (advances c) (current_state (machine c)) \<and>
     (\<forall>i current target. threads c i = Exchange current target \<longrightarrow>
        valid_transition current (state_u8 target)) \<and>
     (\<forall>i target. threads c i = Returned target (Ok ()) \<longrightarrow>
        (\<exists>from. (i, from, state_u8 target) \<in> set (advances c)))"

lemma decide_Exchange:
  "decide cur target = Exchange a t \<longleftrightarrow>
     a = cur \<and> t = target \<and> valid_transition cur (state_u8 target)"
  by (auto simp: decide_def)

lemma decide_not_Ok: "decide cur target \<noteq> Returned t (Ok ())"
  by (simp add: decide_def)

lemma advance_inv_init: "advance_inv (advance_init targets)"
  by (simp add: advance_inv_def advance_init_def state_machine_new_def)

lemma advance_inv_step: "advance_step c c' \<Longrightarrow> advance_inv c \<Longrightarrow> advance_inv c'"
  by (induction rule: advance_step.induct)
    (auto simp: advance_inv_def decide_Exchange decide_not_Ok intro: is_path_append)

lemma advance_inv_steps: "advance_step\<^sup>*\<^sup>* c c' \<Longrightarrow> advance_inv c \<Longrightarrow> advance_inv c'"
  by (induction rule: rtranclp_induct) (auto intro: advance_inv_step)

lemma advance_reachable_inv: "advance_reachable c \<Longrightarrow> advance_inv c"
  using advance_inv_steps advance_inv_init by (auto simp: advance_reachable_def)

lemma terminal_step:
  assumes "advance_step c c'" "advance_inv c" "current_state (machine c) = state_u8 Terminal"
  shows "machine c' = machine c \<and> advances c' = advances c"
  using assms(1)
proof (cases rule: advance_step.cases)
  case (exchange_ok i current target)
  then show ?thesis
    using assms(2,3) terminal_no_exit by (auto simp: advance_inv_def simp del: state_u8.simps)
qed auto

lemma terminal_steps:
  assumes "advance_step\<^sup>*\<^sup>* c c'" "advance_inv c" "current_state (machine c) = state_u8 Terminal"
  shows "machine c' = machine c \<and> advances c' = advances c \<and> advance_inv c'"
  using assms
  by (induction rule: rtranclp_induct) (auto dest: terminal_step advance_inv_step)

subsection \<open>Properties\<close>

text \<open>A call of try_advance by one thread returns as soon as one compare-exchange is not
  failed spuriously, it answers Ok exactly on the seven edges of the life cycle and then the state
  is the target, and on every other pair it answers Err and leaves the state as it was.\<close>

theorem try_advance_correct:
  assumes "False \<in> set sched"
  shows "try_advance sched target m =
    Some (if valid_transition (current_state m) (state_u8 target)
          then (Ok (), m\<lparr>current_state := state_u8 target\<rparr>) else (Err (), m))"
  using advance_loop_returns [of sched m "state_u8 target"] assms
    advance_loop_current [of sched m "state_u8 target"]
  by (auto simp: try_advance_def)

theorem try_advance_correct_witness:
  "try_advance [True, True, False] Bootstrapping state_machine_new =
     Some (Ok (), \<lparr>current_state = 1\<rparr>)"
  using try_advance_correct [of "[True, True, False]" Bootstrapping state_machine_new]
  by (simp add: state_machine_new_def valid_transition_def)

text \<open>C29: However many threads call try_advance, and however their loads and exchanges
  interleave, the states the machine went through form a path of valid edges from Init to the
  current state, every call that answered Ok made one of those moves, and once the machine is
  Terminal no later step of any thread moves it.\<close>

theorem concurrent_advance_path:
  assumes "advance_reachable c"
  shows "is_path (state_u8 Init) (advances c) (current_state (machine c)) \<and>
    (\<forall>i target. threads c i = Returned target (Ok ()) \<longrightarrow>
       (\<exists>from. (i, from, state_u8 target) \<in> set (advances c))) \<and>
    (current_state (machine c) = state_u8 Terminal \<longrightarrow>
       (\<forall>c'. advance_step\<^sup>*\<^sup>* c c' \<longrightarrow> machine c' = machine c))"
proof -
  have inv: "advance_inv c" using assms by (rule advance_reachable_inv)
  have "machine c' = machine c"
    if "current_state (machine c) = state_u8 Terminal" "advance_step\<^sup>*\<^sup>* c c'" for c'
    using terminal_steps [OF that(2) inv that(1)] by simp
  then show ?thesis
    using inv unfolding advance_inv_def by blast
qed

theorem concurrent_advance_path_witness:
  "\<exists>c. current_state (machine c) = 4 \<and> advances c = [(0, 0, 1), (1, 1, 4)] \<and>
     (\<forall>c'. advance_step\<^sup>*\<^sup>* c c' \<longrightarrow> machine c' = machine c)"
proof -
  define ts where "ts = (\<lambda>i::nat. if i = 0 then Bootstrapping else Terminal)"
  define c0 where "c0 = advance_init ts"
  define c1 where "c1 = c0\<lparr>threads := (threads c0)(0 := Exchange 0 Bootstrapping)\<rparr>"
  define c2 where "c2 = \<lparr>machine = \<lparr>current_state = 1\<rparr>,
    threads = (threads c1)(0 := Returned Bootstrapping (Ok ())), advances = [(0, 0, 1)]\<rparr>"
  define c3 where "c3 = c2\<lparr>threads := (threads c2)(1 := Exchange 1 Terminal)\<rparr>"
  define c4 where "c4 = \<lparr>machine = \<lparr>current_state = 4\<rparr>,
    threads = (threads c3)(1 := Returned Terminal (Ok ())), advances = [(0, 0, 1), (1, 1, 4)]\<rparr>"
  note defs = c0_def c1_def c2_def c3_def c4_def ts_def advance_init_def state_machine_new_def
    decide_def valid_transition_def
  have s1: "advance_step c0 c1"
    using advance_step.load [of c0 0 Bootstrapping] by (simp add: defs)
  have s2: "advance_step c1 c2"
    using advance_step.exchange_ok [of c1 0 0 Bootstrapping] by (simp add: defs)
  have s3: "advance_step c2 c3"
    using advance_step.load [of c2 1 Terminal] by (simp add: defs)
  have s4: "advance_step c3 c4"
    using advance_step.exchange_ok [of c3 1 1 Terminal] by (simp add: defs)
  have "advance_step\<^sup>*\<^sup>* c0 c4"
    by (rule converse_rtranclp_into_rtranclp, rule s1, rule converse_rtranclp_into_rtranclp, rule s2,
        rule converse_rtranclp_into_rtranclp, rule s3, rule r_into_rtranclp, rule s4)
  then have "advance_reachable c4" unfolding c0_def advance_reachable_def by blast
  from concurrent_advance_path [OF this] show ?thesis
    by (intro exI [of _ c4]) (simp only: c4_def, simp)
qed

end
