(* ===== verification/Latency_Tracker.thy ===== *)
theory Latency_Tracker
  imports Shawn_Prelude
begin

text \<open>
  The latency tracker (latency_tracker.rs): a start mark, and an end mark that updates a maximum
  and a saturating total, each by a weak compare-exchange loop, and a wrapping sample counter.  The
  loops take the schedule of spurious failures of their compare-exchanges; None means that the
  schedule ended before the loop did.  The tracker has one logical owner at a time, as its
  documentation requires, so that the loops reload only values of their own.
\<close>

record latency_tracker =
  started :: bool
  start_time :: u64
  max_latency :: u64
  total_latency :: u64
  samples :: u64

definition latency_tracker_new :: latency_tracker where
  "latency_tracker_new =
     \<lparr>started = False, start_time = 0, max_latency = 0, total_latency = 0, samples = 0\<rparr>"

definition mark_start :: "u64 \<Rightarrow> latency_tracker \<Rightarrow> latency_tracker" where
  "mark_start current_timestamp lt = lt\<lparr>start_time := current_timestamp, started := True\<rparr>"

fun max_loop :: "bool list \<Rightarrow> u64 \<Rightarrow> u64 \<Rightarrow> latency_tracker \<Rightarrow> latency_tracker option" where
  "max_loop [] current_max delta lt = (if delta > current_max then None else Some lt)"
| "max_loop (spurious # sched) current_max delta lt =
     (if delta > current_max
      then if max_latency lt = current_max \<and> \<not> spurious then Some (lt\<lparr>max_latency := delta\<rparr>)
           else max_loop sched (max_latency lt) delta lt
      else Some lt)"

fun total_loop :: "bool list \<Rightarrow> u64 \<Rightarrow> u64 \<Rightarrow> latency_tracker \<Rightarrow> latency_tracker option" where
  "total_loop [] current_total delta lt = None"
| "total_loop (spurious # sched) current_total delta lt =
     (let updated_total = saturating_add current_total delta in
      if total_latency lt = current_total \<and> \<not> spurious
      then Some (lt\<lparr>total_latency := updated_total\<rparr>)
      else total_loop sched (total_latency lt) delta lt)"

definition mark_end ::
  "bool list \<Rightarrow> bool list \<Rightarrow> u64 \<Rightarrow> latency_tracker \<Rightarrow> latency_tracker option" where
  "mark_end max_sched total_sched current_timestamp lt =
     (if \<not> started lt then Some lt
      else let start = start_time lt in
      if current_timestamp < start then Some lt
      else let was_started = started lt; lt = lt\<lparr>started := False\<rparr> in
      if \<not> was_started then Some lt
      else let delta = current_timestamp - start in
      Option.bind (max_loop max_sched (max_latency lt) delta lt) (\<lambda>lt.
      Option.bind (total_loop total_sched (total_latency lt) delta lt) (\<lambda>lt.
      Some (lt\<lparr>samples := samples lt + 1\<rparr>))))"

subsection \<open>Reference: a list of completed measurements\<close>

datatype mark = MarkStart u64 | MarkEnd "bool list" "bool list" u64

fun run_marks :: "mark list \<Rightarrow> latency_tracker \<Rightarrow> latency_tracker option" where
  "run_marks [] lt = Some lt"
| "run_marks (MarkStart t # ms) lt = run_marks ms (mark_start t lt)"
| "run_marks (MarkEnd s1 s2 t # ms) lt = Option.bind (mark_end s1 s2 t lt) (run_marks ms)"

text \<open>The reference keeps the open measurement, if any, and the durations measured so far.\<close>

fun measure_marks :: "mark list \<Rightarrow> u64 option \<Rightarrow> nat list \<Rightarrow> u64 option \<times> nat list" where
  "measure_marks [] active durations = (active, durations)"
| "measure_marks (MarkStart t # ms) active durations = measure_marks ms (Some t) durations"
| "measure_marks (MarkEnd _ _ t # ms) active durations =
     (case active of
        None \<Rightarrow> measure_marks ms None durations
      | Some s \<Rightarrow> if unat t < unat s then measure_marks ms active durations
                  else measure_marks ms None (durations @ [unat t - unat s]))"

fun fair_mark :: "mark \<Rightarrow> bool" where
  "fair_mark (MarkStart _) = True"
| "fair_mark (MarkEnd s1 s2 _) \<longleftrightarrow> False \<in> set s1 \<and> False \<in> set s2"

definition tracks :: "latency_tracker \<Rightarrow> u64 option \<times> nat list \<Rightarrow> bool" where
  "tracks lt m \<longleftrightarrow> (case m of (active, durations) \<Rightarrow>
     started lt = (active \<noteq> None) \<and>
     (\<forall>s. active = Some s \<longrightarrow> start_time lt = s) \<and>
     unat (max_latency lt) = fold max durations 0 \<and>
     unat (total_latency lt) = min (sum_list durations) (2 ^ 64 - 1) \<and>
     samples lt = of_nat (length durations))"

subsection \<open>Lemmas\<close>

lemma max_loop_current:
  "False \<in> set sched \<Longrightarrow> max_loop sched (max_latency lt) delta lt =
     Some (lt\<lparr>max_latency := max (max_latency lt) delta\<rparr>)"
  by (induction sched) (auto simp: max_def)

lemma total_loop_current:
  "False \<in> set sched \<Longrightarrow> total_loop sched (total_latency lt) delta lt =
     Some (lt\<lparr>total_latency := saturating_add (total_latency lt) delta\<rparr>)"
  by (induction sched) (auto simp: Let_def)

lemma mark_end_completes:
  assumes "False \<in> set s1" "False \<in> set s2" "started lt" "start_time lt \<le> t"
  shows "mark_end s1 s2 t lt =
    Some (lt\<lparr>started := False, max_latency := max (max_latency lt) (t - start_time lt),
      total_latency := saturating_add (total_latency lt) (t - start_time lt),
      samples := samples lt + 1\<rparr>)"
proof -
  define d where "d = t - start_time lt"
  have "max_loop s1 (max_latency lt) d (lt\<lparr>started := False\<rparr>) =
      Some (lt\<lparr>started := False, max_latency := max (max_latency lt) d\<rparr>)"
    using max_loop_current [OF assms(1), of "lt\<lparr>started := False\<rparr>" d] by simp
  moreover have "total_loop s2 (total_latency lt) d
      (lt\<lparr>started := False, max_latency := max (max_latency lt) d\<rparr>) =
    Some (lt\<lparr>started := False, max_latency := max (max_latency lt) d,
      total_latency := saturating_add (total_latency lt) d\<rparr>)"
    using total_loop_current
      [OF assms(2), of "lt\<lparr>started := False, max_latency := max (max_latency lt) d\<rparr>" d] by simp
  ultimately show ?thesis
    using assms(3,4) by (simp add: mark_end_def Let_def not_less d_def)
qed

lemma mark_end_ignored:
  assumes "\<not> started lt \<or> t < start_time lt"
  shows "mark_end s1 s2 t lt = Some lt"
  using assms by (auto simp: mark_end_def Let_def)

lemma min_add_cap: "min (min a c + b) c = min (a + b) c" for a b c :: nat
  by (simp add: min_def)

lemma tracks_complete:
  assumes "tracks lt (Some s, ds)" "s \<le> t"
  shows "tracks (lt\<lparr>started := False, max_latency := max (max_latency lt) (t - s),
      total_latency := saturating_add (total_latency lt) (t - s), samples := samples lt + 1\<rparr>)
    (None, ds @ [unat t - unat s])"
proof -
  have d: "unat (t - s) = unat t - unat s" using assms(2) by (rule unat_sub)
  have "unat (max (max_latency lt) (t - s)) = max (unat (max_latency lt)) (unat t - unat s)"
    unfolding d [symmetric] by (simp add: max_def word_le_nat_alt)
  moreover have "unat (saturating_add (total_latency lt) (t - s)) =
      min (unat (total_latency lt) + (unat t - unat s)) (2 ^ 64 - 1)"
    by (simp only: unat_saturating_add d) simp
  ultimately show ?thesis
    using assms(1) by (simp add: tracks_def max.commute min_add_cap)
qed

lemma run_marks_tracks:
  "tracks lt (active, ds) \<Longrightarrow> \<forall>m\<in>set ms. fair_mark m \<Longrightarrow>
   \<exists>lt'. run_marks ms lt = Some lt' \<and> tracks lt' (measure_marks ms active ds)"
proof (induction ms active ds arbitrary: lt rule: measure_marks.induct)
  case (2 t ms active ds)
  have "tracks (mark_start t lt) (Some t, ds)"
    using 2(2) by (simp add: tracks_def mark_start_def)
  then show ?case using 2(1,3) by simp
next
  case (3 s1 s2 t ms active ds)
  show ?case
  proof (cases active)
    case None
    then have "mark_end s1 s2 t lt = Some lt"
      using 3 by (intro mark_end_ignored) (simp add: tracks_def)
    then show ?thesis using 3 None by simp
  next
    case (Some s)
    then have st: "started lt" "start_time lt = s" using 3 by (simp_all add: tracks_def)
    show ?thesis
    proof (cases "unat t < unat s")
      case True
      then have "mark_end s1 s2 t lt = Some lt"
        using st by (intro mark_end_ignored) (simp add: word_less_nat_alt)
      then show ?thesis using 3 Some True by simp
    next
      case False
      then have "s \<le> t" by (simp add: word_le_nat_alt)
      then show ?thesis
        using 3 Some False st tracks_complete [of lt s ds t] mark_end_completes [of s1 s2 lt t]
        by simp
    qed
  qed
qed simp

subsection \<open>Properties\<close>

text \<open>C32: After any sequence of start and end marks whose compare-exchange loops are each let
  through once, the tracker holds the maximum of the completed durations, their sum saturated at
  the largest 64-bit value and their count modulo 2 to the 64, where an end mark completes the
  open measurement exactly once, does nothing without one, and on a timestamp before the start
  leaves it open.\<close>

theorem latency_tracker_refines_measurements:
  assumes "\<forall>m\<in>set ms. fair_mark m"
  shows "\<exists>lt. run_marks ms latency_tracker_new = Some lt \<and> tracks lt (measure_marks ms None [])"
  using run_marks_tracks [of latency_tracker_new None "[]" ms] assms
  by (simp add: tracks_def latency_tracker_new_def)

theorem latency_tracker_refines_measurements_witness:
  "\<exists>lt. run_marks [MarkStart 10, MarkEnd [False] [False] 5, MarkEnd [True, False] [False] 25,
      MarkEnd [False] [False] 99] latency_tracker_new = Some lt \<and> tracks lt (None, [15])"
  using latency_tracker_refines_measurements
    [of "[MarkStart 10, MarkEnd [False] [False] 5, MarkEnd [True, False] [False] 25,
      MarkEnd [False] [False] 99]"]
  by simp

end
