(* ===== verification/Ring_Buffer.thy ===== *)
theory Ring_Buffer
  imports Spsc_Queue
begin

text \<open>
  The ring buffer (ring_buffer.rs): the same struct and slot type as the queue of spsc_queue.rs in
  a second copy, with one operation more, \<open>peek\<close>, for the consumer that looks at an item, allocates
  for it and only then removes it.  The definitions follow ring_buffer.rs; the lemmas on the queue
  are reused through the equality of the two copies.
\<close>

type_synonym 'a ring_buffer = "'a spsc_queue"

definition ring_new :: "'a ring_buffer" where
  "ring_new = \<lparr>buffer = 0, head = 0, tail = 0, is_initialized = False, is_initializing = False,
     slots = []\<rparr>"

definition ring_init ::
  "nat \<Rightarrow> 'a element_type \<Rightarrow> usize \<Rightarrow> usize \<Rightarrow> 'a queue_slot list \<Rightarrow> 'a ring_buffer \<Rightarrow>
   (ipc_error + unit) \<times> 'a ring_buffer" where
  "ring_init N T base_ptr size_in_bytes memory q =
     (if base_ptr = 0 then (Err InvalidMemory, q)
      else case checked_mul (of_nat N) (slot_size T) of
        None \<Rightarrow> (Err InvalidMemory, q)
      | Some required_size \<Rightarrow>
          if size_in_bytes < required_size then (Err InvalidMemory, q)
          else if \<not> is_multiple_of base_ptr 4096 \<or> \<not> is_multiple_of base_ptr (slot_align T)
          then (Err InvalidMemory, q)
          else if is_initialized q \<or> is_initializing q then (Err QueueAlreadyInitialized, q)
          else let q = q\<lparr>is_initializing := True\<rparr> in
          if is_initialized q then (Err QueueAlreadyInitialized, q\<lparr>is_initializing := False\<rparr>)
          else (Ok (), q\<lparr>slots := map (\<lambda>slot. slot\<lparr>sequence_counter := 0\<rparr>) memory,
                         buffer := base_ptr, is_initialized := True, is_initializing := False\<rparr>))"

definition ring_push ::
  "nat \<Rightarrow> 'a element_type \<Rightarrow> 'a \<Rightarrow> ('a ring_buffer \<times> rtos_host, ipc_error + unit) prog" where
  "ring_push N T item = bindP getP (\<lambda>q.
     if \<not> is_initialized q then ret (Err QueueNotInitialized)
     else if N \<le> unat (head q - tail q) then ret (Err QueueFull)
     else
       let idx = slot_index N (head q);
           sequence = sequence_counter (slots q ! idx) in
       seqP (modP (put_sequence idx ((sequence + 1) OR 1)))
      (seqP (modP (put_data idx (Val item)))
      (seqP (hostP (host_cache_flush (slot_ptr T q idx) (type_size T)))
      (seqP (modP (put_sequence idx ((sequence + 2) AND NOT 1)))
      (seqP (modP (\<lambda>q'. q'\<lparr>head := head q + 1\<rparr>))
            (ret (Ok ())))))))"

definition ring_pop ::
  "nat \<Rightarrow> 'a element_type \<Rightarrow> ('a queue_slot \<Rightarrow> 'a queue_slot) \<Rightarrow>
   ('a ring_buffer \<times> rtos_host, 'a option) prog" where
  "ring_pop N T inval = bindP getP (\<lambda>q.
     if \<not> is_initialized q then ret None
     else if head q = tail q then ret None
     else
       let idx = slot_index N (tail q);
           first_sequence = sequence_counter (slots q ! idx) in
       if odd_word first_sequence then ret None
       else
         seqP (hostP (host_cache_invalidate (slot_ptr T q idx) (type_size T)))
        (seqP (modP (\<lambda>q'. q'\<lparr>slots := (slots q')[idx := inval (slots q' ! idx)]\<rparr>))
        (bindP (read_data idx) (\<lambda>item.
         bindP getP (\<lambda>q'.
         let second_sequence = sequence_counter (slots q' ! idx) in
         if first_sequence \<noteq> second_sequence \<or> odd_word second_sequence then ret None
         else
           seqP (modP (put_data idx ZeroBytes))
          (seqP (modP (put_data idx (Val (type_default T))))
          (seqP (modP (\<lambda>q'. q'\<lparr>tail := tail q + 1\<rparr>))
                (ret (Some item)))))))))"

definition ring_peek ::
  "nat \<Rightarrow> 'a element_type \<Rightarrow> ('a queue_slot \<Rightarrow> 'a queue_slot) \<Rightarrow>
   ('a ring_buffer \<times> rtos_host, 'a option) prog" where
  "ring_peek N T inval = bindP getP (\<lambda>q.
     if \<not> is_initialized q then ret None
     else if head q = tail q then ret None
     else
       let idx = slot_index N (tail q);
           first_sequence = sequence_counter (slots q ! idx) in
       if odd_word first_sequence then ret None
       else
         seqP (hostP (host_cache_invalidate (slot_ptr T q idx) (type_size T)))
        (seqP (modP (\<lambda>q'. q'\<lparr>slots := (slots q')[idx := inval (slots q' ! idx)]\<rparr>))
        (bindP (read_data idx) (\<lambda>item.
         bindP getP (\<lambda>q'.
         let second_sequence = sequence_counter (slots q' ! idx) in
         if first_sequence \<noteq> second_sequence \<or> odd_word second_sequence then ret None
         else ret (Some item))))))"

subsection \<open>Lemmas\<close>

lemma ring_eq_spsc:
  "ring_new = spsc_new" "ring_init N T = spsc_init N T"
  "ring_push N T = spsc_push N T" "ring_pop N T = spsc_pop N T"
  by (simp_all add: fun_eq_iff ring_new_def spsc_new_def ring_init_def spsc_init_def
      ring_push_def spsc_push_def ring_pop_def spsc_pop_def)

interpretation ring_fifo: bounded_fifo "ring_push N T" "ring_pop N T (\<lambda>slot. slot)"
    "spsc_ready N" "\<lambda>s. spsc_contents N (fst s)" N QueueFull for N T
  unfolding ring_eq_spsc by (rule spsc_fifo.bounded_fifo_axioms)

lemma ring_peek_next:
  assumes "spsc_inv N q" "cache_invalidate_cb h \<noteq> 0" "head q \<noteq> tail q"
  shows "\<exists>h'. ring_peek N T (\<lambda>slot. slot) (q, h) = Ret (Some (hd (spsc_contents N q))) (q, h') \<and>
    (queue_host h \<longrightarrow> queue_host h')"
proof -
  note b = spsc_inv_bounds [OF assms(1)]
  let ?i = "slot_index N (tail q)"
  have "?i \<in> set (live N (tail q) (head q))" using live_pop [OF assms(3)] by simp
  then obtain x where x: "slot_data (slots q ! ?i) = Val x"
    using assms(1) by (auto simp: spsc_inv_def is_val_iff)
  have "hd (spsc_contents N q) = x"
    using x by (simp add: spsc_contents_def live_pop [OF assms(3)])
  moreover have "\<not> odd_word (sequence_counter (slots q ! ?i))"
    using assms(1) b by (simp add: spsc_inv_def)
  ultimately show ?thesis
    using assms b x by (simp add: ring_peek_def queue_exec read_data_def spsc_inv_def)
qed

lemma ring_peek_empty: "head q = tail q \<Longrightarrow> ring_peek N T inval (q, h) = Ret None (q, h)"
  by (simp add: ring_peek_def)

subsection \<open>Properties\<close>

text \<open>After an accepted init, the ring buffer answers every sequence of pushes and pops as a
  bounded list in first-in first-out order does.\<close>

theorem ring_buffer_fifo:
  assumes "is_power_of_two N" "length memory = N" "queue_host h"
    and "ring_init N T base_ptr size_in_bytes memory ring_new = (Ok (), q)"
  shows "\<exists>s'. run_fifo (ring_push N T) (ring_pop N T (\<lambda>slot. slot)) ops (q, h) =
      Ret (fst (spec_fifo N QueueFull ops [])) s' \<and>
    spsc_inv N (fst s') \<and> spsc_contents N (fst s') = snd (spec_fifo N QueueFull ops [])"
  using ring_fifo.run_refines [of N "(q, h)" T ops] spsc_init_inv [OF assms(1,2)] assms(3,4)
  by (auto simp: spsc_ready_def ring_eq_spsc)

theorem ring_buffer_fifo_witness:
  "\<exists>s'. run_fifo (ring_push 2 demo_type) (ring_pop 2 demo_type (\<lambda>slot. slot)) [Pop, Push 5, Pop]
      (snd (ring_init 2 demo_type 4096 128 [demo_slot, demo_slot] ring_new), demo_host) =
      Ret [Popped None, Pushed (Ok ()), Popped (Some 5)] s'"
  using ring_buffer_fifo [OF two_is_power _ demo_queue_host demo_spsc_init [folded ring_eq_spsc],
      of "[Pop, Push 5, Pop]"]
  by (auto simp: demo_spsc_init [folded ring_eq_spsc])

text \<open>Peek returns what the next pop returns and leaves the ring buffer as it was, so the
  consumer can inspect an item before removing it; on an empty buffer both return None.\<close>

theorem ring_peek_then_pop:
  assumes "spsc_inv N q" "queue_host h"
  shows "\<exists>r h'. ring_peek N T (\<lambda>slot. slot) (q, h) = Ret r (q, h') \<and>
    r = (case spsc_contents N q of [] \<Rightarrow> None | x # _ \<Rightarrow> Some x) \<and>
    (\<exists>s'. ring_pop N T (\<lambda>slot. slot) (q, h') = Ret r s')"
proof (cases "head q = tail q")
  case True
  then show ?thesis
    using ring_peek_empty [of q N T "\<lambda>slot. slot" h] spsc_pop_empty [of q N T "\<lambda>slot. slot" h]
    by (simp add: ring_eq_spsc spsc_contents_def)
next
  case False
  obtain h' where h': "ring_peek N T (\<lambda>slot. slot) (q, h) = Ret (Some (hd (spsc_contents N q))) (q, h')"
      "queue_host h'"
    using ring_peek_next [OF assms(1) queue_hostD(2) [OF assms(2)] False] assms(2) by blast
  have "spsc_contents N q \<noteq> []" using spsc_inv_popped(2) [OF assms(1) False] by force
  then show ?thesis
    using h' spsc_pop_next [OF assms(1) queue_hostD(2) [OF h'(2)] False, of "\<lambda>slot. slot" T]
    by (auto simp: ring_eq_spsc split: list.splits)
qed

theorem ring_peek_then_pop_witness:
  "\<exists>h' s'. ring_peek 2 demo_type (\<lambda>slot. slot) (demo_queue, demo_host) = Ret (Some 9) (demo_queue, h') \<and>
    ring_pop 2 demo_type (\<lambda>slot. slot) (demo_queue, h') = Ret (Some 9) s'"
  using ring_peek_then_pop [OF demo_queue_inv demo_queue_host, of demo_type]
  by (auto simp: demo_queue_eq spsc_contents_def live_def slot_index_def)

end
