(* ===== verification/Bitmap_Scheduler.thy ===== *)
theory Bitmap_Scheduler
  imports Rtos_Host
begin

text \<open>
  Task control blocks (tcb.rs) and the per-core bitmap scheduler (bitmap_scheduler.rs).  The stack
  memory of the tasks enters as the function \<open>mem\<close> from an address to the 64-bit word there: the
  scheduler writes the canary word when it registers a task, and reads it in every tick.  Between
  two operations of the scheduler the tasks may write any memory, so each tick has its own \<open>mem\<close>.
\<close>

subsection \<open>Task control blocks\<close>

record tcb =
  entry_point :: u64
  stack_base :: u64
  stack_size :: usize
  rsp :: u64
  priority :: u8
  stack_canary :: u64

definition tcb_new :: tcb where
  "tcb_new = \<lparr>entry_point = 0, stack_base = 0, stack_size = 0, rsp = 0, priority = 15,
     stack_canary = 0\<rparr>"

definition tcb_new_task :: "u64 \<Rightarrow> u64 \<Rightarrow> usize \<Rightarrow> u64 \<Rightarrow> u8 \<Rightarrow> tcb" where
  "tcb_new_task entry base sz initial_rsp prio = \<lparr>entry_point = entry, stack_base = base,
     stack_size = sz, rsp = initial_rsp, priority = prio, stack_canary = 0\<rparr>"

subsection \<open>The scheduler\<close>

definition MAX_TASKS :: nat where
  "MAX_TASKS = 16"

record per_core_scheduler =
  tasks :: "tcb list"
  ready_bitmap :: u16
  current_task :: usize
  watchdog_matrix :: u16
  critical_task_mask :: u16

definition valid_stack_pointer :: "tcb \<Rightarrow> u64 \<Rightarrow> bool" where
  "valid_stack_pointer t sp =
     (case checked_add (stack_base t) (stack_size t) of
        None \<Rightarrow> False
      | Some stack_end \<Rightarrow>
          (case checked_add (stack_base t) 8 of
             None \<Rightarrow> False
           | Some first_usable_rsp \<Rightarrow>
               stack_base t \<noteq> 0 \<and> is_multiple_of (stack_base t) 8 \<and> stack_size t \<ge> 8 \<and>
               sp \<ge> first_usable_rsp \<and> sp \<le> stack_end))"

definition scheduler_new :: per_core_scheduler where
  "scheduler_new = \<lparr>tasks = replicate MAX_TASKS tcb_new, ready_bitmap = 0, current_task = 15,
     watchdog_matrix = 0, critical_task_mask = 0\<rparr>"

definition create_task ::
  "tcb \<Rightarrow> u64 \<Rightarrow> (u64 \<Rightarrow> u64) \<Rightarrow> per_core_scheduler \<Rightarrow>
   (scheduler_error + unit) \<times> (u64 \<Rightarrow> u64) \<times> per_core_scheduler" where
  "create_task t canary_value mem s =
     (if entry_point t = 0 \<or> priority t \<ge> 16 \<or> \<not> valid_stack_pointer t (rsp t)
         \<or> stack_base (tasks s ! unat (priority t)) \<noteq> 0
      then (Err TaskFault, mem, s)
      else
        let t = t\<lparr>stack_canary := canary_value\<rparr>;
            mem = (if stack_base t \<noteq> 0 then mem(stack_base t := canary_value) else mem);
            idx = unat (priority t) in
        (Ok (), mem, s\<lparr>tasks := (tasks s)[idx := t],
                       ready_bitmap := ready_bitmap s OR push_bit idx 1\<rparr>))"

definition set_ready :: "u8 \<Rightarrow> per_core_scheduler \<Rightarrow> per_core_scheduler" where
  "set_ready p s =
     (if p < 16 then s\<lparr>ready_bitmap := ready_bitmap s OR push_bit (unat p) 1\<rparr> else s)"

definition clear_ready :: "u8 \<Rightarrow> per_core_scheduler \<Rightarrow> per_core_scheduler" where
  "clear_ready p s =
     (if p < 16 then s\<lparr>ready_bitmap := ready_bitmap s AND NOT (push_bit (unat p) 1)\<rparr> else s)"

definition task_check_in :: "u8 \<Rightarrow> per_core_scheduler \<Rightarrow> per_core_scheduler" where
  "task_check_in p s =
     (if p < 16 \<and> stack_base (tasks s ! unat p) \<noteq> 0
      then s\<lparr>watchdog_matrix := watchdog_matrix s OR push_bit (unat p) 1\<rparr> else s)"

definition registered_mask :: "tcb list \<Rightarrow> u16" where
  "registered_mask ts =
     fold (\<lambda>(idx, t) mask. if stack_base t \<noteq> 0 then mask OR push_bit idx 1 else mask)
       (enumerate 0 ts) 0"

definition set_critical_task_mask :: "u16 \<Rightarrow> per_core_scheduler \<Rightarrow> per_core_scheduler" where
  "set_critical_task_mask m s =
     (let mask = m AND registered_mask (tasks s) in
      s\<lparr>critical_task_mask := mask, watchdog_matrix := watchdog_matrix s AND mask\<rparr>)"

definition canary_ok :: "(u64 \<Rightarrow> u64) \<Rightarrow> tcb \<Rightarrow> u64 \<Rightarrow> bool" where
  "canary_ok mem t sp \<longleftrightarrow> valid_stack_pointer t sp \<and> mem (stack_base t) = stack_canary t"

definition select_task :: "u16 \<Rightarrow> nat" where
  "select_task bitmap =
     (let next_idx = trailing_zeros bitmap in if next_idx \<ge> MAX_TASKS then 15 else next_idx)"

text \<open>The second half of a tick: selection, validation, watchdog and switch.\<close>

definition dispatch_next :: "(u64 \<Rightarrow> u64) \<Rightarrow> (per_core_scheduler \<times> rtos_host, u64) prog" where
  "dispatch_next mem = bindP getP (\<lambda>s.
     let next_idx = select_task (ready_bitmap s);
         next_tcb = tasks s ! next_idx in
     if stack_base next_tcb \<noteq> 0 \<and> \<not> canary_ok mem next_tcb (rsp next_tcb) then ret 0
     else if stack_base next_tcb = 0 \<and>
        (next_idx \<noteq> 15 \<or> ready_bitmap s AND push_bit next_idx 1 \<noteq> 0) then ret 0
     else
       seqP (if critical_task_mask s \<noteq> 0 \<and>
                watchdog_matrix s AND critical_task_mask s = critical_task_mask s
             then seqP (hostP host_pet_watchdog) (modP (\<lambda>s. s\<lparr>watchdog_matrix := 0\<rparr>))
             else ret ())
      (seqP (modP (\<lambda>s. s\<lparr>current_task := of_nat next_idx\<rparr>))
      (bindP getP (\<lambda>s. ret (rsp (tasks s ! next_idx))))))"

definition schedule_tick ::
  "(u64 \<Rightarrow> u64) \<Rightarrow> u64 \<Rightarrow> (per_core_scheduler \<times> rtos_host, u64) prog" where
  "schedule_tick mem current_rsp = bindP getP (\<lambda>s.
     let current_idx = unat (current_task s) in
     if current_idx \<ge> MAX_TASKS then ret 0
     else if current_rsp \<noteq> 0 \<and> stack_base (tasks s ! current_idx) \<noteq> 0
     then
       (if \<not> canary_ok mem (tasks s ! current_idx) current_rsp then ret 0
        else
          seqP (modP (\<lambda>s. s\<lparr>tasks := (tasks s)[current_idx :=
                  (tasks s ! current_idx)\<lparr>rsp := current_rsp\<rparr>]\<rparr>))
               (dispatch_next mem))
     else dispatch_next mem)"

subsection \<open>Invariant\<close>

definition task_slot_ok :: "nat \<Rightarrow> tcb \<Rightarrow> bool" where
  "task_slot_ok i t \<longleftrightarrow>
     (if stack_base t = 0 then t = tcb_new
      else entry_point t \<noteq> 0 \<and> unat (priority t) = i \<and> valid_stack_pointer t (rsp t))"

definition sched_inv :: "per_core_scheduler \<Rightarrow> bool" where
  "sched_inv s \<longleftrightarrow>
     length (tasks s) = MAX_TASKS \<and> unat (current_task s) < MAX_TASKS \<and>
     (\<forall>i<MAX_TASKS. task_slot_ok i (tasks s ! i)) \<and>
     (\<forall>i. bit (watchdog_matrix s) i \<or> bit (critical_task_mask s) i \<longrightarrow>
        stack_base (tasks s ! i) \<noteq> 0)"

definition current_fault :: "(u64 \<Rightarrow> u64) \<Rightarrow> u64 \<Rightarrow> per_core_scheduler \<Rightarrow> bool" where
  "current_fault mem sp s \<longleftrightarrow>
     (let t = tasks s ! unat (current_task s) in
      sp \<noteq> 0 \<and> stack_base t \<noteq> 0 \<and> \<not> canary_ok mem t sp)"

definition saved_context :: "u64 \<Rightarrow> per_core_scheduler \<Rightarrow> per_core_scheduler" where
  "saved_context sp s =
     (let i = unat (current_task s) in
      if sp \<noteq> 0 \<and> stack_base (tasks s ! i) \<noteq> 0
      then s\<lparr>tasks := (tasks s)[i := (tasks s ! i)\<lparr>rsp := sp\<rparr>]\<rparr> else s)"

definition next_fault :: "(u64 \<Rightarrow> u64) \<Rightarrow> per_core_scheduler \<Rightarrow> bool" where
  "next_fault mem s \<longleftrightarrow>
     (let i = select_task (ready_bitmap s); t = tasks s ! i in
      if stack_base t = 0 then bit (ready_bitmap s) i else \<not> canary_ok mem t (rsp t))"

definition all_checked_in :: "per_core_scheduler \<Rightarrow> bool" where
  "all_checked_in s \<longleftrightarrow> critical_task_mask s \<noteq> 0 \<and>
     (\<forall>i. bit (critical_task_mask s) i \<longrightarrow> bit (watchdog_matrix s) i)"

subsection \<open>Lemmas\<close>

lemma bit_exp_u16: "bit (2 ^ i :: u16) j \<longleftrightarrow> i = j \<and> j < 16"
  by (auto simp: bit_exp_iff dest: bit_imp_le_length)

lemma and_exp_u16: "(w :: u16) AND 2 ^ i \<noteq> 0 \<longleftrightarrow> bit w i"
  by (simp add: and_exp_eq_0_iff_not_bit)

lemma and_eq_mask: "(w :: u16) AND m = m \<longleftrightarrow> (\<forall>i. bit m i \<longrightarrow> bit w i)"
  using bit_imp_le_length [of m] by (auto simp: bit_eq_iff bit_and_iff)

lemma select_task_less: "select_task w < 16"
  by (simp add: select_task_def Let_def MAX_TASKS_def)

lemma select_task_ready:
  "w \<noteq> 0 \<Longrightarrow> bit w (select_task w) \<and> (\<forall>i < select_task w. \<not> bit w i)"
  using trailing_zeros_less [of w] trailing_zeros_none [of w]
  by (auto simp: select_task_def Let_def MAX_TASKS_def)

lemma select_task_idle: "select_task 0 = 15"
proof -
  have "trailing_zeros (0 :: u16) = 16"
    using trailing_zeros_less(1) [of "0 :: u16"]
    by (auto simp: trailing_zeros_def find_Some_iff split: option.splits)
  then show ?thesis by (simp add: select_task_def MAX_TASKS_def)
qed

lemma select_task_fault:
  "(select_task w \<noteq> 15 \<or> bit w (select_task w)) = bit w (select_task w)"
  using select_task_ready [of w] select_task_idle by (cases "w = 0") auto

lemma u8_less_16: "(p :: u8) < 16 \<longleftrightarrow> unat p < 16"
  by (simp add: word_less_nat_alt)

lemma bit_registered_mask:
  assumes "length ts = 16"
  shows "bit (registered_mask ts) i \<longleftrightarrow> i < 16 \<and> stack_base (ts ! i) \<noteq> 0"
proof -
  have "bit (fold (\<lambda>(idx, t) mask. if stack_base t \<noteq> 0 then mask OR push_bit idx 1 else mask)
      (enumerate n us) m :: u16) i \<longleftrightarrow>
    bit m i \<or> i < 16 \<and> n \<le> i \<and> i < n + length us \<and> stack_base (us ! (i - n)) \<noteq> 0" for n us m
    by (induction us arbitrary: n m)
      (auto simp: bit_or_iff bit_exp_u16 nth_Cons' Suc_le_eq split: if_splits)
  from this [of 0 ts 0] show ?thesis
    using assms by (simp add: registered_mask_def)
qed

lemma schedule_tick_current_fault:
  assumes "unat (current_task s) < MAX_TASKS" "current_fault mem sp s"
  shows "schedule_tick mem sp (s, h) = Ret 0 (s, h)"
  using assms by (simp add: schedule_tick_def current_fault_def Let_def)

lemma next_fault_iff:
  "next_fault mem s \<longleftrightarrow>
    (let i = select_task (ready_bitmap s); t = tasks s ! i in
     stack_base t \<noteq> 0 \<and> \<not> canary_ok mem t (rsp t) \<or>
     stack_base t = 0 \<and> (i \<noteq> 15 \<or> ready_bitmap s AND push_bit i 1 \<noteq> 0))"
  using select_task_fault [of "ready_bitmap s"]
  by (auto simp: next_fault_def Let_def and_exp_eq_0_iff_not_bit)

lemma all_checked_in_iff:
  "all_checked_in s \<longleftrightarrow> critical_task_mask s \<noteq> 0 \<and>
     watchdog_matrix s AND critical_task_mask s = critical_task_mask s"
  by (simp add: all_checked_in_def and_eq_mask)

lemma dispatch_fault:
  "next_fault mem s \<Longrightarrow> dispatch_next mem (s, h) = Ret 0 (s, h)"
  unfolding next_fault_iff dispatch_next_def Let_def by (auto simp del: push_bit_of_1)

lemma dispatch_pet:
  assumes "\<not> next_fault mem s" "all_checked_in s"
  shows "dispatch_next mem (s, h) =
    (if pet_watchdog_cb h = 0 then Halt (s, invoke_panic_hook h)
     else Ret (rsp (tasks s ! select_task (ready_bitmap s)))
       (s\<lparr>watchdog_matrix := 0, current_task := of_nat (select_task (ready_bitmap s))\<rparr>,
        log_call (pet_watchdog_cb h) PetWatchdog h))"
  using assms unfolding next_fault_iff all_checked_in_iff dispatch_next_def Let_def
  by (auto simp: host_simps simp del: push_bit_of_1)

lemma dispatch_plain:
  assumes "\<not> next_fault mem s" "\<not> all_checked_in s"
  shows "dispatch_next mem (s, h) =
    Ret (rsp (tasks s ! select_task (ready_bitmap s)))
      (s\<lparr>current_task := of_nat (select_task (ready_bitmap s))\<rparr>, h)"
  using assms unfolding next_fault_iff all_checked_in_iff dispatch_next_def Let_def
  by (auto simp del: push_bit_of_1)

lemma schedule_tick_dispatch:
  assumes "unat (current_task s) < MAX_TASKS" "\<not> current_fault mem sp s"
  shows "schedule_tick mem sp (s, h) = dispatch_next mem (saved_context sp s, h)"
  using assms by (auto simp: schedule_tick_def current_fault_def saved_context_def Let_def)

lemma valid_stack_pointer_fields [simp]:
  "valid_stack_pointer (t\<lparr>rsp := x\<rparr>) y = valid_stack_pointer t y"
  "valid_stack_pointer (t\<lparr>stack_canary := c\<rparr>) y = valid_stack_pointer t y"
  by (simp_all add: valid_stack_pointer_def cong: option.case_cong)

lemma valid_stack_pointer_base: "valid_stack_pointer t sp \<Longrightarrow> stack_base t \<noteq> 0"
  by (auto simp: valid_stack_pointer_def split: option.splits)

lemma saved_context_fields [simp]:
  "ready_bitmap (saved_context sp s) = ready_bitmap s"
  "current_task (saved_context sp s) = current_task s"
  "watchdog_matrix (saved_context sp s) = watchdog_matrix s"
  "critical_task_mask (saved_context sp s) = critical_task_mask s"
  "all_checked_in (saved_context sp s) = all_checked_in s"
  by (simp_all add: saved_context_def Let_def all_checked_in_def)

lemma sched_inv_new: "sched_inv scheduler_new"
  by (simp add: sched_inv_def scheduler_new_def task_slot_ok_def MAX_TASKS_def tcb_new_def)

lemma sched_inv_saved:
  assumes "sched_inv s" "\<not> current_fault mem sp s"
  shows "sched_inv (saved_context sp s)"
proof -
  let ?i = "unat (current_task s)"
  have i: "?i < MAX_TASKS" and len: "length (tasks s) = MAX_TASKS"
    using assms(1) by (auto simp: sched_inv_def)
  show ?thesis
  proof (cases "sp \<noteq> 0 \<and> stack_base (tasks s ! ?i) \<noteq> 0")
    case True
    then have "task_slot_ok ?i ((tasks s ! ?i)\<lparr>rsp := sp\<rparr>)"
      using assms i by (auto simp: sched_inv_def current_fault_def canary_ok_def task_slot_ok_def Let_def)
    then show ?thesis
      using True assms(1) len i by (auto simp: sched_inv_def saved_context_def Let_def nth_list_update)
  qed (use assms(1) in \<open>auto simp: saved_context_def Let_def\<close>)
qed

lemma sched_inv_create:
  assumes "sched_inv s" "create_task t c mem s = (r, mem', s')"
  shows "sched_inv s'"
  using assms valid_stack_pointer_base [of t "rsp t"]
  by (auto simp: create_task_def sched_inv_def Let_def task_slot_ok_def nth_list_update
      word_le_nat_alt MAX_TASKS_def split: if_splits)

lemma sched_inv_check_in:
  assumes "sched_inv s"
  shows "sched_inv (task_check_in p s)"
  using assms
  by (auto simp: task_check_in_def sched_inv_def bit_or_iff bit_exp_u16)

lemma sched_inv_critical:
  assumes "sched_inv s"
  shows "sched_inv (set_critical_task_mask m s)"
  using assms
  by (auto simp: set_critical_task_mask_def sched_inv_def Let_def bit_and_iff bit_registered_mask
      MAX_TASKS_def)

lemma sched_inv_ready: "sched_inv s \<Longrightarrow> sched_inv (set_ready p s)"
  "sched_inv s \<Longrightarrow> sched_inv (clear_ready p s)"
  by (auto simp: set_ready_def clear_ready_def sched_inv_def)

lemma unat_select_task: "unat (of_nat (select_task w) :: usize) = select_task w"
  using less_trans [OF select_task_less [of w], of "2 ^ 64"] by (simp add: unat_of_nat)

lemma sched_inv_dispatch:
  assumes "sched_inv s" "dispatch_next mem (s, h) = Ret r (s', h')"
  shows "sched_inv s'"
proof (cases "next_fault mem s")
  case True
  then show ?thesis using assms by (simp add: dispatch_fault)
next
  case False
  then show ?thesis
    using assms select_task_less [of "ready_bitmap s"]
    by (cases "all_checked_in s")
      (auto simp: dispatch_pet dispatch_plain sched_inv_def unat_select_task MAX_TASKS_def
        split: if_splits)
qed

lemma sched_inv_tick:
  assumes "sched_inv s" "schedule_tick mem sp (s, h) = Ret r (s', h')"
  shows "sched_inv s'"
proof (cases "current_fault mem sp s")
  case True
  then show ?thesis
    using assms by (simp add: sched_inv_def schedule_tick_current_fault)
next
  case False
  then show ?thesis
    using assms sched_inv_dispatch [OF sched_inv_saved [OF assms(1) False]]
    by (auto simp: sched_inv_def [of s] schedule_tick_dispatch)
qed

subsection \<open>Reachable schedulers\<close>

text \<open>
  The states a host can bring a scheduler into, each with the priorities that checked in since
  the watchdog was last petted.  A tick sees the stack memory as the tasks have left it.
\<close>

inductive sched_reach :: "per_core_scheduler \<Rightarrow> rtos_host \<Rightarrow> nat set \<Rightarrow> bool" where
  new: "sched_reach scheduler_new h {}"
| create: "sched_reach s h W \<Longrightarrow> create_task t c mem s = (r, mem', s') \<Longrightarrow> sched_reach s' h W"
| ready: "sched_reach s h W \<Longrightarrow> sched_reach (set_ready p s) h W"
| block: "sched_reach s h W \<Longrightarrow> sched_reach (clear_ready p s) h W"
| check_in: "sched_reach s h W \<Longrightarrow> sched_reach (task_check_in p s) h (insert (unat p) W)"
| critical: "sched_reach s h W \<Longrightarrow> sched_reach (set_critical_task_mask m s) h W"
| tick: "sched_reach s h W \<Longrightarrow> schedule_tick mem sp (s, h) = Ret r (s', h') \<Longrightarrow>
    sched_reach s' h' (if host_calls h' = host_calls h then W else {})"

lemma sched_reach_inv: "sched_reach s h W \<Longrightarrow> sched_inv s"
  by (induction rule: sched_reach.induct)
    (auto intro: sched_inv_new sched_inv_create sched_inv_ready sched_inv_check_in
      sched_inv_critical sched_inv_tick)

lemma tick_calls:
  assumes "unat (current_task s) < MAX_TASKS" "schedule_tick mem sp (s, h) = Ret r (s', h')"
  shows "host_calls h' = host_calls h \<and> watchdog_matrix s' = watchdog_matrix s \<or>
    host_calls h' = host_calls h @ [(pet_watchdog_cb h, PetWatchdog)] \<and> watchdog_matrix s' = 0 \<and>
    all_checked_in s"
proof (cases "current_fault mem sp s")
  case True
  then show ?thesis using assms by (simp add: schedule_tick_current_fault)
next
  case False
  then have d: "dispatch_next mem (saved_context sp s, h) = Ret r (s', h')"
    using assms by (simp add: schedule_tick_dispatch)
  show ?thesis
  proof (cases "next_fault mem (saved_context sp s)")
    case True
    then show ?thesis using d by (auto simp: dispatch_fault)
  next
    case False
    then show ?thesis
      using d by (cases "all_checked_in s")
        (auto simp: dispatch_pet dispatch_plain split: if_splits)
  qed
qed

lemma window_covers_matrix:
  "sched_reach s h W \<Longrightarrow> bit (watchdog_matrix s) i \<Longrightarrow> i \<in> W"
proof (induction arbitrary: i rule: sched_reach.induct)
  case (tick s h W mem sp r s' h')
  have "unat (current_task s) < MAX_TASKS"
    using sched_reach_inv [OF tick(1)] by (simp add: sched_inv_def)
  from tick_calls [OF this tick(2)] show ?case
    using tick by (auto split: if_splits)
qed (auto simp: scheduler_new_def create_task_def set_ready_def clear_ready_def task_check_in_def
    set_critical_task_mask_def Let_def bit_or_iff bit_and_iff bit_exp_u16 split: if_splits)

subsection \<open>Properties\<close>

text \<open>C26: Every scheduler state a host can reach, by any sequence of registrations, readiness
  changes, check-ins, mask changes and ticks over any stack memory, is well formed: sixteen slots,
  a current index among them, every registered slot holding a task of exactly that priority with a
  non-zero entry point and a saved stack pointer inside its stack above the canary word, every
  other slot empty, and watchdog bits only of registered tasks.\<close>

theorem scheduler_reachable_wf:
  assumes "sched_reach s h W"
  shows "sched_inv s"
  using assms by (rule sched_reach_inv)

definition demo_tcb :: tcb where
  "demo_tcb = tcb_new_task 0x1000 0x2000 4096 0x3000 3"

definition demo_sched :: per_core_scheduler where
  "demo_sched = set_critical_task_mask 8 (snd (snd (create_task demo_tcb 77 (\<lambda>_. 0) scheduler_new)))"

lemma demo_tcb_valid: "valid_stack_pointer demo_tcb 0x3000" "valid_stack_pointer demo_tcb 0x2800"
  by (simp_all add: valid_stack_pointer_def demo_tcb_def tcb_new_task_def checked_add_def is_multiple_of_def)

lemma demo_create:
  "create_task demo_tcb 77 (\<lambda>_. 0) scheduler_new = (Ok (), (\<lambda>_. 0)(0x2000 := 77),
     scheduler_new\<lparr>tasks := (replicate 16 tcb_new)[3 := demo_tcb\<lparr>stack_canary := 77\<rparr>], ready_bitmap := 8\<rparr>)"
proof -
  have "rsp demo_tcb = 0x3000" "entry_point demo_tcb = 0x1000" "priority demo_tcb = 3"
    "stack_base demo_tcb = 0x2000"
    by (simp_all add: demo_tcb_def tcb_new_task_def)
  then show ?thesis
    by (simp add: create_task_def demo_tcb_valid scheduler_new_def MAX_TASKS_def Let_def tcb_new_def)
qed

lemma select_task_demo: "select_task 8 = 3"
  by (simp add: select_task_def trailing_zeros_def MAX_TASKS_def upt_rec bit_numeral_rec)

lemma demo_sched_eq:
  "demo_sched = \<lparr>tasks = (replicate 16 tcb_new)[3 := demo_tcb\<lparr>stack_canary := 77\<rparr>],
     ready_bitmap = 8, current_task = 15, watchdog_matrix = 0, critical_task_mask = 8\<rparr>"
proof -
  have "8 AND registered_mask ((replicate 16 tcb_new)[3 := demo_tcb\<lparr>stack_canary := 77\<rparr>]) = 8"
    unfolding and_eq_mask [of _ 8, folded and.commute [of 8]]
    by (auto simp: bit_registered_mask bit_exp_u16 [of 3, simplified] demo_tcb_def tcb_new_task_def)
  then show ?thesis
    unfolding demo_sched_def demo_create snd_conv
    by (simp add: set_critical_task_mask_def scheduler_new_def)
qed

lemma demo_reach: "sched_reach demo_sched h {}"
  unfolding demo_sched_def demo_create snd_conv
  by (rule sched_reach.critical, rule sched_reach.create [OF sched_reach.new demo_create])

definition demo_mem :: "u64 \<Rightarrow> u64" where
  "demo_mem = (\<lambda>_. 0)(0x2000 := 77)"

lemma demo_nth:
  "tasks demo_sched ! 3 = demo_tcb\<lparr>stack_canary := 77\<rparr>" "rsp demo_tcb = 0x3000"
  "stack_base demo_tcb = 0x2000" "tasks (task_check_in 3 demo_sched) = tasks demo_sched"
  "ready_bitmap (task_check_in 3 demo_sched) = 8"
  by (simp_all add: demo_sched_eq demo_tcb_def tcb_new_task_def task_check_in_def)

lemma demo_matrix: "watchdog_matrix (task_check_in 3 demo_sched) = 8"
  "critical_task_mask (task_check_in 3 demo_sched) = 8"
  by (simp_all add: task_check_in_def demo_nth) (simp_all add: demo_sched_eq)

lemma demo_checked:
  "sched_inv (task_check_in 3 demo_sched)"
  "\<not> next_fault demo_mem (task_check_in 3 demo_sched)"
  "all_checked_in (task_check_in 3 demo_sched)"
  "ready_bitmap (task_check_in 3 demo_sched) \<noteq> 0"
  "bit (ready_bitmap (task_check_in 3 demo_sched)) i \<longleftrightarrow> i = 3"
proof -
  show "sched_inv (task_check_in 3 demo_sched)"
    by (rule sched_reach_inv, rule sched_reach.check_in, rule demo_reach)
  show "\<not> next_fault demo_mem (task_check_in 3 demo_sched)"
    by (simp add: next_fault_def Let_def demo_nth select_task_demo canary_ok_def demo_tcb_valid
        demo_mem_def)
  show "all_checked_in (task_check_in 3 demo_sched)"
    by (simp add: all_checked_in_def demo_matrix)
  show "ready_bitmap (task_check_in 3 demo_sched) \<noteq> 0" by (simp add: demo_nth)
  show "bit (ready_bitmap (task_check_in 3 demo_sched)) i \<longleftrightarrow> i = 3"
    unfolding demo_nth using bit_exp_u16 [of 3 i] by auto
qed

theorem scheduler_reachable_wf_witness: "sched_inv demo_sched"
  using scheduler_reachable_wf [OF demo_reach] .

text \<open>C27: On a well-formed scheduler whose current and next contexts pass validation, on a host
  with a registered watchdog callback, a tick saves the interrupted stack pointer, switches to the ready task of the lowest index (to slot 15
  when none is ready) and returns its saved stack pointer; it pets the watchdog exactly when the
  critical mask is not empty and all its tasks have checked in, and then opens a new window.\<close>

theorem schedule_tick_switches:
  assumes "sched_inv s" "\<not> current_fault mem sp s" "\<not> next_fault mem (saved_context sp s)"
    and "pet_watchdog_cb h \<noteq> 0"
  shows "\<exists>i s' h'. schedule_tick mem sp (s, h) = Ret (rsp (tasks s' ! i)) (s', h') \<and>
    unat (current_task s') = i \<and> tasks s' = tasks (saved_context sp s) \<and>
    (if ready_bitmap s = 0 then i = 15
     else bit (ready_bitmap s) i \<and> (\<forall>j < i. \<not> bit (ready_bitmap s) j)) \<and>
    (if all_checked_in s
     then watchdog_matrix s' = 0 \<and> h' = log_call (pet_watchdog_cb h) PetWatchdog h
     else watchdog_matrix s' = watchdog_matrix s \<and> h' = h)"
proof -
  have "unat (current_task s) < MAX_TASKS" using assms(1) by (simp add: sched_inv_def)
  note tick = schedule_tick_dispatch [OF this assms(2), of h]
  show ?thesis
    using assms(3,4) select_task_ready [of "ready_bitmap s"] select_task_idle
    by (cases "all_checked_in s")
      (auto simp: tick dispatch_pet dispatch_plain unat_select_task)
qed

theorem schedule_tick_switches_witness:
  "\<exists>s' h'. schedule_tick demo_mem 0 (task_check_in 3 demo_sched, demo_host) = Ret 0x3000 (s', h') \<and>
     unat (current_task s') = 3 \<and> h' = log_call 6 PetWatchdog demo_host"
proof -
  have pet: "pet_watchdog_cb demo_host = 6" by (simp add: demo_host_def)
  have "\<not> current_fault demo_mem 0 (task_check_in 3 demo_sched)"
    by (simp add: current_fault_def Let_def)
  moreover have sv: "saved_context 0 (task_check_in 3 demo_sched) = task_check_in 3 demo_sched"
    by (simp add: saved_context_def Let_def)
  ultimately obtain i s' h' where t: "schedule_tick demo_mem 0 (task_check_in 3 demo_sched, demo_host) =
      Ret (rsp (tasks s' ! i)) (s', h')" "unat (current_task s') = i" "tasks s' = tasks demo_sched"
      "bit (ready_bitmap (task_check_in 3 demo_sched)) i" "h' = log_call 6 PetWatchdog demo_host"
    using schedule_tick_switches [OF demo_checked(1), of demo_mem 0 demo_host] demo_checked(2-4)
    by (auto simp: pet demo_nth(4) simp del: demo_nth(5))
  from t(4) have "i = 3" by (simp only: demo_checked(5))
  then show ?thesis using t by (auto simp: demo_nth)
qed

text \<open>A tick that finds a current index out of range, a corrupted canary, a stack pointer
  outside its stack, or a ready task with no registered stack answers 0, calls no host function, so
  that the watchdog is not refreshed, and leaves the current task and the check-ins alone.\<close>

theorem schedule_tick_fails_closed:
  assumes "unat (current_task s) \<ge> MAX_TASKS \<or> current_fault mem sp s \<or>
    next_fault mem (saved_context sp s)"
  shows "\<exists>s'. schedule_tick mem sp (s, h) = Ret 0 (s', h) \<and> current_task s' = current_task s \<and>
    watchdog_matrix s' = watchdog_matrix s \<and> (s' = s \<or> s' = saved_context sp s)"
proof (cases "unat (current_task s) < MAX_TASKS \<and> \<not> current_fault mem sp s")
  case True
  then show ?thesis
    using assms by (auto simp: schedule_tick_dispatch dispatch_fault)
next
  case False
  have "schedule_tick mem sp (s, h) = Ret 0 (s, h)"
  proof (cases "unat (current_task s) < MAX_TASKS")
    case True
    then show ?thesis using False by (intro schedule_tick_current_fault) simp_all
  next
    case False
    then show ?thesis by (simp add: schedule_tick_def)
  qed
  then show ?thesis by simp
qed

theorem schedule_tick_fails_closed_witness:
  "\<exists>s'. schedule_tick (\<lambda>_. 0) 0 (task_check_in 3 demo_sched, demo_host) = Ret 0 (s', demo_host) \<and>
     current_task s' = 15 \<and> watchdog_matrix s' = 8"
proof -
  have "next_fault (\<lambda>_. 0) (saved_context 0 (task_check_in 3 demo_sched))"
    by (simp add: saved_context_def next_fault_def Let_def demo_nth select_task_demo canary_ok_def)
  moreover have "current_task (task_check_in 3 demo_sched) = 15"
    by (simp add: task_check_in_def demo_sched_eq)
  ultimately show ?thesis
    using schedule_tick_fails_closed [of "task_check_in 3 demo_sched" "\<lambda>_. 0" 0 demo_host]
    by (auto simp: demo_matrix)
qed

text \<open>C39: In every reachable scheduler, when a tick reaches the host at all it makes exactly one
  call, the watchdog pet, and every task of the critical mask has checked in since the previous
  pet.\<close>

theorem watchdog_needs_all_check_ins:
  assumes "sched_reach s h W" "schedule_tick mem sp (s, h) = Ret r (s', h')"
    and "host_calls h' \<noteq> host_calls h"
  shows "host_calls h' = host_calls h @ [(pet_watchdog_cb h, PetWatchdog)] \<and>
    critical_task_mask s \<noteq> 0 \<and> (\<forall>i. bit (critical_task_mask s) i \<longrightarrow> i \<in> W)"
proof -
  have "unat (current_task s) < MAX_TASKS"
    using sched_reach_inv [OF assms(1)] by (simp add: sched_inv_def)
  from tick_calls [OF this assms(2)] show ?thesis
    using assms(3) window_covers_matrix [OF assms(1)] by (auto simp: all_checked_in_def)
qed

theorem watchdog_needs_all_check_ins_witness:
  "\<exists>r s' h'. schedule_tick demo_mem 0 (task_check_in 3 demo_sched, demo_host) = Ret r (s', h') \<and>
     host_calls h' = [(6, PetWatchdog)] \<and> critical_task_mask (task_check_in 3 demo_sched) = 8 \<and>
     (\<forall>i. bit (8 :: u16) i \<longrightarrow> i \<in> {3})"
proof -
  have pet: "pet_watchdog_cb demo_host = 6" "host_calls demo_host = []" by (simp_all add: demo_host_def)
  have "schedule_tick demo_mem 0 (task_check_in 3 demo_sched, demo_host) =
      dispatch_next demo_mem (task_check_in 3 demo_sched, demo_host)"
    using demo_checked(1)
    by (subst schedule_tick_dispatch) (simp_all add: sched_inv_def current_fault_def saved_context_def Let_def)
  then obtain r s' h' where t: "schedule_tick demo_mem 0 (task_check_in 3 demo_sched, demo_host) = Ret r (s', h')"
      "host_calls h' = [(6, PetWatchdog)]"
    using dispatch_pet [OF demo_checked(2,3), of demo_host] pet by auto
  have "sched_reach (task_check_in 3 demo_sched) demo_host {3}"
    using sched_reach.check_in [OF demo_reach, of 3 demo_host] by simp
  from watchdog_needs_all_check_ins [OF this t(1)] show ?thesis
    using t pet by (auto simp: demo_matrix)
qed

text \<open>create_task accepts a task exactly when its entry point is not null, its priority is
  below 16, its stack pointer lies inside an aligned non-null stack above the canary word and its
  slot is free; it then writes the canary word, stores the task and makes it ready, and otherwise
  changes nothing.\<close>

theorem create_task_correct:
  assumes "sched_inv s"
  shows "create_task t c mem s =
    (if entry_point t \<noteq> 0 \<and> unat (priority t) < 16 \<and> valid_stack_pointer t (rsp t) \<and>
        tasks s ! unat (priority t) = tcb_new
     then (Ok (), mem(stack_base t := c),
       s\<lparr>tasks := (tasks s)[unat (priority t) := t\<lparr>stack_canary := c\<rparr>],
         ready_bitmap := ready_bitmap s OR 2 ^ unat (priority t)\<rparr>)
     else (Err TaskFault, mem, s))"
proof -
  have "(tasks s ! unat (priority t) = tcb_new) = (stack_base (tasks s ! unat (priority t)) = 0)"
    if "unat (priority t) < 16"
  proof -
    have "task_slot_ok (unat (priority t)) (tasks s ! unat (priority t))"
      using assms that by (simp add: sched_inv_def MAX_TASKS_def)
    moreover have "stack_base tcb_new = 0" by (simp add: tcb_new_def)
    ultimately show ?thesis by (metis task_slot_ok_def)
  qed
  then have guard: "(entry_point t = 0 \<or> priority t \<ge> 16 \<or> \<not> valid_stack_pointer t (rsp t)
         \<or> stack_base (tasks s ! unat (priority t)) \<noteq> 0) =
     (\<not> (entry_point t \<noteq> 0 \<and> unat (priority t) < 16 \<and> valid_stack_pointer t (rsp t) \<and>
        tasks s ! unat (priority t) = tcb_new))"
    by (auto simp: word_le_nat_alt)
  show ?thesis
    unfolding create_task_def guard
    using valid_stack_pointer_base [of t "rsp t"] by (simp add: Let_def)
qed

theorem create_task_correct_witness:
  "fst (create_task demo_tcb 77 (\<lambda>_. 0) scheduler_new) = Ok () \<and>
   fst (create_task demo_tcb 77 (\<lambda>_. 0) demo_sched) = Err TaskFault"
proof -
  have f: "priority demo_tcb = 3" "entry_point demo_tcb = 0x1000"
    by (simp_all add: demo_tcb_def tcb_new_task_def)
  have "tasks scheduler_new ! 3 = tcb_new" by (simp add: scheduler_new_def MAX_TASKS_def)
  moreover have "tasks demo_sched ! 3 \<noteq> tcb_new" by (simp add: demo_nth demo_tcb_def tcb_new_task_def tcb_new_def)
  ultimately show ?thesis
    using create_task_correct [OF sched_inv_new, of demo_tcb 77 "\<lambda>_. 0"]
      create_task_correct [OF sched_reach_inv [OF demo_reach], of demo_tcb 77 "\<lambda>_. 0"]
    by (simp add: f demo_nth demo_tcb_valid)
qed

end
