(* ===== verification/Ffi_Memory.thy ===== *)
theory Ffi_Memory
  imports Shawn_Prelude
begin

text \<open>
  The memory behind the C boundary of both crates: bytes at addresses, and the typed objects that
  live in host-allocated storage.  Sizes and alignments of the Rust types are decided by the
  compiler, so they are parameters, and so are the bytes that represent an object.  Writing bytes or
  an object destroys every object whose storage it meets; reading an address where no object of
  the expected type lives is undefined.  A pointer is its address and 0 is the null pointer.
\<close>

named_theorems frame_intros "what a boundary function may write"
named_theorems keep_intros "what a boundary function keeps of the objects"

record type_layout =
  layout_size :: usize
  layout_align :: usize

record 'o memory =
  mem_bytes :: "usize \<Rightarrow> u8"
  mem_objs :: "usize \<Rightarrow> 'o option"

record 'o obj_model =
  obj_size :: "'o \<Rightarrow> usize"
  obj_repr :: "'o \<Rightarrow> nat \<Rightarrow> u8"

text \<open>A region is an address and a length.\<close>

type_synonym region = "usize \<times> usize"

fun in_region :: "region \<Rightarrow> usize \<Rightarrow> bool" where
  "in_region (a, n) x \<longleftrightarrow> unat (x - a) < unat n"

fun regions_meet :: "region \<Rightarrow> region \<Rightarrow> bool" where
  "regions_meet (a, n) (b, m) \<longleftrightarrow>
     n \<noteq> 0 \<and> m \<noteq> 0 \<and> (unat (b - a) < unat n \<or> unat (a - b) < unat m)"

definition put_bytes :: "usize \<Rightarrow> bytes \<Rightarrow> (usize \<Rightarrow> u8) \<Rightarrow> usize \<Rightarrow> u8" where
  "put_bytes p bs f = (\<lambda>x. if unat (x - p) < length bs then bs ! unat (x - p) else f x)"

definition clobber :: "'o obj_model \<Rightarrow> region \<Rightarrow> (usize \<Rightarrow> 'o option) \<Rightarrow> usize \<Rightarrow> 'o option" where
  "clobber M r objs = (\<lambda>q. case objs q of
     Some x \<Rightarrow> if regions_meet (q, obj_size M x) r then None else Some x
   | None \<Rightarrow> None)"

definition bytes_at :: "'o memory \<Rightarrow> usize \<Rightarrow> nat \<Rightarrow> bytes" where
  "bytes_at m p n = map (\<lambda>i. mem_bytes m (p + of_nat i)) [0..<n]"

definition read_bytes :: "usize \<Rightarrow> nat \<Rightarrow> ('o memory \<times> 'h, bytes) prog" where
  "read_bytes p n = bindP getP (\<lambda>m. ret (bytes_at m p n))"

definition written :: "'o obj_model \<Rightarrow> usize \<Rightarrow> bytes \<Rightarrow> 'o memory \<Rightarrow> 'o memory" where
  "written M p bs m = m\<lparr>mem_bytes := put_bytes p bs (mem_bytes m),
     mem_objs := clobber M (p, of_nat (length bs)) (mem_objs m)\<rparr>"

definition write_bytes :: "'o obj_model \<Rightarrow> usize \<Rightarrow> bytes \<Rightarrow> ('o memory \<times> 'h, unit) prog" where
  "write_bytes M p bs = modP (written M p bs)"

text \<open>A slice formed from a pointer and a length; a zero length gives the empty slice.\<close>

definition slice_from_raw_parts :: "usize \<Rightarrow> usize \<Rightarrow> ('o memory \<times> 'h, bytes) prog" where
  "slice_from_raw_parts p len = (if len > 0 then read_bytes p (unat len) else ret [])"

definition put_obj :: "'o obj_model \<Rightarrow> usize \<Rightarrow> 'o \<Rightarrow> 'o memory \<Rightarrow> 'o memory" where
  "put_obj M p x m = m\<lparr>
     mem_bytes := put_bytes p (map (obj_repr M x) [0..<unat (obj_size M x)]) (mem_bytes m),
     mem_objs := (clobber M (p, obj_size M x) (mem_objs m))(p \<mapsto> x)\<rparr>"

definition write_obj :: "'o obj_model \<Rightarrow> usize \<Rightarrow> 'o \<Rightarrow> ('o memory \<times> 'h, unit) prog" where
  "write_obj M p x = modP (put_obj M p x)"

definition read_obj :: "('o \<Rightarrow> 'a option) \<Rightarrow> usize \<Rightarrow> ('o memory \<times> 'h, 'a) prog" where
  "read_obj sel p = bindP getP (\<lambda>m. case Option.bind (mem_objs m p) sel of
     Some x \<Rightarrow> ret x | None \<Rightarrow> undefP)"

text \<open>An operation through a mutable reference: it runs on the object and the host.\<close>

definition on_obj ::
  "'o obj_model \<Rightarrow> ('o \<Rightarrow> 'a option) \<Rightarrow> ('a \<Rightarrow> 'o) \<Rightarrow> usize \<Rightarrow> ('a \<times> 'h, 'r) prog \<Rightarrow> ('o memory \<times> 'h, 'r) prog" where
  "on_obj M sel con p f = bindP (read_obj sel p) (\<lambda>x. (\<lambda>(m, h). case f (x, h) of
       Ret r (x', h') \<Rightarrow> Ret r (put_obj M p (con x') m, h')
     | Halt (x', h') \<Rightarrow> Halt (put_obj M p (con x') m, h')
     | Panic (x', h') \<Rightarrow> Panic (put_obj M p (con x') m, h')
     | Running (x', h') \<Rightarrow> Running (put_obj M p (con x') m, h')
     | Undef \<Rightarrow> Undef))"

text \<open>
  An object may keep a pointer to backing memory and write there.  The operation runs on the object;
  \<open>stores\<close> reads off the object before and after it what was stored to which address.
\<close>

definition store_all :: "'o obj_model \<Rightarrow> (usize \<times> bytes) list \<Rightarrow> 'o memory \<Rightarrow> 'o memory" where
  "store_all M ws m = fold (\<lambda>(p, bs). written M p bs) ws m"

definition on_backed ::
  "'o obj_model \<Rightarrow> ('o \<Rightarrow> 'a option) \<Rightarrow> ('a \<Rightarrow> 'o) \<Rightarrow> ('a \<Rightarrow> 'a \<Rightarrow> (usize \<times> bytes) list) \<Rightarrow> usize \<Rightarrow>
   ('a \<times> 'h, 'r) prog \<Rightarrow> ('o memory \<times> 'h, 'r) prog" where
  "on_backed M sel con stores p f = bindP (read_obj sel p) (\<lambda>x. (\<lambda>(m, h). case f (x, h) of
       Ret r (x', h') \<Rightarrow> Ret r (store_all M (stores x x') (put_obj M p (con x') m), h')
     | Halt (x', h') \<Rightarrow> Halt (store_all M (stores x x') (put_obj M p (con x') m), h')
     | Panic (x', h') \<Rightarrow> Panic (store_all M (stores x x') (put_obj M p (con x') m), h')
     | Running (x', h') \<Rightarrow> Running (store_all M (stores x x') (put_obj M p (con x') m), h')
     | Undef \<Rightarrow> Undef))"

text \<open>The end of an object's life: its storage holds no object afterwards.\<close>

definition forget_obj :: "usize \<Rightarrow> ('o memory \<times> 'h, unit) prog" where
  "forget_obj p = modP (\<lambda>m. m\<lparr>mem_objs := (mem_objs m)(p := None)\<rparr>)"

definition ptr_is_aligned :: "type_layout \<Rightarrow> usize \<Rightarrow> bool" where
  "ptr_is_aligned L p = is_multiple_of p (layout_align L)"

subsection \<open>Evaluation\<close>

lemma put_obj_lookup:
  "mem_objs (put_obj M p x m) q = (if q = p then Some x else clobber M (p, obj_size M x) (mem_objs m) q)"
  by (simp add: put_obj_def)

lemma read_obj_eval: "mem_objs m p = Some y \<Longrightarrow> sel y = Some x \<Longrightarrow> read_obj sel p (m, h) = Ret x (m, h)"
  by (simp add: read_obj_def)

lemma on_obj_eval:
  "mem_objs m p = Some y \<Longrightarrow> sel y = Some x \<Longrightarrow> f (x, h) = Ret r (x', h') \<Longrightarrow>
   on_obj M sel con p f (m, h) = Ret r (put_obj M p (con x') m, h')"
  by (simp add: on_obj_def read_obj_def)

lemma on_backed_eval:
  "mem_objs m p = Some y \<Longrightarrow> sel y = Some x \<Longrightarrow> f (x, h) = Ret r (x', h') \<Longrightarrow>
   on_backed M sel con stores p f (m, h) = Ret r (store_all M (stores x x') (put_obj M p (con x') m), h')"
  by (simp add: on_backed_def read_obj_def)

lemma read_bytes_eval [simp]: "read_bytes p n (m, h) = Ret (bytes_at m p n) (m, h)"
  by (simp add: read_bytes_def)

lemma slice_eval [simp]: "slice_from_raw_parts p len (m, h) = Ret (bytes_at m p (unat len)) (m, h)"
  by (auto simp: slice_from_raw_parts_def bytes_at_def word_gt_0)

lemma write_bytes_eval [simp]: "write_bytes M p bs (m, h) = Ret () (written M p bs m, h)"
  by (simp add: write_bytes_def)

lemma write_obj_eval [simp]: "write_obj M p x (m, h) = Ret () (put_obj M p x m, h)"
  by (simp add: write_obj_def)

lemma length_bytes_at [simp]: "length (bytes_at m p n) = n"
  by (simp add: bytes_at_def)

subsection \<open>Regions\<close>

lemma regions_meet_iff:
  "regions_meet r s \<longleftrightarrow> (\<exists>x. in_region r x \<and> in_region s x)"
proof (cases r, cases s)
  fix a n b m assume r: "r = (a, n)" "s = (b, m)"
  have "\<exists>x. unat (x - a) < unat n \<and> unat (x - b) < unat m"
    if "n \<noteq> 0" "m \<noteq> 0" "unat (b - a) < unat n \<or> unat (a - b) < unat m"
    using that by (metis diff_self unat_0 unat_gt_0)
  moreover have "unat (b - a) < unat n \<or> unat (a - b) < unat m"
    if x: "unat (x - a) < unat n" "unat (x - b) < unat m" for x
  proof (cases "x - a \<le> x - b")
    case True
    have "unat ((x - b) - (x - a)) \<le> unat (x - b)" unfolding unat_sub [OF True] by simp
    then have "unat (a - b) \<le> unat (x - b)" by simp
    then show ?thesis using x by simp
  next
    case False
    then have "x - b \<le> x - a" by simp
    from unat_sub [OF this] have "unat ((x - a) - (x - b)) \<le> unat (x - a)" by simp
    then have "unat (b - a) \<le> unat (x - a)" by simp
    then show ?thesis using x by simp
  qed
  ultimately show ?thesis unfolding r by (auto simp: unat_gt_0)
qed

lemma regions_meet_sym: "regions_meet r s = regions_meet s r"
  by (auto simp: regions_meet_iff)

text \<open>For ranges that do not wrap around the address space this is intersection of intervals.\<close>

lemma in_region_interval:
  assumes "unat a + unat n \<le> 2 ^ 64"
  shows "in_region (a, n) x \<longleftrightarrow> unat a \<le> unat x \<and> unat x < unat a + unat n"
proof (cases "a \<le> x")
  case True
  then show ?thesis by (simp add: unat_sub word_le_nat_alt) arith
next
  case False
  then have lt: "unat x < unat a" by (simp add: word_le_nat_alt)
  have "unat (x - a) = 2 ^ 64 + unat x - unat a"
    using lt unsigned_less [of a, where ?'a = nat] by (simp add: unat_sub_if_size word_size)
  then show ?thesis using lt assms by simp
qed

lemma regions_meet_intervals:
  assumes "n \<noteq> 0" "m \<noteq> 0" "unat a + unat n < 2 ^ 64" "unat b + unat m < 2 ^ 64"
  shows "regions_meet (a, n) (b, m) \<longleftrightarrow> unat a < unat b + unat m \<and> unat b < unat a + unat n"
  unfolding regions_meet_iff
proof
  assume "\<exists>x. in_region (a, n) x \<and> in_region (b, m) x"
  then show "unat a < unat b + unat m \<and> unat b < unat a + unat n"
    using assms in_region_interval by (auto simp del: in_region.simps)
next
  assume "unat a < unat b + unat m \<and> unat b < unat a + unat n"
  then have "in_region (a, n) (max a b) \<and> in_region (b, m) (max a b)"
    using assms
    by (auto simp: in_region_interval max_def word_le_nat_alt unat_gt_0 simp del: in_region.simps)
  then show "\<exists>x. in_region (a, n) x \<and> in_region (b, m) x" by blast
qed

lemma regions_meet_mono: "regions_meet r (p, k) \<Longrightarrow> k \<le> n \<Longrightarrow> regions_meet r (p, n)"
  unfolding regions_meet_iff by (auto simp: word_le_nat_alt)

text \<open>What a write leaves where it was made and elsewhere.\<close>

lemma bytes_at_written:
  assumes "length bs = n" "n < 2 ^ 64"
  shows "bytes_at (written M p bs m) p n = bs"
proof (rule nth_equalityI)
  fix i assume "i < length (bytes_at (written M p bs m) p n)"
  then have i: "i < n" by simp
  then have "unat (of_nat i :: usize) = i" using assms(2) by (simp add: unat_of_nat)
  then show "bytes_at (written M p bs m) p n ! i = bs ! i"
    using i assms(1) by (simp add: bytes_at_def written_def put_bytes_def)
qed (simp add: assms(1))

lemma bytes_at_outside:
  assumes "\<And>x. in_region (q, of_nat n) x \<Longrightarrow> mem_bytes m' x = mem_bytes m x" "n < 2 ^ 64"
  shows "bytes_at m' q n = bytes_at m q n"
proof -
  have "in_region (q, of_nat n) (q + of_nat i)" if "i < n" for i
    using that assms(2) by (simp add: unat_of_nat)
  then show ?thesis using assms(1) by (auto simp: bytes_at_def simp del: in_region.simps)
qed

lemma bytes_at_written_apart:
  assumes "\<not> regions_meet (p, of_nat (length bs)) (q, of_nat n)" "length bs < 2 ^ 64" "n < 2 ^ 64"
  shows "bytes_at (written M p bs m) q n = bytes_at m q n"
proof (rule bytes_at_outside)
  fix x assume "in_region (q, of_nat n) x"
  then have "\<not> in_region (p, of_nat (length bs)) x" using assms(1) regions_meet_iff by blast
  then show "mem_bytes (written M p bs m) x = mem_bytes m x"
    using assms(2) by (simp add: written_def put_bytes_def unat_of_nat)
qed (rule assms)

lemma bytes_at_put_obj_apart:
  assumes "\<not> regions_meet (p, obj_size M x) (q, of_nat n)" "n < 2 ^ 64"
  shows "bytes_at (put_obj M p x m) q n = bytes_at m q n"
proof (rule bytes_at_outside)
  fix y assume "in_region (q, of_nat n) y"
  then have "\<not> in_region (p, obj_size M x) y" using assms(1) regions_meet_iff by blast
  then show "mem_bytes (put_obj M p x m) y = mem_bytes m y"
    by (simp add: put_obj_def put_bytes_def)
qed (rule assms)

lemma written_lookup: "mem_objs (written M p bs m) q = clobber M (p, of_nat (length bs)) (mem_objs m) q"
  by (simp add: written_def)

lemma clobber_apart: "\<not> regions_meet (p, obj_size M x) r \<Longrightarrow> objs p = Some x \<Longrightarrow> clobber M r objs p = Some x"
  by (simp add: clobber_def)

lemma on_obj_Ret:
  assumes "on_obj M sel con p f (m, h) = Ret r (m', h')"
  obtains y x x' where "mem_objs m p = Some y" "sel y = Some x" "f (x, h) = Ret r (x', h')"
    "m' = put_obj M p (con x') m"
proof -
  from assms obtain y x where y: "mem_objs m p = Some y" "sel y = Some x"
    by (auto simp: on_obj_def read_obj_def bindP_eq_Ret split: option.splits Option.bind_splits)
  with assms obtain x' where "f (x, h) = Ret r (x', h')" "m' = put_obj M p (con x') m"
    by (auto simp: on_obj_def read_obj_def split: res.splits)
  with y show thesis by (rule that)
qed

lemma on_backed_Ret:
  assumes "on_backed M sel con stores p f (m, h) = Ret r (m', h')"
  obtains y x x' where "mem_objs m p = Some y" "sel y = Some x" "f (x, h) = Ret r (x', h')"
    "m' = store_all M (stores x x') (put_obj M p (con x') m)"
proof -
  from assms obtain y x where y: "mem_objs m p = Some y" "sel y = Some x"
    by (auto simp: on_backed_def read_obj_def bindP_eq_Ret split: option.splits Option.bind_splits)
  with assms obtain x' where "f (x, h) = Ret r (x', h')" "m' = store_all M (stores x x') (put_obj M p (con x') m)"
    by (auto simp: on_backed_def read_obj_def split: res.splits)
  with y show thesis by (rule that)
qed

subsection \<open>What a boundary function may write\<close>

text \<open>
  \<open>untouched M W m m'\<close>: outside the regions of \<open>W\<close> every byte is as before, and every object
  that starts at none of them and whose storage meets none of them is as before.  \<open>frames M W f\<close>: however \<open>f\<close> ends, that holds
  of the memory it leaves.
\<close>

definition untouched :: "'o obj_model \<Rightarrow> region list \<Rightarrow> 'o memory \<Rightarrow> 'o memory \<Rightarrow> bool" where
  "untouched M W m m' \<longleftrightarrow>
     (\<forall>x. (\<forall>r\<in>set W. \<not> in_region r x) \<longrightarrow> mem_bytes m' x = mem_bytes m x) \<and>
     (\<forall>p x. mem_objs m p = Some x \<longrightarrow> (\<forall>r\<in>set W. p \<noteq> fst r \<and> \<not> regions_meet (p, obj_size M x) r) \<longrightarrow>
        mem_objs m' p = Some x)"

fun ends_with :: "('s \<Rightarrow> bool) \<Rightarrow> ('s, 'a) res \<Rightarrow> bool" where
  "ends_with Q (Ret x s) = Q s"
| "ends_with Q (Halt s) = Q s"
| "ends_with Q (Panic s) = Q s"
| "ends_with Q (Running s) = Q s"
| "ends_with Q Undef = True"

definition frames :: "'o obj_model \<Rightarrow> region list \<Rightarrow> ('o memory \<times> 'h, 'a) prog \<Rightarrow> bool" where
  "frames M W f \<longleftrightarrow> (\<forall>m h. ends_with (\<lambda>s. untouched M W m (fst s)) (f (m, h)))"

lemma untouched_refl [simp]: "untouched M W m m"
  by (simp add: untouched_def)

lemma untouched_trans:
  "untouched M W m m' \<Longrightarrow> untouched M W m' m'' \<Longrightarrow> untouched M W m m''"
  unfolding untouched_def by metis

lemma untouched_written:
  assumes "(p, n) \<in> set W" "length bs \<le> unat n"
  shows "untouched M W m (written M p bs m)"
proof -
  have len: "unat (of_nat (length bs) :: usize) = length bs"
    using assms(2) unsigned_less [of n, where ?'a = nat] by (simp add: unat_of_nat)
  then have "of_nat (length bs) \<le> n" using assms(2) by (simp add: word_le_nat_alt)
  then have "\<not> regions_meet r (p, of_nat (length bs))" if "\<not> regions_meet r (p, n)" for r
    using that regions_meet_mono by blast
  then show ?thesis
    using assms len by (force simp: untouched_def written_def put_bytes_def clobber_def simp del: regions_meet.simps)
qed

lemma untouched_put_obj:
  "(p, obj_size M x) \<in> set W \<Longrightarrow> untouched M W m (put_obj M p x m)"
  by (force simp: untouched_def put_obj_def put_bytes_def clobber_def simp del: regions_meet.simps)

text \<open>
  The writable regions may depend on an object in memory: \<open>framed M W m f\<close> is the same for runs from
  \<open>m\<close> only, so that the object an operation works on is known.
\<close>

definition framed :: "'o obj_model \<Rightarrow> region list \<Rightarrow> 'o memory \<Rightarrow> ('o memory \<times> 'h, 'a) prog \<Rightarrow> bool" where
  "framed M W m f \<longleftrightarrow> (\<forall>h. ends_with (\<lambda>s. untouched M W m (fst s)) (f (m, h)))"

lemma framed_frames: "frames M W f \<Longrightarrow> framed M W m f"
  by (simp add: frames_def framed_def)

lemma framed_if: "framed M W m f \<Longrightarrow> framed M W m g \<Longrightarrow> framed M W m (if b then f else g)"
  by simp

lemma framed_bindP:
  assumes "framed M W m f" "\<And>x. frames M W (g x)"
  shows "framed M W m (bindP f g)"
  unfolding framed_def
proof
  fix h
  have f: "ends_with (\<lambda>s. untouched M W m (fst s)) (f (m, h))" using assms(1) by (simp add: framed_def)
  show "ends_with (\<lambda>s. untouched M W m (fst s)) (bindP f g (m, h))"
  proof (cases "f (m, h)")
    case (Ret x s)
    obtain m' h' where s: "s = (m', h')" by (cases s)
    have "untouched M W m m'" using f Ret s by simp
    moreover have "ends_with (\<lambda>s. untouched M W m' (fst s)) (g x (m', h'))"
      using assms(2) by (simp add: frames_def)
    ultimately have "ends_with (\<lambda>s. untouched M W m (fst s)) (g x (m', h'))"
      using untouched_trans by (cases "g x (m', h')") auto
    then show ?thesis using Ret s by simp
  qed (use f in \<open>auto simp: bindP_def\<close>)
qed

lemma frames_ret [frame_intros]: "frames M W (ret x)"
  by (simp add: frames_def)

lemma frames_undefP [frame_intros]: "frames M W undefP"
  by (simp add: frames_def)

lemma frames_bindP [frame_intros]:
  "frames M W f \<Longrightarrow> (\<And>x. frames M W (g x)) \<Longrightarrow> frames M W (bindP f g)"
  using framed_bindP [OF framed_frames, of M W f g] by (simp add: frames_def framed_def)

lemma frames_seqP [frame_intros]: "frames M W f \<Longrightarrow> frames M W g \<Longrightarrow> frames M W (seqP f g)"
  by (simp add: seqP_def frames_bindP)

lemma frames_if [frame_intros]:
  "frames M W f \<Longrightarrow> frames M W g \<Longrightarrow> frames M W (if b then f else g)"
  by simp

lemma frames_case_sum [frame_intros]:
  "(\<And>e. frames M W (f e)) \<Longrightarrow> (\<And>x. frames M W (g x)) \<Longrightarrow>
    frames M W (case r of Inl e \<Rightarrow> f e | Inr x \<Rightarrow> g x)"
  by (cases r) simp_all

lemma frames_case_option [frame_intros]:
  "frames M W f \<Longrightarrow> (\<And>x. frames M W (g x)) \<Longrightarrow>
    frames M W (case r of None \<Rightarrow> f | Some x \<Rightarrow> g x)"
  by (cases r) simp_all

lemma frames_case_prod [frame_intros]:
  "(\<And>a b. frames M W (f a b)) \<Longrightarrow> frames M W (case r of (a, b) \<Rightarrow> f a b)"
  by (cases r) simp

lemma frames_getP [frame_intros]: "frames M W getP"
  by (simp add: frames_def)

lemma frames_hostP [frame_intros]: "frames M W (hostP f)"
  unfolding frames_def
proof (intro allI)
  fix m h
  show "ends_with (\<lambda>s. untouched M W m (fst s)) (hostP f (m, h))"
    by (cases "f h") (simp_all add: hostP_def)
qed

lemma frames_read_bytes [frame_intros]: "frames M W (read_bytes p n)"
  by (simp add: frames_def)

lemma frames_slice [frame_intros]: "frames M W (slice_from_raw_parts p n)"
  by (simp add: frames_def)

lemma frames_read_obj [frame_intros]: "frames M W (read_obj sel p)"
  unfolding read_obj_def by (intro frame_intros)

lemma frames_write_bytes [frame_intros]:
  "(p, of_nat (length bs)) \<in> set W \<Longrightarrow> length bs < 2 ^ 64 \<Longrightarrow> frames M W (write_bytes M p bs)"
  by (simp add: frames_def untouched_written unat_of_nat)

lemma frames_write_obj [frame_intros]:
  "(p, obj_size M x) \<in> set W \<Longrightarrow> frames M W (write_obj M p x)"
  by (simp add: frames_def untouched_put_obj)

lemma frames_on_obj [frame_intros]:
  assumes "\<And>x. (p, obj_size M (con x)) \<in> set W"
  shows "frames M W (on_obj M sel con p f)"
  unfolding on_obj_def
proof (intro frames_bindP frames_read_obj)
  fix x
  show "frames M W (\<lambda>(m, h). case f (x, h) of
       Ret r (x', h') \<Rightarrow> Ret r (put_obj M p (con x') m, h')
     | Halt (x', h') \<Rightarrow> Halt (put_obj M p (con x') m, h')
     | Panic (x', h') \<Rightarrow> Panic (put_obj M p (con x') m, h')
     | Running (x', h') \<Rightarrow> Running (put_obj M p (con x') m, h')
     | Undef \<Rightarrow> Undef)"
    by (auto simp: frames_def intro!: untouched_put_obj assms split: res.splits prod.splits)
qed

lemma frames_forget_obj [frame_intros]:
  "(p, n) \<in> set W \<Longrightarrow> frames M W (forget_obj p)"
  by (force simp: frames_def forget_obj_def untouched_def)

text \<open>A list of stores stays inside the regions, and so does an operation that makes them.\<close>

definition covers :: "region list \<Rightarrow> (usize \<times> bytes) list \<Rightarrow> bool" where
  "covers W ws \<longleftrightarrow> (\<forall>(p, bs)\<in>set ws. \<exists>n. (p, n) \<in> set W \<and> length bs \<le> unat n)"

lemma untouched_store_all: "covers W ws \<Longrightarrow> untouched M W m (store_all M ws m)"
proof (induction ws arbitrary: m)
  case (Cons w ws)
  then obtain p bs n where w: "w = (p, bs)" "(p, n) \<in> set W" "length bs \<le> unat n"
    by (cases w) (auto simp: covers_def)
  have "untouched M W m (written M p bs m)" by (rule untouched_written [OF w(2,3)])
  moreover have "untouched M W (written M p bs m) (store_all M ws (written M p bs m))"
    using Cons by (simp add: covers_def)
  ultimately show ?case using untouched_trans by (fastforce simp: store_all_def w(1))
qed (simp add: store_all_def)

lemma framed_read:
  "(\<And>x. Option.bind (mem_objs m p) sel = Some x \<Longrightarrow> framed M W m (g x)) \<Longrightarrow> framed M W m (bindP (read_obj sel p) g)"
  by (cases "Option.bind (mem_objs m p) sel") (auto simp: framed_def read_obj_def)

lemma framed_on_backed:
  assumes "\<And>x. (p, obj_size M (con x)) \<in> set W"
    and "\<And>x h. Option.bind (mem_objs m p) sel = Some x \<Longrightarrow> ends_with (\<lambda>s. covers W (stores x (fst s))) (f (x, h))"
  shows "framed M W m (on_backed M sel con stores p f)"
  unfolding on_backed_def
proof (rule framed_read)
  fix x assume x: "Option.bind (mem_objs m p) sel = Some x"
  have step: "untouched M W m (store_all M (stores x x') (put_obj M p (con x') m))" if "covers W (stores x x')" for x'
    using untouched_trans [OF untouched_put_obj [OF assms(1)] untouched_store_all [OF that]] .
  show "framed M W m (\<lambda>(m, h). case f (x, h) of
       Ret r (x', h') \<Rightarrow> Ret r (store_all M (stores x x') (put_obj M p (con x') m), h')
     | Halt (x', h') \<Rightarrow> Halt (store_all M (stores x x') (put_obj M p (con x') m), h')
     | Panic (x', h') \<Rightarrow> Panic (store_all M (stores x x') (put_obj M p (con x') m), h')
     | Running (x', h') \<Rightarrow> Running (store_all M (stores x x') (put_obj M p (con x') m), h')
     | Undef \<Rightarrow> Undef)"
    unfolding framed_def
  proof
    fix h
    show "ends_with (\<lambda>s. untouched M W m (fst s)) ((\<lambda>(m, h). case f (x, h) of
       Ret r (x', h') \<Rightarrow> Ret r (store_all M (stores x x') (put_obj M p (con x') m), h')
     | Halt (x', h') \<Rightarrow> Halt (store_all M (stores x x') (put_obj M p (con x') m), h')
     | Panic (x', h') \<Rightarrow> Panic (store_all M (stores x x') (put_obj M p (con x') m), h')
     | Running (x', h') \<Rightarrow> Running (store_all M (stores x x') (put_obj M p (con x') m), h')
     | Undef \<Rightarrow> Undef) (m, h))"
      using assms(2) [OF x, of h] by (cases "f (x, h)") (auto intro: step split: prod.splits)
  qed
qed

lemma frames_on_backed:
  assumes "\<And>x. (p, obj_size M (con x)) \<in> set W"
    and "\<And>x h. ends_with (\<lambda>s. covers W (stores x (fst s))) (f (x, h))"
  shows "frames M W (on_backed M sel con stores p f)"
  using framed_on_backed [of p M con W _ sel stores f] assms by (simp add: frames_def framed_def)

lemma ends_with_mono: "ends_with P r \<Longrightarrow> (\<And>s. P s \<Longrightarrow> Q s) \<Longrightarrow> ends_with Q r"
  by (cases r) simp_all

subsection \<open>What a boundary function keeps of the objects\<close>

text \<open>
  \<open>objs_ok Q m\<close>: every object in memory satisfies \<open>Q\<close>.  \<open>keeps Q f\<close>: when \<open>f\<close> returns, all
  objects still do.
\<close>

definition objs_ok :: "('o \<Rightarrow> bool) \<Rightarrow> 'o memory \<Rightarrow> bool" where
  "objs_ok Q m \<longleftrightarrow> (\<forall>p x. mem_objs m p = Some x \<longrightarrow> Q x)"

definition keeps :: "('o \<Rightarrow> bool) \<Rightarrow> ('o memory \<times> 'h, 'a) prog \<Rightarrow> bool" where
  "keeps Q f \<longleftrightarrow> (\<forall>m h r m' h'. objs_ok Q m \<longrightarrow> f (m, h) = Ret r (m', h') \<longrightarrow> objs_ok Q m')"

lemma clobber_Some: "clobber M r objs p = Some x \<Longrightarrow> objs p = Some x"
  by (auto simp: clobber_def split: option.splits if_splits)

lemma objs_okD: "objs_ok Q m \<Longrightarrow> mem_objs m p = Some x \<Longrightarrow> Q x"
  by (simp add: objs_ok_def)

lemma objs_ok_put_obj: "objs_ok Q m \<Longrightarrow> Q x \<Longrightarrow> objs_ok Q (put_obj M p x m)"
  by (auto simp: objs_ok_def put_obj_def dest: clobber_Some)

lemma objs_ok_written: "objs_ok Q m \<Longrightarrow> objs_ok Q (written M p bs m)"
  by (auto simp: objs_ok_def written_def dest: clobber_Some)

lemma objs_ok_store_all: "objs_ok Q m \<Longrightarrow> objs_ok Q (store_all M ws m)"
  by (induction ws arbitrary: m) (auto simp: store_all_def objs_ok_written)

lemma keeps_ret [keep_intros]: "keeps Q (ret x)"
  by (simp add: keeps_def)

lemma keeps_undefP [keep_intros]: "keeps Q undefP"
  by (simp add: keeps_def)

lemma keeps_getP [keep_intros]: "keeps Q getP"
  by (simp add: keeps_def)

lemma keeps_bindP [keep_intros]: "keeps Q f \<Longrightarrow> (\<And>x. keeps Q (g x)) \<Longrightarrow> keeps Q (bindP f g)"
  unfolding keeps_def bindP_eq_Ret by (metis surj_pair)

lemma keeps_seqP [keep_intros]: "keeps Q f \<Longrightarrow> keeps Q g \<Longrightarrow> keeps Q (seqP f g)"
  by (simp add: seqP_def keeps_bindP)

lemma keeps_if [keep_intros]:
  "(b \<Longrightarrow> keeps Q f) \<Longrightarrow> (\<not> b \<Longrightarrow> keeps Q g) \<Longrightarrow> keeps Q (if b then f else g)"
  by simp

lemma keeps_case_sum [keep_intros]:
  "(\<And>e. keeps Q (f e)) \<Longrightarrow> (\<And>x. keeps Q (g x)) \<Longrightarrow>
    keeps Q (case r of Inl e \<Rightarrow> f e | Inr x \<Rightarrow> g x)"
  by (cases r) simp_all

lemma keeps_case_option [keep_intros]:
  "keeps Q f \<Longrightarrow> (\<And>x. keeps Q (g x)) \<Longrightarrow> keeps Q (case r of None \<Rightarrow> f | Some x \<Rightarrow> g x)"
  by (cases r) simp_all

lemma keeps_case_prod [keep_intros]:
  "(\<And>a b. keeps Q (f a b)) \<Longrightarrow> keeps Q (case r of (a, b) \<Rightarrow> f a b)"
  by (cases r) simp

lemma keeps_read_bytes [keep_intros]: "keeps Q (read_bytes p n)"
  unfolding read_bytes_def by (intro keep_intros)

lemma keeps_slice [keep_intros]: "keeps Q (slice_from_raw_parts p n)"
  by (simp add: keeps_def)

lemma keeps_hostP [keep_intros]: "keeps Q (hostP f)"
  by (auto simp: keeps_def hostP_eq_Ret)

lemma keeps_read_obj [keep_intros]: "keeps Q (read_obj sel p)"
  unfolding read_obj_def by (intro keep_intros)

lemma keeps_write_bytes [keep_intros]: "keeps Q (write_bytes M p bs)"
  by (auto simp: keeps_def write_bytes_def objs_ok_written)

lemma keeps_write_obj [keep_intros]: "Q x \<Longrightarrow> keeps Q (write_obj M p x)"
  by (auto simp: keeps_def write_obj_def objs_ok_put_obj)

lemma keeps_forget_obj [keep_intros]: "keeps Q (forget_obj p)"
  by (auto simp: keeps_def forget_obj_def objs_ok_def)

lemma keeps_on_obj [keep_intros]:
  assumes sel: "\<And>y x. sel y = Some x \<Longrightarrow> y = con x"
    and f: "\<And>x h r x' h'. Q (con x) \<Longrightarrow> f (x, h) = Ret r (x', h') \<Longrightarrow> Q (con x')"
  shows "keeps Q (on_obj M sel con p f)"
  unfolding keeps_def
proof (intro allI impI)
  fix m h r m' h'
  assume ok: "objs_ok Q m" and run: "on_obj M sel con p f (m, h) = Ret r (m', h')"
  from run obtain y x x' where y: "mem_objs m p = Some y" "sel y = Some x"
    "f (x, h) = Ret r (x', h')" "m' = put_obj M p (con x') m"
    by (rule on_obj_Ret)
  have "Q (con x)" using objs_okD [OF ok y(1)] sel [OF y(2)] by simp
  then show "objs_ok Q m'" using ok f y(3,4) by (simp add: objs_ok_put_obj)
qed

lemma keeps_on_backed [keep_intros]:
  assumes sel: "\<And>y x. sel y = Some x \<Longrightarrow> y = con x"
    and f: "\<And>x h r x' h'. Q (con x) \<Longrightarrow> f (x, h) = Ret r (x', h') \<Longrightarrow> Q (con x')"
  shows "keeps Q (on_backed M sel con stores p f)"
  unfolding keeps_def
proof (intro allI impI)
  fix m h r m' h'
  assume ok: "objs_ok Q m" and run: "on_backed M sel con stores p f (m, h) = Ret r (m', h')"
  from run obtain y x x' where y: "mem_objs m p = Some y" "sel y = Some x"
    "f (x, h) = Ret r (x', h')" "m' = store_all M (stores x x') (put_obj M p (con x') m)"
    by (rule on_backed_Ret)
  have "Q (con x)" using objs_okD [OF ok y(1)] sel [OF y(2)] by simp
  then show "objs_ok Q m'" using ok f y(3,4) by (simp add: objs_ok_put_obj objs_ok_store_all)
qed

end
