(* ===== verification/Rtos_Ffi.thy ===== *)
theory Rtos_Ffi
  imports State_Machine Latency_Tracker Ring_Buffer Bitmap_Scheduler Dma_Pool Ffi_Memory
begin

text \<open>
  The C boundary of the RTOS crate (shawncore-rtos-sync/src/ffi.rs).  Every exported function is a
  definition over the memory of \<open>Ffi_Memory\<close> and the host: its pointer, alignment and overlap
  checks in the order of the source, the call on the object behind the pointer, the output writes
  and the error code.  The backing memory handed to a pool or a queue belongs to that object from
  then on: what the object reads there is part of the object, and every store it makes there is a
  store to memory, which destroys the objects it meets.  The functions that report sizes and alignments return
  the layout parameters.  Results of 8 bytes are written little-endian.
\<close>

subsection \<open>Payload types and objects\<close>

record telemetry_event =
  event_id :: u32
  padding_1 :: bytes
  event_timestamp :: u64
  payload :: bytes

definition telemetry_event_default :: telemetry_event where
  "telemetry_event_default = \<lparr>event_id = 0, padding_1 = zeros 4, event_timestamp = 0, payload = zeros 48\<rparr>"

record ew_command =
  mode :: u8
  ew_padding :: bytes
  target_freq :: u64
  target_bw :: u64

definition ew_command_default :: ew_command where
  "ew_command_default = \<lparr>mode = 0, ew_padding = zeros 7, target_freq = 0, target_bw = 0\<rparr>"

record fft_result =
  snr_db :: u32
  center_freq :: u64
  bandwidth :: u64
  fft_timestamp :: u64
  fft_padding :: bytes

definition fft_result_default :: fft_result where
  "fft_result_default = \<lparr>snr_db = 0, center_freq = 0, bandwidth = 0, fft_timestamp = 0,
     fft_padding = zeros 32\<rparr>"

datatype rtos_obj =
    ObjScheduler per_core_scheduler
  | ObjTcb tcb
  | ObjDmaPool dma_pool
  | ObjTelemetryQueue "telemetry_event spsc_queue"
  | ObjTelemetryEvent telemetry_event
  | ObjEwRing "ew_command ring_buffer"
  | ObjEwCommand ew_command
  | ObjFftQueue "fft_result spsc_queue"
  | ObjFftResult fft_result
  | ObjStateMachine state_machine
  | ObjLatencyTracker latency_tracker

record rtos_layouts =
  l_scheduler :: type_layout
  l_tcb :: type_layout
  l_dmapool2k :: type_layout
  l_telemetry_queue :: type_layout
  l_telemetry_event :: type_layout
  l_telemetry_slot :: type_layout
  l_ew_ring :: type_layout
  l_ew_command :: type_layout
  l_ew_slot :: type_layout
  l_fft_queue :: type_layout
  l_fft_result :: type_layout
  l_fft_slot :: type_layout
  l_state_machine :: type_layout
  l_latency_tracker :: type_layout
  l_rtos_repr :: "rtos_obj \<Rightarrow> nat \<Rightarrow> u8"
  debug_assertions :: bool

fun rtos_obj_layout :: "rtos_layouts \<Rightarrow> rtos_obj \<Rightarrow> type_layout" where
  "rtos_obj_layout L (ObjScheduler _) = l_scheduler L"
| "rtos_obj_layout L (ObjTcb _) = l_tcb L"
| "rtos_obj_layout L (ObjDmaPool _) = l_dmapool2k L"
| "rtos_obj_layout L (ObjTelemetryQueue _) = l_telemetry_queue L"
| "rtos_obj_layout L (ObjTelemetryEvent _) = l_telemetry_event L"
| "rtos_obj_layout L (ObjEwRing _) = l_ew_ring L"
| "rtos_obj_layout L (ObjEwCommand _) = l_ew_command L"
| "rtos_obj_layout L (ObjFftQueue _) = l_fft_queue L"
| "rtos_obj_layout L (ObjFftResult _) = l_fft_result L"
| "rtos_obj_layout L (ObjStateMachine _) = l_state_machine L"
| "rtos_obj_layout L (ObjLatencyTracker _) = l_latency_tracker L"

definition rtos_objs :: "rtos_layouts \<Rightarrow> rtos_obj obj_model" where
  "rtos_objs L = \<lparr>obj_size = (\<lambda>x. layout_size (rtos_obj_layout L x)), obj_repr = l_rtos_repr L\<rparr>"

fun as_scheduler :: "rtos_obj \<Rightarrow> per_core_scheduler option" where
  "as_scheduler (ObjScheduler x) = Some x"
| "as_scheduler _ = None"

fun as_tcb :: "rtos_obj \<Rightarrow> tcb option" where
  "as_tcb (ObjTcb x) = Some x"
| "as_tcb _ = None"

fun as_dmapool2k :: "rtos_obj \<Rightarrow> dma_pool option" where
  "as_dmapool2k (ObjDmaPool x) = Some x"
| "as_dmapool2k _ = None"

fun as_telemetry_queue :: "rtos_obj \<Rightarrow> (telemetry_event spsc_queue) option" where
  "as_telemetry_queue (ObjTelemetryQueue x) = Some x"
| "as_telemetry_queue _ = None"

fun as_telemetry_event :: "rtos_obj \<Rightarrow> telemetry_event option" where
  "as_telemetry_event (ObjTelemetryEvent x) = Some x"
| "as_telemetry_event _ = None"

fun as_ew_ring :: "rtos_obj \<Rightarrow> (ew_command ring_buffer) option" where
  "as_ew_ring (ObjEwRing x) = Some x"
| "as_ew_ring _ = None"

fun as_ew_command :: "rtos_obj \<Rightarrow> ew_command option" where
  "as_ew_command (ObjEwCommand x) = Some x"
| "as_ew_command _ = None"

fun as_fft_queue :: "rtos_obj \<Rightarrow> (fft_result spsc_queue) option" where
  "as_fft_queue (ObjFftQueue x) = Some x"
| "as_fft_queue _ = None"

fun as_fft_result :: "rtos_obj \<Rightarrow> fft_result option" where
  "as_fft_result (ObjFftResult x) = Some x"
| "as_fft_result _ = None"

fun as_state_machine :: "rtos_obj \<Rightarrow> state_machine option" where
  "as_state_machine (ObjStateMachine x) = Some x"
| "as_state_machine _ = None"

fun as_latency_tracker :: "rtos_obj \<Rightarrow> latency_tracker option" where
  "as_latency_tracker (ObjLatencyTracker x) = Some x"
| "as_latency_tracker _ = None"

type_synonym 'a rtos_prog = "(rtos_obj memory \<times> rtos_host, 'a) prog"

text \<open>The layout of a 64-bit integer or pointer, and the concrete types of the generics.\<close>

definition word_layout :: type_layout where
  "word_layout = \<lparr>layout_size = 8, layout_align = 8\<rparr>"

definition buffer2k_layout :: type_layout where
  "buffer2k_layout = \<lparr>layout_size = 2048, layout_align = 1\<rparr>"

definition dmapool2k_type :: dma_layout where
  "dmapool2k_type = \<lparr>dma_size = layout_size buffer2k_layout, dma_align = layout_align buffer2k_layout\<rparr>"

definition telemetry_type :: "rtos_layouts \<Rightarrow> telemetry_event element_type" where
  "telemetry_type L = \<lparr>type_size = layout_size (l_telemetry_event L), slot_size = layout_size (l_telemetry_slot L),
     slot_align = layout_align (l_telemetry_slot L), type_default = telemetry_event_default\<rparr>"

definition ew_type :: "rtos_layouts \<Rightarrow> ew_command element_type" where
  "ew_type L = \<lparr>type_size = layout_size (l_ew_command L), slot_size = layout_size (l_ew_slot L),
     slot_align = layout_align (l_ew_slot L), type_default = ew_command_default\<rparr>"

definition fft_type :: "rtos_layouts \<Rightarrow> fft_result element_type" where
  "fft_type L = \<lparr>type_size = layout_size (l_fft_result L), slot_size = layout_size (l_fft_slot L),
     slot_align = layout_align (l_fft_slot L), type_default = fft_result_default\<rparr>"

subsection \<open>Backing memory\<close>

text \<open>
  A slot in backing memory is the payload followed by the sequence counter (\<open>repr(C)\<close>).  The stores of an
  operation are read off the queue before and after it: the payload and the counter of a slot, each
  when it has changed.  A store of what the slot holds already is left out, since it changes nothing.
\<close>

definition obj_bytes :: "'o obj_model \<Rightarrow> 'o \<Rightarrow> bytes" where
  "obj_bytes M x = map (obj_repr M x) [0..<unat (obj_size M x)]"

definition counter_offset :: "'a element_type \<Rightarrow> usize" where
  "counter_offset T = (type_size T + 7) AND NOT 7"

primrec cell_bytes :: "'a element_type \<Rightarrow> ('a \<Rightarrow> bytes) \<Rightarrow> 'a cell \<Rightarrow> bytes" where
  "cell_bytes T encode Uninit = []"
| "cell_bytes T encode ZeroBytes = zeros (unat (type_size T))"
| "cell_bytes T encode (Val x) = encode x"

definition slot_stores ::
  "'a element_type \<Rightarrow> ('a \<Rightarrow> bytes) \<Rightarrow> usize \<Rightarrow> 'a queue_slot \<Rightarrow> 'a queue_slot \<Rightarrow> (usize \<times> bytes) list" where
  "slot_stores T encode a old new =
     (if slot_data new = slot_data old then [] else [(a, cell_bytes T encode (slot_data new))]) @
     (if sequence_counter new = sequence_counter old then []
      else [(a + counter_offset T, le_bytes 8 (sequence_counter new))])"

definition queue_stores ::
  "'a element_type \<Rightarrow> ('a \<Rightarrow> bytes) \<Rightarrow> 'a spsc_queue \<Rightarrow> 'a spsc_queue \<Rightarrow> (usize \<times> bytes) list" where
  "queue_stores T encode q q' =
     concat (map (\<lambda>i. slot_stores T encode (slot_ptr T q' i) (slots q ! i) (slots q' ! i)) [0..<length (slots q')])"

text \<open>Initialization stores the counters and nothing else.\<close>

definition init_stores :: "'a element_type \<Rightarrow> 'a spsc_queue \<Rightarrow> 'a spsc_queue \<Rightarrow> (usize \<times> bytes) list" where
  "init_stores T q q' =
     (if is_initialized q' \<and> \<not> is_initialized q
      then map (\<lambda>i. (slot_ptr T q' i + counter_offset T, le_bytes 8 (sequence_counter (slots q' ! i))))
             [0..<length (slots q')]
      else [])"

text \<open>The pool stores to the slots whose bytes or whose owner it changes.\<close>

definition pool_slot :: "dma_layout \<Rightarrow> nat \<Rightarrow> dma_pool \<Rightarrow> bytes" where
  "pool_slot T i p = take (unat (dma_size T)) (drop (i * unat (dma_size T)) (storage p))"

definition pool_stores :: "dma_layout \<Rightarrow> dma_pool \<Rightarrow> dma_pool \<Rightarrow> (usize \<times> bytes) list" where
  "pool_stores T p p' =
     concat (map (\<lambda>i. if ownership p' ! i = ownership p ! i \<and> pool_slot T i p' = pool_slot T i p then []
                      else [(dma_memory p' + of_nat i * dma_size T, pool_slot T i p')])
       [0..<length (ownership p')])"

text \<open>The codes of \<open>ShawncoreRtosErr\<close> that the boundary returns itself.\<close>

abbreviation (input) RTOS_SUCCESS :: nat where "RTOS_SUCCESS \<equiv> 0"
abbreviation (input) RTOS_NOT_INITIALIZED :: nat where "RTOS_NOT_INITIALIZED \<equiv> 6"
abbreviation (input) RTOS_INVALID_MEMORY :: nat where "RTOS_INVALID_MEMORY \<equiv> 9"
abbreviation (input) RTOS_TASK_FAULT :: nat where "RTOS_TASK_FAULT \<equiv> 10"
abbreviation (input) RTOS_INVALID_STATE :: nat where "RTOS_INVALID_STATE \<equiv> 11"
abbreviation (input) RTOS_QUEUE_EMPTY :: nat where "RTOS_QUEUE_EMPTY \<equiv> 12"

fun ipc_code :: "ipc_error + 'a \<Rightarrow> nat" where
  "ipc_code (Inr _) = RTOS_SUCCESS"
| "ipc_code (Inl e) = ipc_err_code e"

fun allocator_code :: "allocator_error + 'a \<Rightarrow> nat" where
  "allocator_code (Inr _) = RTOS_SUCCESS"
| "allocator_code (Inl e) = allocator_err_code e"

text \<open>An operation that is a function of the object alone, and one whose retry loop may not have returned.\<close>

definition pureP :: "('a \<Rightarrow> 'r \<times> 'a) \<Rightarrow> ('a \<times> 'h, 'r) prog" where
  "pureP f = (\<lambda>(x, h). case f x of (r, x') \<Rightarrow> Ret r (x', h))"

definition loopP :: "('a \<Rightarrow> ('r \<times> 'a) option) \<Rightarrow> ('a \<times> 'h, 'r) prog" where
  "loopP f = (\<lambda>(x, h). case f x of Some (r, x') \<Rightarrow> Ret r (x', h) | None \<Rightarrow> Running (x, h))"

definition telemetry_bytes :: "rtos_layouts \<Rightarrow> telemetry_event \<Rightarrow> bytes" where
  "telemetry_bytes L event = obj_bytes (rtos_objs L) (ObjTelemetryEvent event)"

definition ew_bytes :: "rtos_layouts \<Rightarrow> ew_command \<Rightarrow> bytes" where
  "ew_bytes L item = obj_bytes (rtos_objs L) (ObjEwCommand item)"

definition fft_bytes :: "rtos_layouts \<Rightarrow> fft_result \<Rightarrow> bytes" where
  "fft_bytes L item = obj_bytes (rtos_objs L) (ObjFftResult item)"

subsection \<open>Checks on pointers and ranges\<close>

definition valid_aligned_ptr :: "type_layout \<Rightarrow> usize \<Rightarrow> bool" where
  "valid_aligned_ptr T p \<longleftrightarrow> p \<noteq> 0 \<and> is_multiple_of p (layout_align T)"

definition valid_dma_region :: "type_layout \<Rightarrow> usize \<Rightarrow> usize \<Rightarrow> usize \<Rightarrow> bool" where
  "valid_dma_region T memory_base size_in_bytes element_count =
     (if memory_base = 0 \<or> \<not> is_multiple_of memory_base 4096 \<or>
         \<not> is_multiple_of memory_base (layout_align T)
      then False
      else case checked_mul element_count (layout_size T) of
        None \<Rightarrow> False
      | Some required_size \<Rightarrow>
          size_in_bytes \<ge> required_size \<and> checked_add memory_base required_size \<noteq> None)"

definition rtos_ranges_overlap :: "usize \<Rightarrow> usize \<Rightarrow> usize \<Rightarrow> usize \<Rightarrow> bool" where
  "rtos_ranges_overlap first first_len second second_len =
     (case checked_add first first_len of
        None \<Rightarrow> True
      | Some first_end \<Rightarrow>
          (case checked_add second second_len of
             None \<Rightarrow> True
           | Some second_end \<Rightarrow> first < second_end \<and> second < first_end))"

definition object_overlaps_backing :: "type_layout \<Rightarrow> usize \<Rightarrow> usize \<Rightarrow> usize \<Rightarrow> bool" where
  "object_overlaps_backing T object backing backing_len =
     rtos_ranges_overlap object (layout_size T) backing backing_len"

subsection \<open>Scheduler and task control blocks\<close>

definition shawncore_rtos_scheduler_init :: "rtos_layouts \<Rightarrow> usize \<Rightarrow> nat rtos_prog" where
  "shawncore_rtos_scheduler_init L scheduler =
     (if \<not> valid_aligned_ptr (l_scheduler L) scheduler then ret RTOS_INVALID_MEMORY
      else if \<not> ptr_is_aligned (l_scheduler L) scheduler then ret RTOS_INVALID_MEMORY
      else seqP (write_obj (rtos_objs L) scheduler (ObjScheduler scheduler_new)) (ret RTOS_SUCCESS))"

definition shawncore_rtos_scheduler_destroy :: "rtos_layouts \<Rightarrow> usize \<Rightarrow> nat rtos_prog" where
  "shawncore_rtos_scheduler_destroy L scheduler =
     (if \<not> valid_aligned_ptr (l_scheduler L) scheduler then ret RTOS_INVALID_MEMORY
      else if \<not> ptr_is_aligned (l_scheduler L) scheduler then ret RTOS_INVALID_MEMORY
      else bindP (read_obj as_scheduler scheduler) (\<lambda>_. seqP (forget_obj scheduler) (ret RTOS_SUCCESS)))"

definition shawncore_rtos_tcb_new ::
  "rtos_layouts \<Rightarrow> u64 \<Rightarrow> u64 \<Rightarrow> usize \<Rightarrow> u64 \<Rightarrow> u8 \<Rightarrow> usize \<Rightarrow> nat rtos_prog" where
  "shawncore_rtos_tcb_new L entry base sz initial_rsp prio out_tcb =
     (if \<not> valid_aligned_ptr (l_tcb L) out_tcb then ret RTOS_INVALID_MEMORY
      else if \<not> ptr_is_aligned (l_tcb L) out_tcb then ret RTOS_INVALID_MEMORY
      else if entry = 0 then ret RTOS_TASK_FAULT
      else seqP (write_obj (rtos_objs L) out_tcb (ObjTcb (tcb_new_task entry base sz initial_rsp prio)))
                (ret RTOS_SUCCESS))"

definition shawncore_rtos_tcb_get_rsp :: "rtos_layouts \<Rightarrow> usize \<Rightarrow> u64 rtos_prog" where
  "shawncore_rtos_tcb_get_rsp L t =
     (if \<not> valid_aligned_ptr (l_tcb L) t then ret 0
      else if \<not> ptr_is_aligned (l_tcb L) t then ret 0
      else bindP (read_obj as_tcb t) (\<lambda>tcb_ref. ret (rsp tcb_ref)))"

definition shawncore_rtos_tcb_set_rsp :: "rtos_layouts \<Rightarrow> usize \<Rightarrow> u64 \<Rightarrow> nat rtos_prog" where
  "shawncore_rtos_tcb_set_rsp L t sp =
     (if \<not> valid_aligned_ptr (l_tcb L) t then ret RTOS_INVALID_MEMORY
      else if \<not> ptr_is_aligned (l_tcb L) t then ret RTOS_INVALID_MEMORY
      else seqP (on_obj (rtos_objs L) as_tcb ObjTcb t (modP (\<lambda>tcb_ref. tcb_ref\<lparr>rsp := sp\<rparr>)))
                (ret RTOS_SUCCESS))"

text \<open>The stacks are host memory; the scheduler reads and writes the canary there as a 64-bit word.\<close>

definition mem_u64 :: "'o memory \<Rightarrow> u64 \<Rightarrow> u64" where
  "mem_u64 m a = of_le_bytes (bytes_at m a 8)"

definition shawncore_rtos_scheduler_create_task ::
  "rtos_layouts \<Rightarrow> usize \<Rightarrow> usize \<Rightarrow> u64 \<Rightarrow> nat rtos_prog" where
  "shawncore_rtos_scheduler_create_task L scheduler t canary_value =
     (if \<not> valid_aligned_ptr (l_scheduler L) scheduler \<or> \<not> valid_aligned_ptr (l_tcb L) t
      then ret RTOS_INVALID_MEMORY
      else if \<not> ptr_is_aligned (l_scheduler L) scheduler \<or> \<not> ptr_is_aligned (l_tcb L) t
      then ret RTOS_INVALID_MEMORY
      else bindP (read_obj as_tcb t) (\<lambda>tcb_val.
        bindP getP (\<lambda>m.
        bindP (on_obj (rtos_objs L) as_scheduler ObjScheduler scheduler
            (pureP (\<lambda>s. case create_task tcb_val canary_value (mem_u64 m) s of
               (r, mem, s') \<Rightarrow> ((r, mem (stack_base tcb_val)), s')))) (\<lambda>(r, canary).
        case r of
          Inl _ \<Rightarrow> ret RTOS_TASK_FAULT
        | Inr _ \<Rightarrow>
            if stack_base tcb_val \<noteq> 0
            then seqP (write_bytes (rtos_objs L) (stack_base tcb_val) (le_bytes 8 canary)) (ret RTOS_SUCCESS)
            else ret RTOS_SUCCESS))))"

definition shawncore_rtos_scheduler_tick :: "rtos_layouts \<Rightarrow> usize \<Rightarrow> u64 \<Rightarrow> u64 rtos_prog" where
  "shawncore_rtos_scheduler_tick L scheduler current_rsp =
     (if \<not> valid_aligned_ptr (l_scheduler L) scheduler then ret current_rsp
      else if \<not> ptr_is_aligned (l_scheduler L) scheduler then ret current_rsp
      else bindP getP (\<lambda>m. on_obj (rtos_objs L) as_scheduler ObjScheduler scheduler
        (schedule_tick (mem_u64 m) current_rsp)))"

definition shawncore_rtos_scheduler_set_critical_task_mask ::
  "rtos_layouts \<Rightarrow> usize \<Rightarrow> u16 \<Rightarrow> nat rtos_prog" where
  "shawncore_rtos_scheduler_set_critical_task_mask L scheduler critical_mask =
     (if \<not> valid_aligned_ptr (l_scheduler L) scheduler then ret RTOS_INVALID_MEMORY
      else if \<not> ptr_is_aligned (l_scheduler L) scheduler then ret RTOS_INVALID_MEMORY
      else seqP (on_obj (rtos_objs L) as_scheduler ObjScheduler scheduler (modP (set_critical_task_mask critical_mask)))
                (ret RTOS_SUCCESS))"

definition shawncore_rtos_scheduler_task_check_in ::
  "rtos_layouts \<Rightarrow> usize \<Rightarrow> u8 \<Rightarrow> nat rtos_prog" where
  "shawncore_rtos_scheduler_task_check_in L scheduler prio =
     (if \<not> valid_aligned_ptr (l_scheduler L) scheduler \<or> prio \<ge> 16 then ret RTOS_INVALID_MEMORY
      else if \<not> ptr_is_aligned (l_scheduler L) scheduler then ret RTOS_INVALID_MEMORY
      else seqP (on_obj (rtos_objs L) as_scheduler ObjScheduler scheduler (modP (task_check_in prio)))
                (ret RTOS_SUCCESS))"

subsection \<open>DMA pool\<close>

text \<open>
  The list \<open>sched\<close> tells which compare-exchanges of the pool's retry loops fail spuriously.
\<close>

definition shawncore_rtos_dmapool2k_init ::
  "rtos_layouts \<Rightarrow> usize \<Rightarrow> usize \<Rightarrow> usize \<Rightarrow> nat rtos_prog" where
  "shawncore_rtos_dmapool2k_init L pool memory_base size_in_bytes =
     (if pool = 0 \<or> \<not> valid_dma_region buffer2k_layout memory_base size_in_bytes 256 \<or>
         object_overlaps_backing (l_dmapool2k L) pool memory_base size_in_bytes
      then ret RTOS_INVALID_MEMORY
      else if \<not> ptr_is_aligned (l_dmapool2k L) pool then ret RTOS_INVALID_MEMORY
      else
        seqP (write_obj (rtos_objs L) pool (ObjDmaPool (dma_new 256)))
       (bindP (read_bytes memory_base (256 * 2048)) (\<lambda>region.
        bindP (on_obj (rtos_objs L) as_dmapool2k ObjDmaPool pool
                 (pureP (dma_init 256 4 dmapool2k_type memory_base size_in_bytes region))) (\<lambda>r.
        ret (allocator_code r)))))"

definition shawncore_rtos_dmapool2k_destroy :: "rtos_layouts \<Rightarrow> usize \<Rightarrow> nat rtos_prog" where
  "shawncore_rtos_dmapool2k_destroy L pool =
     (if pool = 0 then ret RTOS_INVALID_MEMORY
      else if \<not> ptr_is_aligned (l_dmapool2k L) pool then ret RTOS_INVALID_MEMORY
      else bindP (read_obj as_dmapool2k pool) (\<lambda>_. seqP (forget_obj pool) (ret RTOS_SUCCESS)))"

definition shawncore_rtos_dmapool2k_allocate ::
  "rtos_layouts \<Rightarrow> bool list \<Rightarrow> usize \<Rightarrow> usize \<Rightarrow> usize \<Rightarrow> usize \<Rightarrow> nat rtos_prog" where
  "shawncore_rtos_dmapool2k_allocate L sched pool out_idx out_generation out_ptr =
     (if pool = 0 \<or> out_idx = 0 \<or> out_generation = 0 \<or> out_ptr = 0 then ret RTOS_INVALID_MEMORY
      else if \<not> ptr_is_aligned (l_dmapool2k L) pool \<or> \<not> ptr_is_aligned word_layout out_idx \<or>
         \<not> ptr_is_aligned word_layout out_generation \<or> \<not> ptr_is_aligned word_layout out_ptr
      then ret RTOS_INVALID_MEMORY
      else if rtos_ranges_overlap pool (layout_size (l_dmapool2k L)) out_idx 8 \<or>
         rtos_ranges_overlap pool (layout_size (l_dmapool2k L)) out_generation 8 \<or>
         rtos_ranges_overlap pool (layout_size (l_dmapool2k L)) out_ptr 8 \<or>
         rtos_ranges_overlap out_idx 8 out_generation 8 \<or>
         rtos_ranges_overlap out_idx 8 out_ptr 8 \<or>
         rtos_ranges_overlap out_generation 8 out_ptr 8
      then ret RTOS_INVALID_MEMORY
      else bindP (on_obj (rtos_objs L) as_dmapool2k ObjDmaPool pool
             (dma_allocate (debug_assertions L) dmapool2k_type sched)) (\<lambda>r. case r of
          Inr (idx, generation, buf_ptr) \<Rightarrow>
            seqP (write_bytes (rtos_objs L) out_idx (le_bytes 8 (of_nat idx :: usize)))
           (seqP (write_bytes (rtos_objs L) out_generation (le_bytes 8 generation))
           (seqP (write_bytes (rtos_objs L) out_ptr (le_bytes 8 buf_ptr))
                 (ret RTOS_SUCCESS)))
        | Inl e \<Rightarrow> ret (allocator_err_code e)))"

definition shawncore_rtos_dmapool2k_free ::
  "rtos_layouts \<Rightarrow> bool list \<Rightarrow> usize \<Rightarrow> usize \<Rightarrow> u64 \<Rightarrow> nat rtos_prog" where
  "shawncore_rtos_dmapool2k_free L sched pool buffer_idx generation =
     (if pool = 0 then ret RTOS_INVALID_MEMORY
      else if \<not> ptr_is_aligned (l_dmapool2k L) pool then ret RTOS_INVALID_MEMORY
      else bindP (on_backed (rtos_objs L) as_dmapool2k ObjDmaPool (pool_stores dmapool2k_type) pool
             (dma_free 256 dmapool2k_type sched (unat buffer_idx) generation)) (\<lambda>r.
        ret (allocator_code r)))"

text \<open>
  The three queues.  The slots of the backing memory before initialization are arbitrary
  (\<open>backing\<close>), and the cache is coherent: invalidating a line leaves the slot as it is.
\<close>

subsection \<open>Telemetry queue\<close>

definition shawncore_rtos_spsc_telemetry_init ::
  "rtos_layouts \<Rightarrow> (nat \<Rightarrow> telemetry_event queue_slot) \<Rightarrow> usize \<Rightarrow> usize \<Rightarrow> usize \<Rightarrow> nat rtos_prog" where
  "shawncore_rtos_spsc_telemetry_init L backing queue memory_base size_in_bytes =
     (if queue = 0 \<or> \<not> valid_dma_region (l_telemetry_slot L) memory_base size_in_bytes 64 \<or>
         object_overlaps_backing (l_telemetry_queue L) queue memory_base size_in_bytes
      then ret RTOS_INVALID_MEMORY
      else if \<not> ptr_is_aligned (l_telemetry_queue L) queue then ret RTOS_INVALID_MEMORY
      else
        seqP (write_obj (rtos_objs L) queue (ObjTelemetryQueue spsc_new))
       (bindP (on_backed (rtos_objs L) as_telemetry_queue ObjTelemetryQueue (init_stores (telemetry_type L)) queue
                 (pureP (spsc_init 64 (telemetry_type L) memory_base size_in_bytes (map backing [0..<64])))) (\<lambda>r.
        ret (ipc_code r))))"

definition shawncore_rtos_spsc_telemetry_destroy :: "rtos_layouts \<Rightarrow> usize \<Rightarrow> nat rtos_prog" where
  "shawncore_rtos_spsc_telemetry_destroy L queue =
     (if queue = 0 then ret RTOS_INVALID_MEMORY
      else if \<not> ptr_is_aligned (l_telemetry_queue L) queue then ret RTOS_INVALID_MEMORY
      else bindP (read_obj as_telemetry_queue queue) (\<lambda>_. seqP (forget_obj queue) (ret RTOS_SUCCESS)))"

definition shawncore_rtos_spsc_telemetry_push :: "rtos_layouts \<Rightarrow> usize \<Rightarrow> usize \<Rightarrow> nat rtos_prog" where
  "shawncore_rtos_spsc_telemetry_push L queue event =
     (if queue = 0 \<or> event = 0 then ret RTOS_INVALID_MEMORY
      else if \<not> ptr_is_aligned (l_telemetry_queue L) queue \<or> \<not> ptr_is_aligned (l_telemetry_event L) event
      then ret RTOS_INVALID_MEMORY
      else bindP (read_obj as_telemetry_event event) (\<lambda>event_val.
        bindP (on_backed (rtos_objs L) as_telemetry_queue ObjTelemetryQueue (queue_stores (telemetry_type L) (telemetry_bytes L)) queue
            (spsc_push 64 (telemetry_type L) event_val)) (\<lambda>r.
        ret (ipc_code r))))"

definition shawncore_rtos_spsc_telemetry_pop :: "rtos_layouts \<Rightarrow> usize \<Rightarrow> usize \<Rightarrow> nat rtos_prog" where
  "shawncore_rtos_spsc_telemetry_pop L queue out_event =
     (if queue = 0 \<or> out_event = 0 then ret RTOS_INVALID_MEMORY
      else if \<not> ptr_is_aligned (l_telemetry_queue L) queue \<or> \<not> ptr_is_aligned (l_telemetry_event L) out_event
      then ret RTOS_INVALID_MEMORY
      else if rtos_ranges_overlap queue (layout_size (l_telemetry_queue L)) out_event (layout_size (l_telemetry_event L))
      then ret RTOS_INVALID_MEMORY
      else bindP (read_obj as_telemetry_queue queue) (\<lambda>queue_ref.
        if \<not> is_initialized queue_ref then ret RTOS_NOT_INITIALIZED
        else bindP (on_backed (rtos_objs L) as_telemetry_queue ObjTelemetryQueue (queue_stores (telemetry_type L) (telemetry_bytes L)) queue
            (spsc_pop 64 (telemetry_type L) (\<lambda>slot. slot))) (\<lambda>r. case r of
            Some event \<Rightarrow> seqP (write_obj (rtos_objs L) out_event (ObjTelemetryEvent event)) (ret RTOS_SUCCESS)
          | None \<Rightarrow> ret RTOS_QUEUE_EMPTY)))"

subsection \<open>Ring buffer of electronic-warfare commands\<close>

definition shawncore_rtos_ringbuffer_ew_init ::
  "rtos_layouts \<Rightarrow> (nat \<Rightarrow> ew_command queue_slot) \<Rightarrow> usize \<Rightarrow> usize \<Rightarrow> usize \<Rightarrow> nat rtos_prog" where
  "shawncore_rtos_ringbuffer_ew_init L backing rb memory_base size_in_bytes =
     (if rb = 0 \<or> \<not> valid_dma_region (l_ew_slot L) memory_base size_in_bytes 1024 \<or>
         object_overlaps_backing (l_ew_ring L) rb memory_base size_in_bytes
      then ret RTOS_INVALID_MEMORY
      else if \<not> ptr_is_aligned (l_ew_ring L) rb then ret RTOS_INVALID_MEMORY
      else
        seqP (write_obj (rtos_objs L) rb (ObjEwRing ring_new))
       (bindP (on_backed (rtos_objs L) as_ew_ring ObjEwRing (init_stores (ew_type L)) rb
                 (pureP (ring_init 1024 (ew_type L) memory_base size_in_bytes (map backing [0..<1024])))) (\<lambda>r.
        ret (ipc_code r))))"

definition shawncore_rtos_ringbuffer_ew_destroy :: "rtos_layouts \<Rightarrow> usize \<Rightarrow> nat rtos_prog" where
  "shawncore_rtos_ringbuffer_ew_destroy L rb =
     (if rb = 0 then ret RTOS_INVALID_MEMORY
      else if \<not> ptr_is_aligned (l_ew_ring L) rb then ret RTOS_INVALID_MEMORY
      else bindP (read_obj as_ew_ring rb) (\<lambda>_. seqP (forget_obj rb) (ret RTOS_SUCCESS)))"

definition shawncore_rtos_ringbuffer_ew_push :: "rtos_layouts \<Rightarrow> usize \<Rightarrow> usize \<Rightarrow> nat rtos_prog" where
  "shawncore_rtos_ringbuffer_ew_push L rb item =
     (if rb = 0 \<or> item = 0 then ret RTOS_INVALID_MEMORY
      else if \<not> ptr_is_aligned (l_ew_ring L) rb \<or> \<not> ptr_is_aligned (l_ew_command L) item
      then ret RTOS_INVALID_MEMORY
      else bindP (read_obj as_ew_command item) (\<lambda>item_val.
        bindP (on_backed (rtos_objs L) as_ew_ring ObjEwRing (queue_stores (ew_type L) (ew_bytes L)) rb
            (ring_push 1024 (ew_type L) item_val)) (\<lambda>r.
        ret (ipc_code r))))"

definition shawncore_rtos_ringbuffer_ew_pop :: "rtos_layouts \<Rightarrow> usize \<Rightarrow> usize \<Rightarrow> nat rtos_prog" where
  "shawncore_rtos_ringbuffer_ew_pop L rb out_item =
     (if rb = 0 \<or> out_item = 0 then ret RTOS_INVALID_MEMORY
      else if \<not> ptr_is_aligned (l_ew_ring L) rb \<or> \<not> ptr_is_aligned (l_ew_command L) out_item
      then ret RTOS_INVALID_MEMORY
      else if rtos_ranges_overlap rb (layout_size (l_ew_ring L)) out_item (layout_size (l_ew_command L))
      then ret RTOS_INVALID_MEMORY
      else bindP (read_obj as_ew_ring rb) (\<lambda>rb_ref.
        if \<not> is_initialized rb_ref then ret RTOS_NOT_INITIALIZED
        else bindP (on_backed (rtos_objs L) as_ew_ring ObjEwRing (queue_stores (ew_type L) (ew_bytes L)) rb
            (ring_pop 1024 (ew_type L) (\<lambda>slot. slot))) (\<lambda>r. case r of
            Some item \<Rightarrow> seqP (write_obj (rtos_objs L) out_item (ObjEwCommand item)) (ret RTOS_SUCCESS)
          | None \<Rightarrow> ret RTOS_QUEUE_EMPTY)))"

definition shawncore_rtos_ringbuffer_ew_peek :: "rtos_layouts \<Rightarrow> usize \<Rightarrow> usize \<Rightarrow> nat rtos_prog" where
  "shawncore_rtos_ringbuffer_ew_peek L rb out_item =
     (if rb = 0 \<or> out_item = 0 then ret RTOS_INVALID_MEMORY
      else if \<not> ptr_is_aligned (l_ew_ring L) rb \<or> \<not> ptr_is_aligned (l_ew_command L) out_item
      then ret RTOS_INVALID_MEMORY
      else if rtos_ranges_overlap rb (layout_size (l_ew_ring L)) out_item (layout_size (l_ew_command L))
      then ret RTOS_INVALID_MEMORY
      else bindP (read_obj as_ew_ring rb) (\<lambda>rb_ref.
        if \<not> is_initialized rb_ref then ret RTOS_NOT_INITIALIZED
        else bindP (on_backed (rtos_objs L) as_ew_ring ObjEwRing (queue_stores (ew_type L) (ew_bytes L)) rb
            (ring_peek 1024 (ew_type L) (\<lambda>slot. slot))) (\<lambda>r. case r of
            Some item \<Rightarrow> seqP (write_obj (rtos_objs L) out_item (ObjEwCommand item)) (ret RTOS_SUCCESS)
          | None \<Rightarrow> ret RTOS_QUEUE_EMPTY)))"

subsection \<open>Queue of FFT results\<close>

definition shawncore_rtos_spsc_fft_init ::
  "rtos_layouts \<Rightarrow> (nat \<Rightarrow> fft_result queue_slot) \<Rightarrow> usize \<Rightarrow> usize \<Rightarrow> usize \<Rightarrow> nat rtos_prog" where
  "shawncore_rtos_spsc_fft_init L backing queue memory_base size_in_bytes =
     (if queue = 0 \<or> \<not> valid_dma_region (l_fft_slot L) memory_base size_in_bytes 256 \<or>
         object_overlaps_backing (l_fft_queue L) queue memory_base size_in_bytes
      then ret RTOS_INVALID_MEMORY
      else if \<not> ptr_is_aligned (l_fft_queue L) queue then ret RTOS_INVALID_MEMORY
      else
        seqP (write_obj (rtos_objs L) queue (ObjFftQueue spsc_new))
       (bindP (on_backed (rtos_objs L) as_fft_queue ObjFftQueue (init_stores (fft_type L)) queue
                 (pureP (spsc_init 256 (fft_type L) memory_base size_in_bytes (map backing [0..<256])))) (\<lambda>r.
        ret (ipc_code r))))"

definition shawncore_rtos_spsc_fft_destroy :: "rtos_layouts \<Rightarrow> usize \<Rightarrow> nat rtos_prog" where
  "shawncore_rtos_spsc_fft_destroy L queue =
     (if queue = 0 then ret RTOS_INVALID_MEMORY
      else if \<not> ptr_is_aligned (l_fft_queue L) queue then ret RTOS_INVALID_MEMORY
      else bindP (read_obj as_fft_queue queue) (\<lambda>_. seqP (forget_obj queue) (ret RTOS_SUCCESS)))"

definition shawncore_rtos_spsc_fft_push :: "rtos_layouts \<Rightarrow> usize \<Rightarrow> usize \<Rightarrow> nat rtos_prog" where
  "shawncore_rtos_spsc_fft_push L queue item =
     (if queue = 0 \<or> item = 0 then ret RTOS_INVALID_MEMORY
      else if \<not> ptr_is_aligned (l_fft_queue L) queue \<or> \<not> ptr_is_aligned (l_fft_result L) item
      then ret RTOS_INVALID_MEMORY
      else bindP (read_obj as_fft_result item) (\<lambda>item_val.
        bindP (on_backed (rtos_objs L) as_fft_queue ObjFftQueue (queue_stores (fft_type L) (fft_bytes L)) queue
            (spsc_push 256 (fft_type L) item_val)) (\<lambda>r.
        ret (ipc_code r))))"

definition shawncore_rtos_spsc_fft_pop :: "rtos_layouts \<Rightarrow> usize \<Rightarrow> usize \<Rightarrow> nat rtos_prog" where
  "shawncore_rtos_spsc_fft_pop L queue out_item =
     (if queue = 0 \<or> out_item = 0 then ret RTOS_INVALID_MEMORY
      else if \<not> ptr_is_aligned (l_fft_queue L) queue \<or> \<not> ptr_is_aligned (l_fft_result L) out_item
      then ret RTOS_INVALID_MEMORY
      else if rtos_ranges_overlap queue (layout_size (l_fft_queue L)) out_item (layout_size (l_fft_result L))
      then ret RTOS_INVALID_MEMORY
      else bindP (read_obj as_fft_queue queue) (\<lambda>queue_ref.
        if \<not> is_initialized queue_ref then ret RTOS_NOT_INITIALIZED
        else bindP (on_backed (rtos_objs L) as_fft_queue ObjFftQueue (queue_stores (fft_type L) (fft_bytes L)) queue
            (spsc_pop 256 (fft_type L) (\<lambda>slot. slot))) (\<lambda>r. case r of
            Some item \<Rightarrow> seqP (write_obj (rtos_objs L) out_item (ObjFftResult item)) (ret RTOS_SUCCESS)
          | None \<Rightarrow> ret RTOS_QUEUE_EMPTY)))"

subsection \<open>State machine\<close>

definition shawncore_rtos_state_machine_init :: "rtos_layouts \<Rightarrow> usize \<Rightarrow> nat rtos_prog" where
  "shawncore_rtos_state_machine_init L m =
     (if m = 0 then ret RTOS_INVALID_MEMORY
      else if \<not> ptr_is_aligned (l_state_machine L) m then ret RTOS_INVALID_MEMORY
      else seqP (write_obj (rtos_objs L) m (ObjStateMachine state_machine_new)) (ret RTOS_SUCCESS))"

definition shawncore_rtos_state_machine_destroy :: "rtos_layouts \<Rightarrow> usize \<Rightarrow> nat rtos_prog" where
  "shawncore_rtos_state_machine_destroy L m =
     (if m = 0 then ret RTOS_INVALID_MEMORY
      else if \<not> ptr_is_aligned (l_state_machine L) m then ret RTOS_INVALID_MEMORY
      else bindP (read_obj as_state_machine m) (\<lambda>_. seqP (forget_obj m) (ret RTOS_SUCCESS)))"

definition decode_target :: "u8 \<Rightarrow> enclave_state option" where
  "decode_target t =
     (if t = 0 then Some Init else if t = 1 then Some Bootstrapping else if t = 2 then Some Operational
      else if t = 3 then Some Degraded else if t = 4 then Some Terminal else None)"

definition shawncore_rtos_state_machine_try_advance ::
  "rtos_layouts \<Rightarrow> bool list \<Rightarrow> usize \<Rightarrow> u8 \<Rightarrow> nat rtos_prog" where
  "shawncore_rtos_state_machine_try_advance L sched m target_state =
     (if m = 0 then ret RTOS_INVALID_MEMORY
      else if \<not> ptr_is_aligned (l_state_machine L) m then ret RTOS_INVALID_MEMORY
      else case decode_target target_state of
        None \<Rightarrow> ret RTOS_INVALID_STATE
      | Some target \<Rightarrow>
          bindP (on_obj (rtos_objs L) as_state_machine ObjStateMachine m (loopP (try_advance sched target)))
            (\<lambda>r. case r of Inr _ \<Rightarrow> ret RTOS_SUCCESS | Inl _ \<Rightarrow> ret RTOS_INVALID_STATE))"

subsection \<open>Latency tracker\<close>

definition shawncore_rtos_latency_tracker_init :: "rtos_layouts \<Rightarrow> usize \<Rightarrow> nat rtos_prog" where
  "shawncore_rtos_latency_tracker_init L tracker =
     (if tracker = 0 then ret RTOS_INVALID_MEMORY
      else if \<not> ptr_is_aligned (l_latency_tracker L) tracker then ret RTOS_INVALID_MEMORY
      else seqP (write_obj (rtos_objs L) tracker (ObjLatencyTracker latency_tracker_new)) (ret RTOS_SUCCESS))"

definition shawncore_rtos_latency_tracker_destroy :: "rtos_layouts \<Rightarrow> usize \<Rightarrow> nat rtos_prog" where
  "shawncore_rtos_latency_tracker_destroy L tracker =
     (if tracker = 0 then ret RTOS_INVALID_MEMORY
      else if \<not> ptr_is_aligned (l_latency_tracker L) tracker then ret RTOS_INVALID_MEMORY
      else bindP (read_obj as_latency_tracker tracker) (\<lambda>_. seqP (forget_obj tracker) (ret RTOS_SUCCESS)))"

definition shawncore_rtos_latency_tracker_mark_start ::
  "rtos_layouts \<Rightarrow> usize \<Rightarrow> u64 \<Rightarrow> nat rtos_prog" where
  "shawncore_rtos_latency_tracker_mark_start L tracker current_timestamp =
     (if tracker = 0 then ret RTOS_INVALID_MEMORY
      else if \<not> ptr_is_aligned (l_latency_tracker L) tracker then ret RTOS_INVALID_MEMORY
      else seqP (on_obj (rtos_objs L) as_latency_tracker ObjLatencyTracker tracker
                   (modP (mark_start current_timestamp))) (ret RTOS_SUCCESS))"

definition shawncore_rtos_latency_tracker_mark_end ::
  "rtos_layouts \<Rightarrow> bool list \<Rightarrow> bool list \<Rightarrow> usize \<Rightarrow> u64 \<Rightarrow> nat rtos_prog" where
  "shawncore_rtos_latency_tracker_mark_end L max_sched total_sched tracker current_timestamp =
     (if tracker = 0 then ret RTOS_INVALID_MEMORY
      else if \<not> ptr_is_aligned (l_latency_tracker L) tracker then ret RTOS_INVALID_MEMORY
      else seqP (on_obj (rtos_objs L) as_latency_tracker ObjLatencyTracker tracker
                   (loopP (\<lambda>lt. map_option (Pair ()) (mark_end max_sched total_sched current_timestamp lt))))
                (ret RTOS_SUCCESS))"

end
