(* ===== verification/Rtos_Boundary.thy ===== *)
theory Rtos_Boundary
  imports Rtos_Ffi
begin

text \<open>
  The boundary of the RTOS crate as a whole.  A call is one exported function with arbitrary
  arguments, and a host program is a list of calls and of the host's own stores to memory.  Two facts
  hold of every call: it writes only the storage its output and object pointers name and the backing
  memory that storage points to, and when it returns every object in memory is well-formed if it was
  before the call, whatever the host passed.  The overlap test that guards the outputs is exact.
\<close>

subsection \<open>Calls\<close>

text \<open>The value a call returns to C: an error code, or a stack pointer.\<close>

definition code_word :: "nat rtos_prog \<Rightarrow> u64 rtos_prog" where
  "code_word f = bindP f (\<lambda>c. ret (of_nat c))"

text \<open>
  For every group of exported functions: the calls, what a call does, and the storage it may write.
  That is the storage its pointers name and what the object keeps a pointer to: creating a task
  writes the canary at the base of the stack that the task control block names, initializing a queue
  the counters of its slots, a push the slot at the head, a pop the payload of the slot at the tail, and
  a free the slot that is given back.
\<close>

definition backing_regions :: "('o \<Rightarrow> 'a option) \<Rightarrow> 'o memory \<Rightarrow> usize \<Rightarrow> ('a \<Rightarrow> region list) \<Rightarrow> region list" where
  "backing_regions sel m p f = (case Option.bind (mem_objs m p) sel of Some x \<Rightarrow> f x | None \<Rightarrow> [])"

definition counter_regions :: "'a element_type \<Rightarrow> nat \<Rightarrow> usize \<Rightarrow> region list" where
  "counter_regions T N base = map (\<lambda>i. (base + of_nat i * slot_size T + counter_offset T, 8)) [0..<N]"

definition head_regions :: "nat \<Rightarrow> 'a element_type \<Rightarrow> 'a spsc_queue \<Rightarrow> region list" where
  "head_regions N T q = (let a = slot_ptr T q (slot_index N (head q)) in [(a, type_size T), (a + counter_offset T, 8)])"

definition tail_regions :: "nat \<Rightarrow> 'a element_type \<Rightarrow> 'a spsc_queue \<Rightarrow> region list" where
  "tail_regions N T q = [(slot_ptr T q (slot_index N (tail q)), type_size T)]"

datatype scheduler_call =
    SchedulerInit usize
  | SchedulerDestroy usize
  | TcbNew u64 u64 usize u64 u8 usize
  | TcbGetRsp usize
  | TcbSetRsp usize u64
  | CreateTask usize usize u64
  | Tick usize u64
  | SetCriticalTaskMask usize u16
  | TaskCheckIn usize u8

fun run_scheduler_call :: "rtos_layouts \<Rightarrow> scheduler_call \<Rightarrow> u64 rtos_prog" where
  "run_scheduler_call L (SchedulerInit scheduler) = code_word (shawncore_rtos_scheduler_init L scheduler)"
| "run_scheduler_call L (SchedulerDestroy scheduler) = code_word (shawncore_rtos_scheduler_destroy L scheduler)"
| "run_scheduler_call L (TcbNew entry base sz sp prio out_tcb) = code_word (shawncore_rtos_tcb_new L entry base sz sp prio out_tcb)"
| "run_scheduler_call L (TcbGetRsp t) = shawncore_rtos_tcb_get_rsp L t"
| "run_scheduler_call L (TcbSetRsp t sp) = code_word (shawncore_rtos_tcb_set_rsp L t sp)"
| "run_scheduler_call L (CreateTask scheduler t canary) = code_word (shawncore_rtos_scheduler_create_task L scheduler t canary)"
| "run_scheduler_call L (Tick scheduler sp) = shawncore_rtos_scheduler_tick L scheduler sp"
| "run_scheduler_call L (SetCriticalTaskMask scheduler critical) = code_word (shawncore_rtos_scheduler_set_critical_task_mask L scheduler critical)"
| "run_scheduler_call L (TaskCheckIn scheduler prio) = code_word (shawncore_rtos_scheduler_task_check_in L scheduler prio)"

fun scheduler_writes :: "rtos_layouts \<Rightarrow> rtos_obj memory \<Rightarrow> scheduler_call \<Rightarrow> region list" where
  "scheduler_writes L m (SchedulerInit scheduler) = [(scheduler, layout_size (l_scheduler L))]"
| "scheduler_writes L m (SchedulerDestroy scheduler) = [(scheduler, layout_size (l_scheduler L))]"
| "scheduler_writes L m (TcbNew _ _ _ _ _ out_tcb) = [(out_tcb, layout_size (l_tcb L))]"
| "scheduler_writes L m (TcbGetRsp _) = []"
| "scheduler_writes L m (TcbSetRsp t _) = [(t, layout_size (l_tcb L))]"
| "scheduler_writes L m (CreateTask scheduler t _) = (scheduler, layout_size (l_scheduler L)) #
     (case Option.bind (mem_objs m t) as_tcb of Some tcb_val \<Rightarrow> [(stack_base tcb_val, 8)] | None \<Rightarrow> [])"
| "scheduler_writes L m (Tick scheduler _) = [(scheduler, layout_size (l_scheduler L))]"
| "scheduler_writes L m (SetCriticalTaskMask scheduler _) = [(scheduler, layout_size (l_scheduler L))]"
| "scheduler_writes L m (TaskCheckIn scheduler _) = [(scheduler, layout_size (l_scheduler L))]"

datatype pool_call =
    PoolInit usize usize usize
  | PoolDestroy usize
  | PoolAllocate "bool list" usize usize usize usize
  | PoolFree "bool list" usize usize u64

fun run_pool_call :: "rtos_layouts \<Rightarrow> pool_call \<Rightarrow> u64 rtos_prog" where
  "run_pool_call L (PoolInit pool base sz) = code_word (shawncore_rtos_dmapool2k_init L pool base sz)"
| "run_pool_call L (PoolDestroy pool) = code_word (shawncore_rtos_dmapool2k_destroy L pool)"
| "run_pool_call L (PoolAllocate sched pool out_idx out_gen out_ptr) = code_word (shawncore_rtos_dmapool2k_allocate L sched pool out_idx out_gen out_ptr)"
| "run_pool_call L (PoolFree sched pool idx gen) = code_word (shawncore_rtos_dmapool2k_free L sched pool idx gen)"

fun pool_writes :: "rtos_layouts \<Rightarrow> rtos_obj memory \<Rightarrow> pool_call \<Rightarrow> region list" where
  "pool_writes L m (PoolInit pool _ _) = [(pool, layout_size (l_dmapool2k L))]"
| "pool_writes L m (PoolDestroy pool) = [(pool, layout_size (l_dmapool2k L))]"
| "pool_writes L m (PoolAllocate _ pool out_idx out_gen out_ptr) = [(pool, layout_size (l_dmapool2k L)), (out_idx, 8), (out_gen, 8), (out_ptr, 8)]"
| "pool_writes L m (PoolFree _ pool idx _) = (pool, layout_size (l_dmapool2k L)) #
     backing_regions as_dmapool2k m pool (\<lambda>p. [(dma_memory p + idx * dma_size dmapool2k_type, dma_size dmapool2k_type)])"

datatype telemetry_call =
    TelemetryInit "nat \<Rightarrow> telemetry_event queue_slot" usize usize usize
  | TelemetryDestroy usize
  | TelemetryPush usize usize
  | TelemetryPop usize usize

fun run_telemetry_call :: "rtos_layouts \<Rightarrow> telemetry_call \<Rightarrow> u64 rtos_prog" where
  "run_telemetry_call L (TelemetryInit backing queue base sz) = code_word (shawncore_rtos_spsc_telemetry_init L backing queue base sz)"
| "run_telemetry_call L (TelemetryDestroy queue) = code_word (shawncore_rtos_spsc_telemetry_destroy L queue)"
| "run_telemetry_call L (TelemetryPush queue item) = code_word (shawncore_rtos_spsc_telemetry_push L queue item)"
| "run_telemetry_call L (TelemetryPop queue out) = code_word (shawncore_rtos_spsc_telemetry_pop L queue out)"

fun telemetry_writes :: "rtos_layouts \<Rightarrow> rtos_obj memory \<Rightarrow> telemetry_call \<Rightarrow> region list" where
  "telemetry_writes L m (TelemetryInit _ queue base _) = (queue, layout_size (l_telemetry_queue L)) #
     counter_regions (telemetry_type L) 64 base"
| "telemetry_writes L m (TelemetryDestroy queue) = [(queue, layout_size (l_telemetry_queue L))]"
| "telemetry_writes L m (TelemetryPush queue _) = (queue, layout_size (l_telemetry_queue L)) #
     backing_regions as_telemetry_queue m queue (head_regions 64 (telemetry_type L))"
| "telemetry_writes L m (TelemetryPop queue out) = (queue, layout_size (l_telemetry_queue L)) # (out, layout_size (l_telemetry_event L)) #
     backing_regions as_telemetry_queue m queue (tail_regions 64 (telemetry_type L))"

datatype ew_ring_call =
    EwRingInit "nat \<Rightarrow> ew_command queue_slot" usize usize usize
  | EwRingDestroy usize
  | EwRingPush usize usize
  | EwRingPop usize usize
  | EwRingPeek usize usize

fun run_ew_ring_call :: "rtos_layouts \<Rightarrow> ew_ring_call \<Rightarrow> u64 rtos_prog" where
  "run_ew_ring_call L (EwRingInit backing queue base sz) = code_word (shawncore_rtos_ringbuffer_ew_init L backing queue base sz)"
| "run_ew_ring_call L (EwRingDestroy queue) = code_word (shawncore_rtos_ringbuffer_ew_destroy L queue)"
| "run_ew_ring_call L (EwRingPush queue item) = code_word (shawncore_rtos_ringbuffer_ew_push L queue item)"
| "run_ew_ring_call L (EwRingPop queue out) = code_word (shawncore_rtos_ringbuffer_ew_pop L queue out)"
| "run_ew_ring_call L (EwRingPeek queue out) = code_word (shawncore_rtos_ringbuffer_ew_peek L queue out)"

fun ew_ring_writes :: "rtos_layouts \<Rightarrow> rtos_obj memory \<Rightarrow> ew_ring_call \<Rightarrow> region list" where
  "ew_ring_writes L m (EwRingInit _ queue base _) = (queue, layout_size (l_ew_ring L)) #
     counter_regions (ew_type L) 1024 base"
| "ew_ring_writes L m (EwRingDestroy queue) = [(queue, layout_size (l_ew_ring L))]"
| "ew_ring_writes L m (EwRingPush queue _) = (queue, layout_size (l_ew_ring L)) #
     backing_regions as_ew_ring m queue (head_regions 1024 (ew_type L))"
| "ew_ring_writes L m (EwRingPop queue out) = (queue, layout_size (l_ew_ring L)) # (out, layout_size (l_ew_command L)) #
     backing_regions as_ew_ring m queue (tail_regions 1024 (ew_type L))"
| "ew_ring_writes L m (EwRingPeek queue out) = [(queue, layout_size (l_ew_ring L)), (out, layout_size (l_ew_command L))]"

datatype fft_call =
    FftInit "nat \<Rightarrow> fft_result queue_slot" usize usize usize
  | FftDestroy usize
  | FftPush usize usize
  | FftPop usize usize

fun run_fft_call :: "rtos_layouts \<Rightarrow> fft_call \<Rightarrow> u64 rtos_prog" where
  "run_fft_call L (FftInit backing queue base sz) = code_word (shawncore_rtos_spsc_fft_init L backing queue base sz)"
| "run_fft_call L (FftDestroy queue) = code_word (shawncore_rtos_spsc_fft_destroy L queue)"
| "run_fft_call L (FftPush queue item) = code_word (shawncore_rtos_spsc_fft_push L queue item)"
| "run_fft_call L (FftPop queue out) = code_word (shawncore_rtos_spsc_fft_pop L queue out)"

fun fft_writes :: "rtos_layouts \<Rightarrow> rtos_obj memory \<Rightarrow> fft_call \<Rightarrow> region list" where
  "fft_writes L m (FftInit _ queue base _) = (queue, layout_size (l_fft_queue L)) #
     counter_regions (fft_type L) 256 base"
| "fft_writes L m (FftDestroy queue) = [(queue, layout_size (l_fft_queue L))]"
| "fft_writes L m (FftPush queue _) = (queue, layout_size (l_fft_queue L)) #
     backing_regions as_fft_queue m queue (head_regions 256 (fft_type L))"
| "fft_writes L m (FftPop queue out) = (queue, layout_size (l_fft_queue L)) # (out, layout_size (l_fft_result L)) #
     backing_regions as_fft_queue m queue (tail_regions 256 (fft_type L))"

datatype machine_call =
    MachineInit usize
  | MachineDestroy usize
  | MachineTryAdvance "bool list" usize u8

fun run_machine_call :: "rtos_layouts \<Rightarrow> machine_call \<Rightarrow> u64 rtos_prog" where
  "run_machine_call L (MachineInit sm) = code_word (shawncore_rtos_state_machine_init L sm)"
| "run_machine_call L (MachineDestroy sm) = code_word (shawncore_rtos_state_machine_destroy L sm)"
| "run_machine_call L (MachineTryAdvance sched sm target) = code_word (shawncore_rtos_state_machine_try_advance L sched sm target)"

fun machine_writes :: "rtos_layouts \<Rightarrow> rtos_obj memory \<Rightarrow> machine_call \<Rightarrow> region list" where
  "machine_writes L m (MachineInit sm) = [(sm, layout_size (l_state_machine L))]"
| "machine_writes L m (MachineDestroy sm) = [(sm, layout_size (l_state_machine L))]"
| "machine_writes L m (MachineTryAdvance _ sm _) = [(sm, layout_size (l_state_machine L))]"

datatype tracker_call =
    TrackerInit usize
  | TrackerDestroy usize
  | TrackerMarkStart usize u64
  | TrackerMarkEnd "bool list" "bool list" usize u64

fun run_tracker_call :: "rtos_layouts \<Rightarrow> tracker_call \<Rightarrow> u64 rtos_prog" where
  "run_tracker_call L (TrackerInit tracker) = code_word (shawncore_rtos_latency_tracker_init L tracker)"
| "run_tracker_call L (TrackerDestroy tracker) = code_word (shawncore_rtos_latency_tracker_destroy L tracker)"
| "run_tracker_call L (TrackerMarkStart tracker now) = code_word (shawncore_rtos_latency_tracker_mark_start L tracker now)"
| "run_tracker_call L (TrackerMarkEnd max_sched total_sched tracker now) = code_word (shawncore_rtos_latency_tracker_mark_end L max_sched total_sched tracker now)"

fun tracker_writes :: "rtos_layouts \<Rightarrow> rtos_obj memory \<Rightarrow> tracker_call \<Rightarrow> region list" where
  "tracker_writes L m (TrackerInit tracker) = [(tracker, layout_size (l_latency_tracker L))]"
| "tracker_writes L m (TrackerDestroy tracker) = [(tracker, layout_size (l_latency_tracker L))]"
| "tracker_writes L m (TrackerMarkStart tracker _) = [(tracker, layout_size (l_latency_tracker L))]"
| "tracker_writes L m (TrackerMarkEnd _ _ tracker _) = [(tracker, layout_size (l_latency_tracker L))]"

datatype boundary_call =
    SchedulerCall scheduler_call
  | PoolCall pool_call
  | TelemetryCall telemetry_call
  | EwRingCall ew_ring_call
  | FftCall fft_call
  | MachineCall machine_call
  | TrackerCall tracker_call

fun rtos_boundary :: "rtos_layouts \<Rightarrow> boundary_call \<Rightarrow> u64 rtos_prog" where
  "rtos_boundary L (SchedulerCall c) = run_scheduler_call L c"
| "rtos_boundary L (PoolCall c) = run_pool_call L c"
| "rtos_boundary L (TelemetryCall c) = run_telemetry_call L c"
| "rtos_boundary L (EwRingCall c) = run_ew_ring_call L c"
| "rtos_boundary L (FftCall c) = run_fft_call L c"
| "rtos_boundary L (MachineCall c) = run_machine_call L c"
| "rtos_boundary L (TrackerCall c) = run_tracker_call L c"

fun rtos_writes :: "rtos_layouts \<Rightarrow> rtos_obj memory \<Rightarrow> boundary_call \<Rightarrow> region list" where
  "rtos_writes L m (SchedulerCall c) = scheduler_writes L m c"
| "rtos_writes L m (PoolCall c) = pool_writes L m c"
| "rtos_writes L m (TelemetryCall c) = telemetry_writes L m c"
| "rtos_writes L m (EwRingCall c) = ew_ring_writes L m c"
| "rtos_writes L m (FftCall c) = fft_writes L m c"
| "rtos_writes L m (MachineCall c) = machine_writes L m c"
| "rtos_writes L m (TrackerCall c) = tracker_writes L m c"

text \<open>
  A host program: calls in order, as long as each returns, and between them stores of the host itself.  The
  payloads are plain C structs that the host fills in; it may also write any bytes anywhere.  The
  results are the values of the calls.
\<close>

datatype host_action =
    Call boundary_call
  | StoreEvent usize telemetry_event
  | StoreCommand usize ew_command
  | StoreResult usize fft_result
  | StoreBytes usize bytes

fun host_act :: "rtos_layouts \<Rightarrow> host_action \<Rightarrow> u64 list rtos_prog" where
  "host_act L (Call c) = bindP (rtos_boundary L c) (\<lambda>r. ret [r])"
| "host_act L (StoreEvent p event) = seqP (write_obj (rtos_objs L) p (ObjTelemetryEvent event)) (ret [])"
| "host_act L (StoreCommand p item) = seqP (write_obj (rtos_objs L) p (ObjEwCommand item)) (ret [])"
| "host_act L (StoreResult p item) = seqP (write_obj (rtos_objs L) p (ObjFftResult item)) (ret [])"
| "host_act L (StoreBytes p bs) = seqP (write_bytes (rtos_objs L) p bs) (ret [])"

fun run_host :: "rtos_layouts \<Rightarrow> host_action list \<Rightarrow> u64 list rtos_prog" where
  "run_host L [] = ret []"
| "run_host L (a # as) = bindP (host_act L a) (\<lambda>r. bindP (run_host L as) (\<lambda>rs. ret (r @ rs)))"

subsection \<open>Well-formed objects\<close>

definition queue_ok :: "nat \<Rightarrow> 'a spsc_queue \<Rightarrow> bool" where
  "queue_ok N q \<longleftrightarrow> (if is_initialized q then spsc_inv N q else head q = tail q)"

definition pool_ok :: "dma_pool \<Rightarrow> bool" where
  "pool_ok p \<longleftrightarrow> (pool_initialized p \<longrightarrow> (\<exists>fl. pool_inv 256 p fl))"

definition state_ok :: "state_machine \<Rightarrow> bool" where
  "state_ok m \<longleftrightarrow> current_state m \<in> state_u8 ` {Init, Bootstrapping, Operational, Degraded, Terminal}"

fun rtos_obj_ok :: "rtos_obj \<Rightarrow> bool" where
  "rtos_obj_ok (ObjScheduler s) = sched_inv s"
| "rtos_obj_ok (ObjDmaPool p) = pool_ok p"
| "rtos_obj_ok (ObjTelemetryQueue q) = queue_ok 64 q"
| "rtos_obj_ok (ObjEwRing q) = queue_ok 1024 q"
| "rtos_obj_ok (ObjFftQueue q) = queue_ok 256 q"
| "rtos_obj_ok (ObjStateMachine m) = state_ok m"
| "rtos_obj_ok _ = True"

lemmas rtos_ffi_defs =
  shawncore_rtos_scheduler_init_def
  shawncore_rtos_scheduler_destroy_def
  shawncore_rtos_tcb_new_def
  shawncore_rtos_tcb_get_rsp_def
  shawncore_rtos_tcb_set_rsp_def
  shawncore_rtos_scheduler_create_task_def
  shawncore_rtos_scheduler_tick_def
  shawncore_rtos_scheduler_set_critical_task_mask_def
  shawncore_rtos_scheduler_task_check_in_def
  shawncore_rtos_dmapool2k_init_def
  shawncore_rtos_dmapool2k_destroy_def
  shawncore_rtos_dmapool2k_allocate_def
  shawncore_rtos_dmapool2k_free_def
  shawncore_rtos_spsc_telemetry_init_def
  shawncore_rtos_spsc_telemetry_destroy_def
  shawncore_rtos_spsc_telemetry_push_def
  shawncore_rtos_spsc_telemetry_pop_def
  shawncore_rtos_ringbuffer_ew_init_def
  shawncore_rtos_ringbuffer_ew_destroy_def
  shawncore_rtos_ringbuffer_ew_push_def
  shawncore_rtos_ringbuffer_ew_pop_def
  shawncore_rtos_ringbuffer_ew_peek_def
  shawncore_rtos_spsc_fft_init_def
  shawncore_rtos_spsc_fft_destroy_def
  shawncore_rtos_spsc_fft_push_def
  shawncore_rtos_spsc_fft_pop_def
  shawncore_rtos_state_machine_init_def
  shawncore_rtos_state_machine_destroy_def
  shawncore_rtos_state_machine_try_advance_def
  shawncore_rtos_latency_tracker_init_def
  shawncore_rtos_latency_tracker_destroy_def
  shawncore_rtos_latency_tracker_mark_start_def
  shawncore_rtos_latency_tracker_mark_end_def
subsection \<open>The overlap test\<close>

lemma rtos_ranges_overlap_iff:
  assumes "n \<noteq> 0" "m \<noteq> 0"
  shows "rtos_ranges_overlap a n b m \<longleftrightarrow>
    2 ^ 64 \<le> unat a + unat n \<or> 2 ^ 64 \<le> unat b + unat m \<or> regions_meet (a, n) (b, m)"
proof (cases "unat a + unat n < 2 ^ 64 \<and> unat b + unat m < 2 ^ 64")
  case True
  then have e: "checked_add a n = Some (a + n)" "checked_add b m = Some (b + m)"
    by (simp_all add: checked_add_def)
  note u = unat_checked_add [OF e(1)] unat_checked_add [OF e(2)]
  show ?thesis
    using True regions_meet_intervals [OF assms, of a b]
    by (simp add: rtos_ranges_overlap_def e word_less_nat_alt u del: regions_meet.simps)
next
  case False
  then show ?thesis by (auto simp: rtos_ranges_overlap_def checked_add_def)
qed

subsection \<open>Operations keep objects well-formed\<close>

lemma spsc_inv_ok: "spsc_inv N q \<Longrightarrow> queue_ok N q"
  by (simp add: queue_ok_def spsc_inv_def)

lemma queue_ok_init:
  assumes "is_power_of_two N" "length memory = N" "queue_ok N q"
    and "spsc_init N T base sz memory q = (r, q')"
  shows "queue_ok N q'"
proof (cases r)
  case (Inl e)
  then show ?thesis
    using assms(3,4) by (auto simp: spsc_init_def Let_def split: if_splits option.splits)
next
  case (Inr u)
  then have r: "spsc_init N T base sz memory q = (Ok (), q')" using assms(4) by simp
  then have "\<not> is_initialized q" by (auto simp: spsc_init_def split: if_splits option.splits)
  then show ?thesis
    using spsc_init_Ok [OF r] assms(1-3) by (simp add: queue_ok_def spsc_inv_def odd_word_def)
qed

lemma queue_ok_push:
  assumes "queue_ok N q" "spsc_push N T x (q, h) = Ret r (q', h')"
  shows "queue_ok N q'"
proof (cases "is_initialized q \<and> unat (head q - tail q) < N")
  case True
  then have inv: "spsc_inv N q" and room: "unat (head q - tail q) < N"
    using assms(1) by (simp_all add: queue_ok_def)
  show ?thesis
  proof (cases "cache_flush_cb h = 0")
    case True
    then show ?thesis
      using assms(2) \<open>is_initialized q \<and> _\<close> by (simp add: spsc_push_def queue_exec not_le)
  next
    case False
    then show ?thesis
      using assms(2) spsc_push_room [OF inv False room, of T x] spsc_inv_pushed(1) [OF inv room, of x]
      by (auto intro: spsc_inv_ok)
  qed
next
  case False
  then show ?thesis using assms by (auto simp: spsc_push_def not_less split: if_splits)
qed

lemma queue_ok_pop:
  assumes "queue_ok N q" "spsc_pop N T (\<lambda>slot. slot) (q, h) = Ret r (q', h')"
  shows "queue_ok N q'"
proof (cases "is_initialized q \<and> head q \<noteq> tail q")
  case True
  then have inv: "spsc_inv N q" and ne: "head q \<noteq> tail q"
    using assms(1) by (simp_all add: queue_ok_def)
  have ev: "\<not> odd_word (sequence_counter (slots q ! slot_index N (tail q)))"
    using inv spsc_inv_bounds [OF inv] by (simp add: spsc_inv_def)
  show ?thesis
  proof (cases "cache_invalidate_cb h = 0")
    case True
    then show ?thesis
      using assms(2) ev \<open>is_initialized q \<and> _\<close> by (simp add: spsc_pop_def queue_exec)
  next
    case False
    then show ?thesis
      using assms(2) spsc_pop_next [OF inv False ne, of "\<lambda>slot. slot" T] spsc_inv_popped(1) [OF inv ne, of T]
      by (auto intro: spsc_inv_ok)
  qed
next
  case False
  then show ?thesis using assms by (auto simp: spsc_pop_def split: if_splits)
qed

lemma ring_peek_keeps:
  assumes "ring_peek N T (\<lambda>slot. slot) (q, h) = Ret r (q', h')"
  shows "q' = q"
  using assms
  by (auto simp: ring_peek_def Let_def bindP_eq_Ret seqP_eq_Ret hostP_eq_Ret read_data_def
      split: if_splits cell.splits)

lemma pool_ok_init:
  assumes "pool_ok p" "dma_init 256 W T base sz region p = (r, p')"
  shows "pool_ok p'"
proof (cases r)
  case (Inl e)
  then show ?thesis
    using assms by (auto simp: dma_init_def split: if_splits option.splits)
next
  case (Inr x)
  then show ?thesis
    using pool_inv_init(1) [of 256 W T base sz region p p'] assms(2) by (auto simp: pool_ok_def)
qed

lemma allocate_loop_spurious:
  assumes "False \<notin> set sched" "fst (unpack_head (free_list_head p)) \<noteq> FREE_LIST_EMPTY"
  shows "allocate_loop debug T sched (free_list_head p) (p, h) = Running (p, h)"
  using assms
  by (induction sched) (subst allocate_loop.simps, auto simp: split_beta Let_def)+

lemma push_free_loop_spurious:
  assumes "False \<notin> set sched"
  shows "\<exists>p'. push_free_loop i sched observed (p, h) = Running (p', h)"
  using assms
  by (induction sched arbitrary: observed p) (subst push_free_loop.simps, auto simp: split_beta Let_def)+

lemma pool_ok_allocate:
  assumes "pool_ok p" "dma_allocate debug T sched (p, h) = Ret r (p', h')"
  shows "pool_ok p'"
proof (cases "pool_initialized p")
  case True
  then obtain fl where inv: "pool_inv 256 p fl" using assms(1) by (auto simp: pool_ok_def)
  show ?thesis
  proof (cases fl)
    case Nil
    then show ?thesis using assms inv dma_allocate_empty [of 256 p] by simp
  next
    case (Cons i fl')
    have "False \<in> set sched"
    proof (rule ccontr)
      assume s: "False \<notin> set sched"
      have "fst (unpack_head (free_list_head p)) \<noteq> FREE_LIST_EMPTY"
        using inv Cons by (auto simp: pool_inv_def)
      from allocate_loop_spurious [OF s this] show False
        using assms(2) True by (simp add: dma_allocate_def)
    qed
    then show ?thesis
      using assms(2) inv Cons dma_allocate_next [of 256 p i fl' sched debug T h]
        pool_inv_allocated [of 256 p i fl']
      by (auto simp: pool_ok_def)
  qed
next
  case False
  then show ?thesis using assms by (simp add: dma_allocate_def)
qed

lemma pool_ok_free:
  assumes "pool_ok p" "dma_free 256 T sched i g (p, h) = Ret r (p', h')"
  shows "pool_ok p'"
proof (cases "pool_initialized p")
  case True
  then obtain fl where inv: "pool_inv 256 p fl" using assms(1) by (auto simp: pool_ok_def)
  show ?thesis
  proof (cases "owner_token p i = Some g")
    case owner: True
    have i: "i < 256" "bit (ownership p ! i) 63" "take_bit 63 (ownership p ! i) = g"
      using inv owner by (auto simp: owner_token_def pool_inv_def split: if_splits)
    have g: "take_bit 63 g = g" using i(3) by auto
    then have own: "ownership p ! i = OWNERSHIP_ALLOCATED_BIT OR g" using i owned_word_iff by blast
    have flush: "cache_flush_cb h \<noteq> 0"
    proof
      assume "cache_flush_cb h = 0"
      then show False
        using assms(2) True i(1) own g not_over_mask [of g] by (simp add: dma_free_def Let_def host_simps)
    qed
    have "False \<in> set sched"
    proof (rule ccontr)
      assume "False \<notin> set sched"
      note sp = push_free_loop_spurious [OF this]
      show False
        using assms(2) True i(1) own g not_over_mask [of g] flush sp
        by (simp add: dma_free_def Let_def host_simps) (metis res.distinct(5))
    qed
    then show ?thesis
      using assms(2) dma_free_owner [OF inv owner flush, of sched T] pool_inv_freed [OF inv owner, of T]
      by (auto simp: pool_ok_def)
  next
    case False
    then show ?thesis
      using assms True dma_free_refused [of p 256 i g T sched h] inv by (simp add: pool_inv_def)
  qed
next
  case False
  then show ?thesis using assms by (simp add: dma_free_def)
qed

lemma state_ok_advance:
  assumes "state_ok m" "try_advance sched target m = Some (r, m')"
  shows "state_ok m'"
proof -
  have "(r, m') = (if valid_transition (current_state m) (state_u8 target)
      then (Ok (), m\<lparr>current_state := state_u8 target\<rparr>) else (Err (), m))"
    using assms(2) advance_loop_current unfolding try_advance_def by metis
  then show ?thesis using assms(1) by (cases target) (auto simp: state_ok_def split: if_splits)
qed

lemma new_objs_ok:
  "pool_ok (dma_new 256)" "queue_ok N spsc_new" "queue_ok N ring_new" "state_ok state_machine_new"
  by (simp_all add: pool_ok_def dma_new_def queue_ok_def spsc_new_def ring_new_def state_ok_def
      state_machine_new_def)

lemma queue_sizes: "is_power_of_two 64" "is_power_of_two 256" "is_power_of_two 1024"
proof -
  have "is_power_of_two (2 ^ k)" if "k < 64" for k
    unfolding is_power_of_two_def using that by auto
  from this [of 6] this [of 8] this [of 10]
  show "is_power_of_two 64" "is_power_of_two 256" "is_power_of_two 1024" by simp_all
qed

lemmas queue_ok_init_backing = queue_ok_init [where memory = "map f [0..<N]" and N = N for f N, simplified]

text \<open>The operations on an object behind a pointer, as the rule for \<open>on_obj\<close> needs them.\<close>

lemma as_inverse [simp]:
  "as_scheduler y = Some a \<longleftrightarrow> y = ObjScheduler a" "as_tcb y = Some b \<longleftrightarrow> y = ObjTcb b"
  "as_dmapool2k y = Some c \<longleftrightarrow> y = ObjDmaPool c"
  "as_telemetry_queue y = Some d \<longleftrightarrow> y = ObjTelemetryQueue d"
  "as_telemetry_event y = Some e \<longleftrightarrow> y = ObjTelemetryEvent e"
  "as_ew_ring y = Some f \<longleftrightarrow> y = ObjEwRing f" "as_ew_command y = Some g \<longleftrightarrow> y = ObjEwCommand g"
  "as_fft_queue y = Some i \<longleftrightarrow> y = ObjFftQueue i" "as_fft_result y = Some j \<longleftrightarrow> y = ObjFftResult j"
  "as_state_machine y = Some k \<longleftrightarrow> y = ObjStateMachine k"
  "as_latency_tracker y = Some l \<longleftrightarrow> y = ObjLatencyTracker l"
  by (cases y; simp)+

lemma pureP_Ret: "pureP f (x, h) = Ret r (x', h') \<longleftrightarrow> f x = (r, x') \<and> h' = h"
  by (auto simp: pureP_def split: prod.splits)

lemma loopP_Ret: "loopP f (x, h) = Ret r (x', h') \<longleftrightarrow> f x = Some (r, x') \<and> h' = h"
  by (auto simp: loopP_def split: option.splits)

lemmas component_keeps = sched_inv_create sched_inv_tick sched_inv_critical sched_inv_check_in
  sched_inv_new pool_ok_init pool_ok_allocate pool_ok_free queue_ok_init_backing [OF queue_sizes(1)]
  queue_ok_init_backing [OF queue_sizes(2)] queue_ok_init_backing [OF queue_sizes(3)] queue_ok_push queue_ok_pop
  state_ok_advance new_objs_ok

lemmas boundary_ok_simps = code_word_def rtos_ffi_defs ring_eq_spsc pureP_Ret loopP_Ret

lemma scheduler_call_keeps: "keeps rtos_obj_ok (run_scheduler_call L c)"
  by (cases c) (auto simp: boundary_ok_simps intro!: keep_intros split: prod.splits
    intro: component_keeps)

lemma pool_call_keeps: "keeps rtos_obj_ok (run_pool_call L c)"
  by (cases c) (auto simp: boundary_ok_simps intro!: keep_intros split: prod.splits
    intro: component_keeps)

lemma telemetry_call_keeps: "keeps rtos_obj_ok (run_telemetry_call L c)"
  by (cases c) (auto simp: boundary_ok_simps intro!: keep_intros intro: component_keeps)

lemma fft_call_keeps: "keeps rtos_obj_ok (run_fft_call L c)"
  by (cases c) (auto simp: boundary_ok_simps intro!: keep_intros intro: component_keeps)

lemma ew_ring_call_keeps: "keeps rtos_obj_ok (run_ew_ring_call L c)"
  by (cases c) (auto simp: boundary_ok_simps intro!: keep_intros dest: ring_peek_keeps
    intro: component_keeps)

lemma machine_call_keeps: "keeps rtos_obj_ok (run_machine_call L c)"
  by (cases c) (auto simp: boundary_ok_simps intro!: keep_intros intro: component_keeps)

lemma tracker_call_keeps: "keeps rtos_obj_ok (run_tracker_call L c)"
  by (cases c) (auto simp: boundary_ok_simps intro!: keep_intros)

lemma rtos_boundary_keeps: "keeps rtos_obj_ok (rtos_boundary L c)"
  by (cases c) (simp_all add: scheduler_call_keeps pool_call_keeps telemetry_call_keeps
      ew_ring_call_keeps fft_call_keeps machine_call_keeps tracker_call_keeps)

lemma host_act_keeps: "keeps rtos_obj_ok (host_act L a)"
  by (cases a) (auto simp del: ret_apply intro!: keep_intros rtos_boundary_keeps)

lemma run_host_keeps: "keeps rtos_obj_ok (run_host L as)"
  by (induction "as") (auto simp del: ret_apply intro!: keep_intros host_act_keeps)

subsection \<open>Calls write only the storage they are given\<close>

lemma obj_size_rtos [simp]: "obj_size (rtos_objs L) x = layout_size (rtos_obj_layout L x)"
  by (simp add: rtos_objs_def)

lemmas frame_simps = code_word_def rtos_ffi_defs

text \<open>Which slots an operation of a queue or a pool changes, however it ends.\<close>

lemma push_ends:
  "ends_with (\<lambda>s. buffer (fst s) = buffer q \<and> (\<exists>t. slots (fst s) = (slots q)[slot_index N (head q) := t]))
     (spsc_push N T x (q, h))"
  by (cases "cache_flush_cb h = 0")
    (auto simp: spsc_push_def queue_exec put_sequence_def put_data_def intro: exI [of _ "slots q ! slot_index N (head q)"])

lemma pop_ends:
  "ends_with (\<lambda>s. buffer (fst s) = buffer q \<and>
     (\<exists>d. slots (fst s) = (slots q)[slot_index N (tail q) := (slots q ! slot_index N (tail q))\<lparr>slot_data := d\<rparr>]))
     (spsc_pop N T (\<lambda>slot. slot) (q, h))"
proof -
  have "\<exists>d. slots q = (slots q)[slot_index N (tail q) := (slots q ! slot_index N (tail q))\<lparr>slot_data := d\<rparr>]"
    by (rule exI [of _ "slot_data (slots q ! slot_index N (tail q))"]) simp
  moreover have "\<exists>d. (slots q)[i := ((slots q)[i := (slots q ! i)\<lparr>slot_data := ZeroBytes\<rparr>] ! i)\<lparr>slot_data := v\<rparr>] =
      (slots q)[i := (slots q ! i)\<lparr>slot_data := d\<rparr>]" for i v
    by (cases "i < length (slots q)") (auto simp: list_update_beyond)
  ultimately show ?thesis
    by (cases "cache_invalidate_cb h = 0"; cases "slot_data (slots q ! slot_index N (tail q))")
      (auto simp: spsc_pop_def queue_exec put_data_def read_data_def)
qed

lemma peek_ends: "ends_with (\<lambda>s. buffer (fst s) = buffer q \<and> slots (fst s) = slots q) (ring_peek N T (\<lambda>slot. slot) (q, h))"
  by (cases "cache_invalidate_cb h = 0"; cases "slot_data (slots q ! slot_index N (tail q))")
    (auto simp: ring_peek_def queue_exec read_data_def)

lemma push_free_ends:
  "ends_with (\<lambda>s. dma_memory (fst s) = dma_memory p \<and> ownership (fst s) = ownership p \<and> storage (fst s) = storage p)
     (push_free_loop i sched observed (p, h))"
proof (induction sched arbitrary: observed p)
  case (Cons b sched)
  show ?case by (subst push_free_loop.simps) (auto simp: Let_def split_beta intro: ends_with_mono [OF Cons])
qed (subst push_free_loop.simps, simp add: Let_def split_beta)

lemma zeroed_slot_apart:
  assumes "zeroed (i * n) (i * n + n) bs bs'" "j \<noteq> i"
  shows "take n (drop (j * n) bs') = take n (drop (j * n) bs)"
proof (rule nth_equalityI)
  show "length (take n (drop (j * n) bs')) = length (take n (drop (j * n) bs))" using assms(1) by (simp add: zeroed_def)
  fix k assume "k < length (take n (drop (j * n) bs'))"
  then have k: "k < n" "j * n + k < length bs" using assms(1) by (auto simp: zeroed_def)
  have "\<not> (i * n \<le> j * n + k \<and> j * n + k < i * n + n)"
  proof
    assume "i * n \<le> j * n + k \<and> j * n + k < i * n + n"
    then have "(j * n + k) div n = i" using k(1) by (intro div_nat_eqI) (auto simp: algebra_simps)
    then show False using k(1) assms(2) by simp
  qed
  then show "take n (drop (j * n) bs') ! k = take n (drop (j * n) bs) ! k"
    using assms(1) k by (auto simp: zeroed_def)
qed

lemma free_ends:
  "ends_with (\<lambda>s. dma_memory (fst s) = dma_memory p \<and> length (ownership (fst s)) = length (ownership p) \<and>
     (\<forall>j. j \<noteq> i \<longrightarrow> ownership (fst s) ! j = ownership p ! j \<and> pool_slot T j (fst s) = pool_slot T j p))
     (dma_free N T sched i g (p, h))"
proof -
  let ?n = "unat (dma_size T)" and ?a = "dma_memory p + of_nat i * dma_size T"
  let ?p = "p\<lparr>ownership := (ownership p)[i := g], storage := wipe_slot ?a (i * ?n) ?n (storage p)\<rparr>"
  have wiped: "pool_slot T j ?p = pool_slot T j p" if "j \<noteq> i" for j
    using zeroed_slot_apart [OF wipe_slot_zeroed that] by (simp add: pool_slot_def)
  have loop: "ends_with (\<lambda>s. dma_memory (fst s) = dma_memory p \<and> ownership (fst s) = ownership ?p \<and> storage (fst s) = storage ?p)
      (push_free_loop i sched (free_list_head p) (?p, h'))" for h'
    using push_free_ends [of ?p i sched "free_list_head p" h'] by simp
  show ?thesis
    using wiped
    by (cases "cache_flush_cb h = 0")
      (auto simp: dma_free_def Let_def host_simps pool_slot_def intro: ends_with_mono [OF loop])
qed

text \<open>The stores they make are covered by the regions of the call.\<close>

lemma covers_concat: "covers W (concat wss) \<longleftrightarrow> (\<forall>ws\<in>set wss. covers W ws)"
  by (auto simp: covers_def)

lemma covers_Nil [simp]: "covers W []"
  by (simp add: covers_def)

lemma cell_bytes_length:
  "(\<And>x. length (encode x) = unat (type_size T)) \<Longrightarrow> length (cell_bytes T encode d) \<le> unat (type_size T)"
  by (cases d) simp_all

lemma covers_queue_stores:
  assumes "buffer q' = buffer q" "slots q' = (slots q)[i := t]"
    and "i < length (slots q) \<Longrightarrow> covers W (slot_stores T encode (slot_ptr T q i) (slots q ! i) t)"
  shows "covers W (queue_stores T encode q q')"
proof -
  have "covers W (slot_stores T encode (slot_ptr T q' j) (slots q ! j) (slots q' ! j))" if j: "j < length (slots q)" for j
  proof (cases "j = i")
    case True
    then show ?thesis using assms j by (simp add: slot_ptr_def)
  qed (simp add: assms(2) slot_stores_def)
  then show ?thesis using assms(2) by (simp add: queue_stores_def covers_concat)
qed

lemma covers_unchanged: "buffer q' = buffer q \<Longrightarrow> slots q' = slots q \<Longrightarrow> covers W (queue_stores T encode q q')"
  by (simp add: queue_stores_def covers_concat slot_stores_def)

lemma covers_init_stores:
  assumes "spsc_init N T base sz memory q = (r, q')" "set (counter_regions T N base) \<subseteq> set W" "length memory = N"
  shows "covers W (init_stores T q q')"
proof -
  have "buffer q' = base \<and> length (slots q') = N" if "is_initialized q'" "\<not> is_initialized q"
    using assms(1,3) that by (auto simp: spsc_init_def Let_def split: if_splits option.splits)
  then show ?thesis
    using assms(2) by (fastforce simp: init_stores_def covers_def counter_regions_def slot_ptr_def)
qed

lemma framed_push:
  assumes "\<And>x. (p, obj_size M (con x)) \<in> set W" "\<And>x. length (encode x) = unat (type_size T)"
    and "\<And>q. Option.bind (mem_objs m p) sel = Some q \<Longrightarrow> set (head_regions N T q) \<subseteq> set W"
  shows "framed M W m (on_backed M sel con (queue_stores T encode) p (spsc_push N T x))"
proof (rule framed_on_backed [OF assms(1)])
  fix q h assume "Option.bind (mem_objs m p) sel = Some q"
  from assms(3) [OF this] show "ends_with (\<lambda>s. covers W (queue_stores T encode q (fst s))) (spsc_push N T x (q, h))"
    using cell_bytes_length [of encode T] assms(2)
    by (intro ends_with_mono [OF push_ends], elim conjE exE, intro covers_queue_stores)
      (auto simp: head_regions_def Let_def slot_stores_def covers_def)
qed

lemma framed_pop:
  assumes "\<And>x. (p, obj_size M (con x)) \<in> set W" "\<And>x. length (encode x) = unat (type_size T)"
    and "\<And>q. Option.bind (mem_objs m p) sel = Some q \<Longrightarrow> set (tail_regions N T q) \<subseteq> set W"
  shows "framed M W m (on_backed M sel con (queue_stores T encode) p (spsc_pop N T (\<lambda>slot. slot)))"
proof (rule framed_on_backed [OF assms(1)])
  fix q h assume "Option.bind (mem_objs m p) sel = Some q"
  from assms(3) [OF this]
  show "ends_with (\<lambda>s. covers W (queue_stores T encode q (fst s))) (spsc_pop N T (\<lambda>slot. slot) (q, h))"
    using cell_bytes_length [of encode T] assms(2)
    by (intro ends_with_mono [OF pop_ends], elim conjE exE, intro covers_queue_stores)
      (auto simp: tail_regions_def slot_stores_def covers_def)
qed

lemma framed_peek:
  assumes "\<And>x. (p, obj_size M (con x)) \<in> set W"
  shows "framed M W m (on_backed M sel con (queue_stores T encode) p (ring_peek N T (\<lambda>slot. slot)))"
  by (rule framed_on_backed [OF assms], rule ends_with_mono [OF peek_ends]) (auto intro: covers_unchanged)

lemma frames_queue_init:
  assumes "\<And>x. (p, obj_size M (con x)) \<in> set W" "set (counter_regions T N base) \<subseteq> set W" "length memory = N"
  shows "frames M W (on_backed M sel con (init_stores T) p (pureP (spsc_init N T base sz memory)))"
  by (rule frames_on_backed [OF assms(1)]) (auto simp: pureP_def covers_init_stores [OF _ assms(2,3)] split: prod.splits)

lemma framed_free:
  assumes "\<And>x. (p, obj_size M (con x)) \<in> set W"
    and "\<And>x. Option.bind (mem_objs m p) sel = Some x \<Longrightarrow> (dma_memory x + of_nat i * dma_size T, dma_size T) \<in> set W"
  shows "framed M W m (on_backed M sel con (pool_stores T) p (dma_free N T sched i g))"
proof (rule framed_on_backed [OF assms(1)])
  fix x h assume x: "Option.bind (mem_objs m p) sel = Some x"
  show "ends_with (\<lambda>s. covers W (pool_stores T x (fst s))) (dma_free N T sched i g (x, h))"
  proof (rule ends_with_mono [OF free_ends])
    fix s :: "dma_pool \<times> rtos_host"
    assume s: "dma_memory (fst s) = dma_memory x \<and> length (ownership (fst s)) = length (ownership x) \<and>
      (\<forall>j. j \<noteq> i \<longrightarrow> ownership (fst s) ! j = ownership x ! j \<and> pool_slot T j (fst s) = pool_slot T j x)"
    have "length (pool_slot T i (fst s)) \<le> unat (dma_size T)" by (simp add: pool_slot_def)
    then show "covers W (pool_stores T x (fst s))"
      using s assms(2) [OF x] by (force simp: pool_stores_def covers_def split: if_splits)
  qed
qed

lemma framed_code_word: "framed M W m f \<Longrightarrow> framed M W m (code_word f)"
  unfolding code_word_def by (rule framed_bindP, assumption, rule frames_ret)

lemma encode_lengths:
  "length (telemetry_bytes L e) = unat (type_size (telemetry_type L))"
  "length (ew_bytes L c) = unat (type_size (ew_type L))" "length (fft_bytes L f) = unat (type_size (fft_type L))"
  by (simp_all add: telemetry_bytes_def ew_bytes_def fft_bytes_def obj_bytes_def telemetry_type_def ew_type_def fft_type_def)

lemmas backed_intros = framed_code_word framed_if framed_read framed_bindP [OF framed_push] framed_bindP [OF framed_pop]
  framed_bindP [OF framed_peek] framed_bindP [OF framed_free]

lemma pool_call_frames: "framed (rtos_objs L) (pool_writes L m c) m (run_pool_call L c)"
proof (cases c)
  case (PoolFree sched pool idx gen)
  then show ?thesis
    unfolding PoolFree run_pool_call.simps shawncore_rtos_dmapool2k_free_def
    by (intro backed_intros framed_frames [OF frames_ret] frames_ret) (auto simp: backing_regions_def)
qed (auto simp: frame_simps intro!: framed_frames frame_intros)

lemma telemetry_call_frames: "framed (rtos_objs L) (telemetry_writes L m c) m (run_telemetry_call L c)"
proof (cases c)
  case (TelemetryInit backing queue base sz)
  then show ?thesis
    by (auto simp: frame_simps intro!: framed_frames frame_intros frames_queue_init)
next
  case (TelemetryPush queue event)
  then show ?thesis
    unfolding TelemetryPush run_telemetry_call.simps shawncore_rtos_spsc_telemetry_push_def
    by (intro backed_intros framed_frames [OF frames_ret] frames_ret) (auto simp: backing_regions_def encode_lengths)
next
  case (TelemetryPop queue out)
  then show ?thesis
    unfolding TelemetryPop run_telemetry_call.simps shawncore_rtos_spsc_telemetry_pop_def
    by (intro backed_intros framed_frames [OF frames_ret] frame_intros) (auto simp: backing_regions_def encode_lengths)
qed (auto simp: frame_simps intro!: framed_frames frame_intros)

lemma ew_ring_call_frames: "framed (rtos_objs L) (ew_ring_writes L m c) m (run_ew_ring_call L c)"
proof (cases c)
  case (EwRingInit backing queue base sz)
  then show ?thesis
    by (auto simp: frame_simps ring_eq_spsc intro!: framed_frames frame_intros frames_queue_init)
next
  case (EwRingPush queue item)
  then show ?thesis
    unfolding EwRingPush run_ew_ring_call.simps shawncore_rtos_ringbuffer_ew_push_def ring_eq_spsc
    by (intro backed_intros framed_frames [OF frames_ret] frames_ret) (auto simp: backing_regions_def encode_lengths)
next
  case (EwRingPop queue out)
  then show ?thesis
    unfolding EwRingPop run_ew_ring_call.simps shawncore_rtos_ringbuffer_ew_pop_def ring_eq_spsc
    by (intro backed_intros framed_frames [OF frames_ret] frame_intros) (auto simp: backing_regions_def encode_lengths)
next
  case (EwRingPeek queue out)
  then show ?thesis
    unfolding EwRingPeek run_ew_ring_call.simps shawncore_rtos_ringbuffer_ew_peek_def
    by (intro backed_intros framed_frames [OF frames_ret] frame_intros) auto
qed (auto simp: frame_simps intro!: framed_frames frame_intros)

lemma fft_call_frames: "framed (rtos_objs L) (fft_writes L m c) m (run_fft_call L c)"
proof (cases c)
  case (FftInit backing queue base sz)
  then show ?thesis
    by (auto simp: frame_simps intro!: framed_frames frame_intros frames_queue_init)
next
  case (FftPush queue item)
  then show ?thesis
    unfolding FftPush run_fft_call.simps shawncore_rtos_spsc_fft_push_def
    by (intro backed_intros framed_frames [OF frames_ret] frames_ret) (auto simp: backing_regions_def encode_lengths)
next
  case (FftPop queue out)
  then show ?thesis
    unfolding FftPop run_fft_call.simps shawncore_rtos_spsc_fft_pop_def
    by (intro backed_intros framed_frames [OF frames_ret] frame_intros) (auto simp: backing_regions_def encode_lengths)
qed (auto simp: frame_simps intro!: framed_frames frame_intros)

lemma machine_call_frames: "framed (rtos_objs L) (machine_writes L m c) m (run_machine_call L c)"
  by (cases c) (auto simp: frame_simps intro!: framed_frames frame_intros)

lemma tracker_call_frames: "framed (rtos_objs L) (tracker_writes L m c) m (run_tracker_call L c)"
  by (cases c) (auto simp: frame_simps intro!: framed_frames frame_intros)

lemma scheduler_call_frames: "framed (rtos_objs L) (scheduler_writes L m c) m (run_scheduler_call L c)"
proof (cases c)
  case (CreateTask scheduler t canary)
  then show ?thesis
    unfolding CreateTask run_scheduler_call.simps shawncore_rtos_scheduler_create_task_def
    by (intro framed_code_word framed_if framed_read framed_frames [OF frames_ret] framed_frames frame_intros)
      (auto split: option.splits)
qed (auto simp: frame_simps intro!: framed_frames frame_intros)

lemma rtos_boundary_frames: "framed (rtos_objs L) (rtos_writes L m c) m (rtos_boundary L c)"
  by (cases c) (simp_all add: scheduler_call_frames pool_call_frames telemetry_call_frames ew_ring_call_frames
    fft_call_frames machine_call_frames tracker_call_frames)

subsection \<open>Outputs of the pool\<close>

lemma mem_u64_written: "mem_u64 (written M a (le_bytes 8 v) m) a = v"
  by (simp add: mem_u64_def bytes_at_written of_le_bytes_le_bytes)

lemma mem_u64_apart:
  "\<not> regions_meet (a, 8) (b, 8) \<Longrightarrow> mem_u64 (written M a (le_bytes 8 v) m) b = mem_u64 m b"
  using bytes_at_written_apart [of a "le_bytes 8 v" b 8 M m] by (simp add: mem_u64_def)

lemma not_overlap_apart:
  "\<not> rtos_ranges_overlap a n b m \<Longrightarrow> n \<noteq> 0 \<Longrightarrow> m \<noteq> 0 \<Longrightarrow> \<not> regions_meet (a, n) (b, m)"
  using rtos_ranges_overlap_iff by blast

lemma allocator_err_code_nonzero: "allocator_err_code e \<noteq> 0"
  by (cases e) simp_all

text \<open>A successful allocation through the boundary: its guards, the pool's answer and its three writes.\<close>

lemma dmapool2k_allocate_success:
  assumes run: "shawncore_rtos_dmapool2k_allocate L sched pool out_idx out_generation out_ptr (m, h) =
      Ret 0 (m', h')"
  obtains p p' idx generation buf_ptr where "mem_objs m pool = Some (ObjDmaPool p)"
    "dma_allocate (debug_assertions L) dmapool2k_type sched (p, h) = Ret (Ok (idx, generation, buf_ptr)) (p', h')"
    "seqP (write_bytes (rtos_objs L) out_idx (le_bytes 8 (of_nat idx :: usize)))
       (seqP (write_bytes (rtos_objs L) out_generation (le_bytes 8 generation))
          (write_bytes (rtos_objs L) out_ptr (le_bytes 8 buf_ptr)))
       (put_obj (rtos_objs L) pool (ObjDmaPool p') m, h') = Ret () (m', h')"
    "\<not> rtos_ranges_overlap pool (layout_size (l_dmapool2k L)) out_idx 8"
    "\<not> rtos_ranges_overlap pool (layout_size (l_dmapool2k L)) out_generation 8"
    "\<not> rtos_ranges_overlap pool (layout_size (l_dmapool2k L)) out_ptr 8"
    "\<not> rtos_ranges_overlap out_idx 8 out_generation 8" "\<not> rtos_ranges_overlap out_idx 8 out_ptr 8"
    "\<not> rtos_ranges_overlap out_generation 8 out_ptr 8"
proof -
  have guards: "\<not> (rtos_ranges_overlap pool (layout_size (l_dmapool2k L)) out_idx 8 \<or>
      rtos_ranges_overlap pool (layout_size (l_dmapool2k L)) out_generation 8 \<or>
      rtos_ranges_overlap pool (layout_size (l_dmapool2k L)) out_ptr 8 \<or>
      rtos_ranges_overlap out_idx 8 out_generation 8 \<or> rtos_ranges_overlap out_idx 8 out_ptr 8 \<or>
      rtos_ranges_overlap out_generation 8 out_ptr 8)"
    using run unfolding shawncore_rtos_dmapool2k_allocate_def by (auto split: if_splits)
  obtain r m1 h1 where call: "on_obj (rtos_objs L) as_dmapool2k ObjDmaPool pool
        (dma_allocate (debug_assertions L) dmapool2k_type sched) (m, h) = Ret r (m1, h1)"
    using run by (auto simp: shawncore_rtos_dmapool2k_allocate_def bindP_eq_Ret split: if_splits)
  then obtain p p' where p: "mem_objs m pool = Some (ObjDmaPool p)"
    "dma_allocate (debug_assertions L) dmapool2k_type sched (p, h) = Ret r (p', h1)"
    "m1 = put_obj (rtos_objs L) pool (ObjDmaPool p') m"
    by (elim on_obj_Ret) auto
  obtain idx generation buf_ptr where r: "r = Ok (idx, generation, buf_ptr)"
    using run call
    by (cases r) (auto simp: shawncore_rtos_dmapool2k_allocate_def allocator_err_code_nonzero split: if_splits)
  have "h' = h1" using run call r
    by (auto simp: shawncore_rtos_dmapool2k_allocate_def write_bytes_def split: if_splits)
  then show thesis
    using that [of p idx generation buf_ptr p'] run call p r guards
    by (auto simp: shawncore_rtos_dmapool2k_allocate_def write_bytes_def split: if_splits)
qed

subsection \<open>Properties\<close>

definition demo_rtos_layouts :: rtos_layouts where
  "demo_rtos_layouts = (let T = \<lparr>layout_size = 64, layout_align = 8\<rparr>;
      slot = \<lparr>layout_size = 128, layout_align = 64\<rparr> in
     \<lparr>l_scheduler = T, l_tcb = T, l_dmapool2k = T, l_telemetry_queue = T, l_telemetry_event = T,
      l_telemetry_slot = slot, l_ew_ring = T, l_ew_command = T, l_ew_slot = slot, l_fft_queue = T,
      l_fft_result = T, l_fft_slot = slot, l_state_machine = T, l_latency_tracker = T,
      l_rtos_repr = (\<lambda>_ _. 0), debug_assertions = True\<rparr>)"

definition demo_memory :: "rtos_obj memory" where
  "demo_memory = \<lparr>mem_bytes = (\<lambda>_. 0), mem_objs = (\<lambda>_. None)\<rparr>"

text \<open>A queue with 64 empty slots, and a push through the boundary.\<close>

lemma queue_stores_update:
  assumes "i < length (slots q)" "buffer q' = buffer q" "slots q' = (slots q)[i := t]"
  shows "queue_stores T encode q q' = slot_stores T encode (slot_ptr T q i) (slots q ! i) t"
proof -
  have none: "concat (map (\<lambda>j. slot_stores T encode (slot_ptr T q j) (slots q ! j) (slots q' ! j)) js) = []"
    if "i \<notin> set js" for js
    using that assms(3) by (induction js) (auto simp: slot_stores_def nth_list_update)
  have "[0..<length (slots q)] = [0..<i] @ i # [Suc i..<length (slots q)]"
    using assms(1) upt_add_eq_append [of 0 i "length (slots q) - i"] by (simp add: upt_conv_Cons)
  moreover have "slot_ptr T q' = slot_ptr T q" by (rule ext) (simp add: slot_ptr_def assms(2))
  moreover have "slots q' ! i = t" "length (slots q') = length (slots q)" using assms(1,3) by simp_all
  ultimately show ?thesis
    unfolding queue_stores_def by (simp add: none del: upt_Suc)
qed

definition empty_queue :: "usize \<Rightarrow> 'a spsc_queue" where
  "empty_queue base = \<lparr>buffer = base, head = 0, tail = 0, is_initialized = True, is_initializing = False,
     slots = replicate 64 \<lparr>slot_data = Uninit, sequence_counter = 0\<rparr>\<rparr>"

lemma empty_queue_inv: "spsc_inv 64 (empty_queue base)"
  using queue_sizes(1) by (simp add: spsc_inv_def empty_queue_def odd_word_def live_def)

lemma telemetry_push_eval:
  assumes "mem_objs m p = Some (ObjTelemetryQueue q)" "mem_objs m e = Some (ObjTelemetryEvent event)"
    and "p \<noteq> 0" "e \<noteq> 0" "ptr_is_aligned (l_telemetry_queue L) p" "ptr_is_aligned (l_telemetry_event L) e"
    and "spsc_push 64 (telemetry_type L) event (q, h) = Ret r (q', h')"
  shows "rtos_boundary L (TelemetryCall (TelemetryPush p e)) (m, h) = Ret (of_nat (ipc_code r))
    (store_all (rtos_objs L) (queue_stores (telemetry_type L) (telemetry_bytes L) q q')
      (put_obj (rtos_objs L) p (ObjTelemetryQueue q') m), h')"
proof -
  have "on_backed (rtos_objs L) as_telemetry_queue ObjTelemetryQueue (queue_stores (telemetry_type L) (telemetry_bytes L)) p
      (spsc_push 64 (telemetry_type L) event) (m, h) = Ret r
    (store_all (rtos_objs L) (queue_stores (telemetry_type L) (telemetry_bytes L) q q')
      (put_obj (rtos_objs L) p (ObjTelemetryQueue q') m), h')"
    by (rule on_backed_eval) (use assms(1,7) in simp_all)
  then show ?thesis using assms(2-6) by (simp add: frame_simps read_obj_eval)
qed



text \<open>
  C19: A call of the RTOS boundary writes only what its pointers name and the backing memory of the
  object it works on.  However the call ends, every byte outside the following storage is as before,
  and so is every object that lies outside: the object's own storage, the output parameters, for a new
  task the canary word at the base of its stack, for the initialization of a queue the sequence counters
  of its slots, for a push the payload and the counter of the slot at the head, for a pop the payload of
  the slot at the tail, for a peek nothing of the backing memory, and for a free the buffer that is given
  back.
\<close>

theorem rtos_boundary_writes_only_outputs:
  "ends_with (\<lambda>s. untouched (rtos_objs L) (rtos_writes L m c) m (fst s)) (rtos_boundary L c (m, h))"
  using rtos_boundary_frames [of L m c] by (simp add: framed_def)

text \<open>
  C18: When the allocate function of the boundary reports success, whatever pointers it was given, the
  three outputs hold the index, the token and the address that the pool's allocation returned, and
  the pool object is the pool after that allocation: no output has overwritten the pool or another
  output.
\<close>

theorem dmapool2k_allocate_outputs:
  assumes run: "shawncore_rtos_dmapool2k_allocate L sched pool out_idx out_generation out_ptr (m, h) =
      Ret 0 (m', h')"
    and sized: "layout_size (l_dmapool2k L) \<noteq> 0"
  shows "\<exists>p p' idx generation buf_ptr. mem_objs m pool = Some (ObjDmaPool p) \<and>
    dma_allocate (debug_assertions L) dmapool2k_type sched (p, h) = Ret (Ok (idx, generation, buf_ptr)) (p', h') \<and>
    mem_objs m' pool = Some (ObjDmaPool p') \<and> mem_u64 m' out_idx = of_nat idx \<and>
    mem_u64 m' out_generation = generation \<and> mem_u64 m' out_ptr = buf_ptr"
  using run
proof (rule dmapool2k_allocate_success)
  fix p p' idx generation buf_ptr
  let ?M = "rtos_objs L" and ?n = "layout_size (l_dmapool2k L)"
  assume alloc: "mem_objs m pool = Some (ObjDmaPool p)"
    "dma_allocate (debug_assertions L) dmapool2k_type sched (p, h) = Ret (Ok (idx, generation, buf_ptr)) (p', h')"
    and writes: "seqP (write_bytes ?M out_idx (le_bytes 8 (of_nat idx :: usize)))
       (seqP (write_bytes ?M out_generation (le_bytes 8 generation))
          (write_bytes ?M out_ptr (le_bytes 8 buf_ptr)))
       (put_obj ?M pool (ObjDmaPool p') m, h') = Ret () (m', h')"
    and guards: "\<not> rtos_ranges_overlap pool ?n out_idx 8" "\<not> rtos_ranges_overlap pool ?n out_generation 8"
      "\<not> rtos_ranges_overlap pool ?n out_ptr 8" "\<not> rtos_ranges_overlap out_idx 8 out_generation 8"
      "\<not> rtos_ranges_overlap out_idx 8 out_ptr 8" "\<not> rtos_ranges_overlap out_generation 8 out_ptr 8"
  note pool_apart = guards(1-3) [THEN not_overlap_apart, OF sized]
    and outs_apart = guards(4-6) [THEN not_overlap_apart, unfolded regions_meet_sym [of "(out_idx, 8)"]
      regions_meet_sym [of "(out_generation, 8)" "(out_ptr, 8)"]]
  define m2 where "m2 = written ?M out_idx (le_bytes 8 (of_nat idx :: usize)) (put_obj ?M pool (ObjDmaPool p') m)"
  define m3 where "m3 = written ?M out_generation (le_bytes 8 generation) m2"
  have m': "m' = written ?M out_ptr (le_bytes 8 buf_ptr) m3"
    using writes by (simp add: m3_def m2_def)
  have "mem_objs m' pool = Some (ObjDmaPool p')"
    using pool_apart by (simp add: m' m3_def m2_def written_lookup clobber_apart put_obj_lookup del: regions_meet.simps)
  moreover have "mem_u64 m' out_ptr = buf_ptr" "mem_u64 m' out_generation = generation"
    "mem_u64 m' out_idx = of_nat idx"
    using outs_apart
    by (simp_all add: m' m3_def m2_def mem_u64_written mem_u64_apart del: regions_meet.simps)
  ultimately show ?thesis using alloc by blast
qed

lemma demo_pool_allocate:
  "dma_allocate True dmapool2k_type [False] (demo_pool, demo_host) =
    Ret (Ok (0, 1, 8192)) (allocated 0 demo_pool, demo_host)"
proof -
  have "pool_inv 2 demo_pool [0, 1]"
    using pool_inv_init(1) [OF _ _ demo_pool_init] by (simp add: upt_rec)
  from dma_allocate_next [OF this, of "[False]" True dmapool2k_type demo_host]
  show ?thesis
    using dma_init_Ok(3,5) [OF demo_pool_init] by simp
qed

theorem dmapool2k_allocate_outputs_witness:
  "\<exists>m' h'. shawncore_rtos_dmapool2k_allocate demo_rtos_layouts [False] 4096 65536 65544 65552
      (demo_memory\<lparr>mem_objs := [4096 \<mapsto> ObjDmaPool demo_pool]\<rparr>, demo_host) = Ret 0 (m', h') \<and>
    mem_objs m' 4096 = Some (ObjDmaPool (allocated 0 demo_pool)) \<and>
    mem_u64 m' 65536 = 0 \<and> mem_u64 m' 65544 = 1 \<and> mem_u64 m' 65552 = 8192"
proof -
  let ?m = "demo_memory\<lparr>mem_objs := [4096 \<mapsto> ObjDmaPool demo_pool]\<rparr>"
  have L: "layout_size (l_dmapool2k demo_rtos_layouts) = 64" "layout_align (l_dmapool2k demo_rtos_layouts) = 8"
    "debug_assertions demo_rtos_layouts"
    by (simp_all add: demo_rtos_layouts_def Let_def)
  have "on_obj (rtos_objs demo_rtos_layouts) as_dmapool2k ObjDmaPool 4096
      (dma_allocate True dmapool2k_type [False]) (?m, demo_host) =
    Ret (Ok (0, 1, 8192)) (put_obj (rtos_objs demo_rtos_layouts) 4096 (ObjDmaPool (allocated 0 demo_pool)) ?m, demo_host)"
    by (rule on_obj_eval, simp, simp, rule demo_pool_allocate)
  then obtain m' where run: "shawncore_rtos_dmapool2k_allocate demo_rtos_layouts [False] 4096 65536 65544 65552
      (?m, demo_host) = Ret 0 (m', demo_host)"
    by (simp add: shawncore_rtos_dmapool2k_allocate_def L ptr_is_aligned_def word_layout_def is_multiple_of_def
        rtos_ranges_overlap_def checked_add_def write_bytes_def)
  from dmapool2k_allocate_outputs [OF run] show ?thesis
    using run demo_pool_allocate by (auto simp: L)
qed

end
