(* ===== verification/Program_Logic.thy ===== *)
theory Program_Logic
  imports Ffi_Memory
begin

text \<open>
  Two calculi for the programs of the model, one rule per combinator.  Partial: \<open>yields f R\<close> says
  what a program that only talks to the host can return, \<open>post s f Q\<close> what a program on a state
  \<open>s\<close> and the host can return and leave, whatever the host does.  Total: \<open>sure H f R\<close> and \<open>total H s f Q\<close>
  say in addition that the program returns, from every host that satisfies \<open>H\<close>, to one that
  does.  Applying the rules to an operation leaves its final states as goals.
\<close>

named_theorems post_intros "postconditions of programs that return"
named_theorems total_intros "postconditions of programs that are sure to return"

subsection \<open>Partial correctness\<close>

definition yields :: "('h, 'a) prog \<Rightarrow> ('a \<Rightarrow> bool) \<Rightarrow> bool" where
  "yields f R \<longleftrightarrow> (\<forall>h r h'. f h = Ret r h' \<longrightarrow> R r)"

definition post :: "'s \<Rightarrow> ('s \<times> 'h, 'a) prog \<Rightarrow> ('a \<Rightarrow> 's \<Rightarrow> bool) \<Rightarrow> bool" where
  "post s f Q \<longleftrightarrow> (\<forall>h r s' h'. f (s, h) = Ret r (s', h') \<longrightarrow> Q r s')"

lemma yieldsD: "yields f R \<Longrightarrow> f h = Ret r h' \<Longrightarrow> R r"
  unfolding yields_def by blast

lemma postD: "post s f Q \<Longrightarrow> f (s, h) = Ret r (s', h') \<Longrightarrow> Q r s'"
  unfolding post_def by blast

lemma yields_ret [post_intros]: "R x \<Longrightarrow> yields (ret x) R"
  by (simp add: yields_def)

lemma yields_bindP [post_intros]: "yields f (\<lambda>x. yields (g x) R) \<Longrightarrow> yields (bindP f g) R"
  unfolding yields_def bindP_eq_Ret by blast

lemma yields_seqP [post_intros]: "yields f (\<lambda>_. yields g R) \<Longrightarrow> yields (seqP f g) R"
  unfolding yields_def seqP_eq_Ret by blast

lemma yields_case_sum [post_intros]:
  "(\<And>e. r = Inl e \<Longrightarrow> yields (f e) R) \<Longrightarrow> (\<And>x. r = Inr x \<Longrightarrow> yields (g x) R) \<Longrightarrow>
   yields (case r of Inl e \<Rightarrow> f e | Inr x \<Rightarrow> g x) R"
  by (cases r) simp_all

lemma yields_case_option [post_intros]:
  "(r = None \<Longrightarrow> yields f R) \<Longrightarrow> (\<And>x. r = Some x \<Longrightarrow> yields (g x) R) \<Longrightarrow>
   yields (case r of None \<Rightarrow> f | Some x \<Rightarrow> g x) R"
  by (cases r) simp_all

lemma yields_case_prod [post_intros]:
  "(\<And>a b. r = (a, b) \<Longrightarrow> yields (f a b) R) \<Longrightarrow> yields (case r of (a, b) \<Rightarrow> f a b) R"
  by (cases r) simp

lemma yields_if:
  "(c \<Longrightarrow> yields f R) \<Longrightarrow> (\<not> c \<Longrightarrow> yields g R) \<Longrightarrow> yields (if c then f else g) R"
  by simp

lemma yields_bindE [post_intros]:
  "yields (bindP f (\<lambda>r. case r of Inl e \<Rightarrow> ret (Inl e) | Inr x \<Rightarrow> g x)) R \<Longrightarrow> yields (bindE f g) R"
  by (simp add: bindE_def)

lemma post_ret [post_intros]: "Q x s \<Longrightarrow> post s (ret x) Q"
  by (simp add: post_def)

lemma post_undefP [post_intros]: "post s undefP Q"
  by (simp add: post_def)

lemma post_bindP [post_intros]: "post s f (\<lambda>x s'. post s' (g x) Q) \<Longrightarrow> post s (bindP f g) Q"
  unfolding post_def bindP_eq_Ret by (metis surj_pair)

lemma post_seqP [post_intros]: "post s f (\<lambda>_ s'. post s' g Q) \<Longrightarrow> post s (seqP f g) Q"
  unfolding seqP_def by (rule post_bindP)

lemma post_getP [post_intros]: "Q s s \<Longrightarrow> post s getP Q"
  by (simp add: post_def)

lemma post_modP [post_intros]: "Q () (u s) \<Longrightarrow> post s (modP u) Q"
  by (simp add: post_def)

lemma post_hostP [post_intros]: "yields f (\<lambda>r. Q r s) \<Longrightarrow> post s (hostP f) Q"
  by (auto simp: post_def yields_def hostP_eq_Ret)

lemma post_case_sum [post_intros]:
  "(\<And>e. r = Inl e \<Longrightarrow> post s (f e) Q) \<Longrightarrow> (\<And>x. r = Inr x \<Longrightarrow> post s (g x) Q) \<Longrightarrow>
   post s (case r of Inl e \<Rightarrow> f e | Inr x \<Rightarrow> g x) Q"
  by (cases r) simp_all

lemma post_case_option [post_intros]:
  "(r = None \<Longrightarrow> post s f Q) \<Longrightarrow> (\<And>x. r = Some x \<Longrightarrow> post s (g x) Q) \<Longrightarrow>
   post s (case r of None \<Rightarrow> f | Some x \<Rightarrow> g x) Q"
  by (cases r) simp_all

lemma post_case_prod [post_intros]:
  "(\<And>a b. r = (a, b) \<Longrightarrow> post s (f a b) Q) \<Longrightarrow> post s (case r of (a, b) \<Rightarrow> f a b) Q"
  by (cases r) simp

lemma post_if:
  "(c \<Longrightarrow> post s f Q) \<Longrightarrow> (\<not> c \<Longrightarrow> post s g Q) \<Longrightarrow> post s (if c then f else g) Q"
  by simp

lemmas if_intros = yields_if post_if

lemma post_hostP_any: "(\<And>r. Q r m) \<Longrightarrow> post m (hostP f) Q"
  by (auto simp: post_def hostP_eq_Ret)

text \<open>The conditions of a boundary function matter for what it may write, not for what it keeps.\<close>

lemma post_any_if: "post s f Q \<Longrightarrow> post s g Q \<Longrightarrow> post s (if c then f else g) Q"
  by simp

subsection \<open>Memory operations\<close>

lemma post_read_bytes [post_intros]: "(\<And>bs. length bs = n \<Longrightarrow> R bs m) \<Longrightarrow> post m (read_bytes p n) R"
  by (simp add: post_def)

lemma post_slice [post_intros]: "(\<And>bs. R bs m) \<Longrightarrow> post m (slice_from_raw_parts p n) R"
  by (simp add: post_def)

lemma post_write_bytes [post_intros]: "R () (written M p bs m) \<Longrightarrow> post m (write_bytes M p bs) R"
  by (simp add: post_def)

lemma post_write_obj [post_intros]: "R () (put_obj M p x m) \<Longrightarrow> post m (write_obj M p x) R"
  by (simp add: post_def)

lemma post_forget_obj [post_intros]: "R () (m\<lparr>mem_objs := (mem_objs m)(p := None)\<rparr>) \<Longrightarrow> post m (forget_obj p) R"
  by (simp add: post_def forget_obj_def)

lemma post_read_obj [post_intros]:
  "(\<And>y x. mem_objs m p = Some y \<Longrightarrow> sel y = Some x \<Longrightarrow> R x m) \<Longrightarrow> post m (read_obj sel p) R"
  by (auto simp: post_def read_obj_def bindP_eq_Ret split: option.splits Option.bind_splits)

lemma post_on_obj [post_intros]:
  assumes "\<And>y x. mem_objs m p = Some y \<Longrightarrow> sel y = Some x \<Longrightarrow> post x f (\<lambda>r x'. R r (put_obj M p (con x') m))"
  shows "post m (on_obj M sel con p f) R"
  unfolding post_def
proof (intro allI impI)
  fix h r m' h' assume "on_obj M sel con p f (m, h) = Ret r (m', h')"
  then obtain y x x' where "mem_objs m p = Some y" "sel y = Some x" "f (x, h) = Ret r (x', h')"
    "m' = put_obj M p (con x') m"
    by (rule on_obj_Ret)
  with assms show "R r m'" by (blast dest: postD)
qed

lemma objs_ok_forget: "objs_ok Q m \<Longrightarrow> objs_ok Q (m\<lparr>mem_objs := (mem_objs m)(p := None)\<rparr>)"
  by (simp add: objs_ok_def)

subsection \<open>Total correctness\<close>

definition sure :: "('h \<Rightarrow> bool) \<Rightarrow> ('h, 'a) prog \<Rightarrow> ('a \<Rightarrow> bool) \<Rightarrow> bool" where
  "sure H f R \<longleftrightarrow> (\<forall>h. H h \<longrightarrow> (\<exists>r h'. f h = Ret r h' \<and> H h' \<and> R r))"

definition total :: "('h \<Rightarrow> bool) \<Rightarrow> 's \<Rightarrow> ('s \<times> 'h, 'a) prog \<Rightarrow> ('a \<Rightarrow> 's \<Rightarrow> bool) \<Rightarrow> bool" where
  "total H s f Q \<longleftrightarrow> (\<forall>h. H h \<longrightarrow> (\<exists>r s' h'. f (s, h) = Ret r (s', h') \<and> H h' \<and> Q r s'))"

lemma totalD: "total H s f Q \<Longrightarrow> H h \<Longrightarrow> \<exists>r s' h'. f (s, h) = Ret r (s', h') \<and> H h' \<and> Q r s'"
  by (simp add: total_def)

lemma sure_ret [total_intros]: "R x \<Longrightarrow> sure H (ret x) R"
  by (simp add: sure_def)

lemma sure_bindP [total_intros]: "sure H f (\<lambda>x. sure H (g x) R) \<Longrightarrow> sure H (bindP f g) R"
  unfolding sure_def bindP_eq_Ret by metis

lemma sure_seqP [total_intros]: "sure H f (\<lambda>_. sure H g R) \<Longrightarrow> sure H (seqP f g) R"
  unfolding seqP_def by (rule sure_bindP)

lemma sure_bindE [total_intros]:
  "sure H (bindP f (\<lambda>r. case r of Inl e \<Rightarrow> ret (Inl e) | Inr x \<Rightarrow> g x)) R \<Longrightarrow> sure H (bindE f g) R"
  by (simp add: bindE_def)

lemma sure_case_sum [total_intros]:
  "(\<And>e. r = Inl e \<Longrightarrow> sure H (f e) R) \<Longrightarrow> (\<And>x. r = Inr x \<Longrightarrow> sure H (g x) R) \<Longrightarrow>
   sure H (case r of Inl e \<Rightarrow> f e | Inr x \<Rightarrow> g x) R"
  by (cases r) simp_all

lemma sure_case_option [total_intros]:
  "(r = None \<Longrightarrow> sure H f R) \<Longrightarrow> (\<And>x. r = Some x \<Longrightarrow> sure H (g x) R) \<Longrightarrow>
   sure H (case r of None \<Rightarrow> f | Some x \<Rightarrow> g x) R"
  by (cases r) simp_all

lemma sure_case_prod [total_intros]:
  "(\<And>a b. r = (a, b) \<Longrightarrow> sure H (f a b) R) \<Longrightarrow> sure H (case r of (a, b) \<Rightarrow> f a b) R"
  by (cases r) simp

lemma sure_if [total_intros]: "sure H f R \<Longrightarrow> sure H g R \<Longrightarrow> sure H (if c then f else g) R"
  by simp

lemma total_ret [total_intros]: "Q x s \<Longrightarrow> total H s (ret x) Q"
  by (simp add: total_def)

lemma total_bindP [total_intros]: "total H s f (\<lambda>x s'. total H s' (g x) Q) \<Longrightarrow> total H s (bindP f g) Q"
  unfolding total_def bindP_eq_Ret by metis

lemma total_seqP [total_intros]: "total H s f (\<lambda>_ s'. total H s' g Q) \<Longrightarrow> total H s (seqP f g) Q"
  unfolding seqP_def by (rule total_bindP)

lemma total_getP [total_intros]: "Q s s \<Longrightarrow> total H s getP Q"
  by (simp add: total_def)

lemma total_modP [total_intros]: "Q () (u s) \<Longrightarrow> total H s (modP u) Q"
  by (simp add: total_def)

lemma total_hostP [total_intros]: "sure H f (\<lambda>r. Q r s) \<Longrightarrow> total H s (hostP f) Q"
  unfolding total_def sure_def hostP_eq_Ret by blast

lemma total_case_sum [total_intros]:
  "(\<And>e. r = Inl e \<Longrightarrow> total H s (f e) Q) \<Longrightarrow> (\<And>x. r = Inr x \<Longrightarrow> total H s (g x) Q) \<Longrightarrow>
   total H s (case r of Inl e \<Rightarrow> f e | Inr x \<Rightarrow> g x) Q"
  by (cases r) simp_all

lemma total_case_option [total_intros]:
  "(r = None \<Longrightarrow> total H s f Q) \<Longrightarrow> (\<And>x. r = Some x \<Longrightarrow> total H s (g x) Q) \<Longrightarrow>
   total H s (case r of None \<Rightarrow> f | Some x \<Rightarrow> g x) Q"
  by (cases r) simp_all

lemma total_case_prod [total_intros]:
  "(\<And>a b. r = (a, b) \<Longrightarrow> total H s (f a b) Q) \<Longrightarrow> total H s (case r of (a, b) \<Rightarrow> f a b) Q"
  by (cases r) simp

lemma total_if: "total H s f Q \<Longrightarrow> total H s g Q \<Longrightarrow> total H s (if c then f else g) Q"
  by simp

lemma total_guard: "total H s f Q \<Longrightarrow> (\<not> c \<Longrightarrow> total H s g Q) \<Longrightarrow> total H s (if c then f else g) Q"
  by simp

lemma total_read_bytes [total_intros]: "(\<And>bs. length bs = n \<Longrightarrow> Q bs m) \<Longrightarrow> total H m (read_bytes p n) Q"
  by (simp add: total_def)

lemma total_slice [total_intros]: "(\<And>bs. Q bs m) \<Longrightarrow> total H m (slice_from_raw_parts p n) Q"
  by (simp add: total_def)

lemma total_write_bytes [total_intros]: "Q () (written M p bs m) \<Longrightarrow> total H m (write_bytes M p bs) Q"
  by (simp add: total_def)

lemma total_write_obj [total_intros]: "Q () (put_obj M p x m) \<Longrightarrow> total H m (write_obj M p x) Q"
  by (simp add: total_def)

lemma total_forget_obj [total_intros]:
  "Q () (m\<lparr>mem_objs := (mem_objs m)(p := None)\<rparr>) \<Longrightarrow> total H m (forget_obj p) Q"
  by (simp add: total_def forget_obj_def)

text \<open>An object of the expected type has to be where the pointer points.\<close>

definition holds_obj :: "'o memory \<Rightarrow> usize \<Rightarrow> ('o \<Rightarrow> 'a option) \<Rightarrow> bool" where
  "holds_obj m p sel \<longleftrightarrow> Option.bind (mem_objs m p) sel \<noteq> None"

lemma total_read_obj [total_intros]:
  "holds_obj m p sel \<Longrightarrow> (\<And>x. Q x m) \<Longrightarrow> total H m (read_obj sel p) Q"
  by (auto simp: total_def holds_obj_def read_obj_def)

lemma total_on_obj [total_intros]:
  assumes "holds_obj m p sel"
    and "\<And>y x. mem_objs m p = Some y \<Longrightarrow> sel y = Some x \<Longrightarrow> total H x f (\<lambda>r x'. Q r (put_obj M p (con x') m))"
  shows "total H m (on_obj M sel con p f) Q"
  unfolding total_def
proof (intro allI impI)
  fix h assume H: "H h"
  from assms(1) obtain y x where y: "mem_objs m p = Some y" "sel y = Some x"
    by (auto simp: holds_obj_def bind_eq_Some_conv)
  obtain r x' h' where f: "f (x, h) = Ret r (x', h')" "H h'" "Q r (put_obj M p (con x') m)"
    using totalD [OF assms(2) [OF y] H] by blast
  have "on_obj M sel con p f (m, h) = Ret r (put_obj M p (con x') m, h')"
    by (rule on_obj_eval, rule y, rule y, rule f)
  then show "\<exists>r m' h'. on_obj M sel con p f (m, h) = Ret r (m', h') \<and> H h' \<and> Q r m'"
    using f by blast
qed

lemma total_on_backed [total_intros]:
  assumes "holds_obj m p sel"
    and "\<And>y x. mem_objs m p = Some y \<Longrightarrow> sel y = Some x \<Longrightarrow>
      total H x f (\<lambda>r x'. Q r (store_all M (stores x x') (put_obj M p (con x') m)))"
  shows "total H m (on_backed M sel con stores p f) Q"
  unfolding total_def
proof (intro allI impI)
  fix h assume H: "H h"
  from assms(1) obtain y x where y: "mem_objs m p = Some y" "sel y = Some x"
    by (auto simp: holds_obj_def bind_eq_Some_conv)
  obtain r x' h' where f: "f (x, h) = Ret r (x', h')" "H h'" "Q r (store_all M (stores x x') (put_obj M p (con x') m))"
    using totalD [OF assms(2) [OF y] H] by blast
  have "on_backed M sel con stores p f (m, h) = Ret r (store_all M (stores x x') (put_obj M p (con x') m), h')"
    by (rule on_backed_eval, rule y, rule y, rule f)
  then show "\<exists>r m' h'. on_backed M sel con stores p f (m, h) = Ret r (m', h') \<and> H h' \<and> Q r m'"
    using f by blast
qed

lemma holds_obj_put [simp]: "holds_obj (put_obj M p x m) p sel \<longleftrightarrow> sel x \<noteq> None"
  by (simp add: holds_obj_def put_obj_lookup)

text \<open>A pointer a call can work with: null, which every function refuses, or to an object of its type.\<close>

definition ptr_live :: "'o memory \<Rightarrow> usize \<Rightarrow> ('o \<Rightarrow> 'a option) \<Rightarrow> bool" where
  "ptr_live m p sel \<longleftrightarrow> p = 0 \<or> holds_obj m p sel"

end
