(* ===== verification/Rtos_Returns.thy ===== *)
theory Rtos_Returns
  imports Rtos_Boundary Program_Logic
begin

text \<open>
  Every call of the RTOS boundary returns.  An operation of the crate has three ways not to: a host
  wrapper without its callback halts, a retry loop whose compare-exchange fails for ever runs on,
  and a slot or an object that is not what the code takes it for leaves the meaning of the program.  With
  the three callbacks the boundary uses, fair compare-exchanges and pointers to well-formed objects,
  none of them happens.
\<close>

subsection \<open>Rules for the host and for operations on an object\<close>

definition rtos_ready :: "rtos_host \<Rightarrow> bool" where
  "rtos_ready h \<longleftrightarrow> cache_flush_cb h \<noteq> 0 \<and> cache_invalidate_cb h \<noteq> 0 \<and> pet_watchdog_cb h \<noteq> 0"

lemma rtos_ready_log [simp]: "rtos_ready (log_call cb c h) = rtos_ready h"
  by (simp add: rtos_ready_def log_call_def)

lemma sure_rtos_flush [total_intros]: "R () \<Longrightarrow> sure rtos_ready (host_cache_flush p n) R"
  by (auto simp: sure_def rtos_ready_def host_simps log_call_def)

lemma sure_rtos_invalidate [total_intros]: "R () \<Longrightarrow> sure rtos_ready (host_cache_invalidate p n) R"
  by (auto simp: sure_def rtos_ready_def host_simps log_call_def)

lemma sure_rtos_pet [total_intros]: "R () \<Longrightarrow> sure rtos_ready host_pet_watchdog R"
  by (auto simp: sure_def rtos_ready_def host_pet_watchdog_def call_host_set log_call_def)

lemma total_pureP [total_intros]: "(\<And>r x'. Q r x') \<Longrightarrow> total H x (pureP f) Q"
  by (auto simp: total_def pureP_def split: prod.splits)

lemma total_loopP: "f x \<noteq> None \<Longrightarrow> (\<And>r x'. Q r x') \<Longrightarrow> total H x (loopP f) Q"
  by (auto simp: total_def loopP_def split: option.splits prod.splits)

subsection \<open>Operations\<close>

lemma total_dispatch: "(\<And>r s'. Q r s') \<Longrightarrow> total rtos_ready s (dispatch_next mem) Q"
  unfolding dispatch_next_def Let_def by (intro total_if total_intros) blast+

lemma total_tick [total_intros]: "(\<And>r s'. Q r s') \<Longrightarrow> total rtos_ready s (schedule_tick mem sp) Q"
  unfolding schedule_tick_def Let_def by (intro total_if total_intros total_dispatch) blast+

lemma total_push [total_intros]: "(\<And>r q'. Q r q') \<Longrightarrow> total rtos_ready q (spsc_push N T x) Q"
  unfolding spsc_push_def Let_def by (intro total_if total_intros) blast+

lemma total_read_data [total_intros]:
  "is_val (slot_data (slots q ! i)) \<Longrightarrow> (\<And>x. Q x q) \<Longrightarrow> total H q (read_data i) Q"
  by (auto simp: total_def read_data_def is_val_iff)

lemma oldest_slot_holds:
  assumes "queue_ok N q" "head q \<noteq> tail q"
  shows "is_val (slot_data (slots q ! slot_index N (tail q)))"
  using assms live_pop [OF assms(2), of N] by (simp add: queue_ok_def spsc_inv_def split: if_splits)

lemma total_pop:
  assumes "queue_ok N q" "\<And>r q'. Q r q'"
  shows "total rtos_ready q (spsc_pop N T (\<lambda>slot. slot)) Q"
  unfolding spsc_pop_def Let_def list_update_id
  by (intro total_guard total_intros assms(2); simp add: oldest_slot_holds assms(1))

lemma total_peek:
  assumes "queue_ok N q" "\<And>r q'. Q r q'"
  shows "total rtos_ready q (ring_peek N T (\<lambda>slot. slot)) Q"
  unfolding ring_peek_def Let_def list_update_id
  by (intro total_guard total_intros assms(2); simp add: oldest_slot_holds assms(1))

lemma total_allocate:
  assumes "pool_ok p" "False \<in> set sched" "\<And>r p'. Q r p'"
  shows "total rtos_ready p (dma_allocate debug T sched) Q"
proof (cases "pool_initialized p")
  case True
  then obtain fl where "pool_inv 256 p fl" using assms(1) by (auto simp: pool_ok_def)
  then show ?thesis
    using assms(2,3) dma_allocate_next dma_allocate_empty by (cases fl) (fastforce simp: total_def)+
qed (use assms(3) in \<open>simp add: total_def dma_allocate_def\<close>)

lemma total_free:
  assumes "pool_ok p" "False \<in> set sched" "\<And>r p'. Q r p'"
  shows "total rtos_ready p (dma_free 256 T sched i g) Q"
proof (cases "pool_initialized p")
  case True
  then obtain fl where inv: "pool_inv 256 p fl" using assms(1) by (auto simp: pool_ok_def)
  show ?thesis
  proof (cases "owner_token p i = Some g")
    case own: True
    show ?thesis
      using assms(2,3) dma_free_owner [OF inv own] by (auto simp: total_def rtos_ready_def log_call_def)
  next
    case False
    then show ?thesis
      using assms(3) inv True dma_free_refused [of p 256 i g] by (auto simp: total_def pool_inv_def)
  qed
qed (use assms(3) in \<open>simp add: total_def dma_free_def\<close>)

lemma total_advance:
  assumes "False \<in> set sched" "\<And>r m'. Q r m'"
  shows "total H m (loopP (try_advance sched target)) Q"
  using assms(1) advance_loop_returns [of sched m "state_u8 target"]
  by (intro total_loopP assms(2)) (auto simp: try_advance_def)

lemma total_mark_end:
  assumes "False \<in> set s1" "False \<in> set s2" "\<And>r m'. Q r m'"
  shows "total H lt (loopP (\<lambda>lt. map_option (Pair ()) (mark_end s1 s2 t lt))) Q"
  using assms(1,2) mark_end_completes [of s1 s2 lt t] mark_end_ignored [of lt t s1 s2]
  by (intro total_loopP assms(3)) (cases "started lt \<and> start_time lt \<le> t"; auto simp: not_le)

lemmas operation_totals = total_pop total_peek total_allocate total_free total_advance total_mark_end

text \<open>What an object in a well-formed memory satisfies.\<close>

lemma stored_ok:
  assumes "objs_ok rtos_obj_ok m" "mem_objs m p = Some y"
  shows "as_dmapool2k y = Some pool \<Longrightarrow> pool_ok pool"
    and "as_telemetry_queue y = Some tq \<Longrightarrow> queue_ok 64 tq"
    and "as_ew_ring y = Some rb \<Longrightarrow> queue_ok 1024 rb"
    and "as_fft_queue y = Some fq \<Longrightarrow> queue_ok 256 fq"
  using objs_okD [OF assms] by (cases y; simp)+

subsection \<open>Calls\<close>

text \<open>
  The pointers a call dereferences before it has written to them are null or name an object of their
  type, and in every retry loop some compare-exchange does not fail spuriously.
\<close>

fun scheduler_live :: "rtos_obj memory \<Rightarrow> scheduler_call \<Rightarrow> bool" where
  "scheduler_live m (SchedulerInit _) = True"
| "scheduler_live m (SchedulerDestroy scheduler) = ptr_live m scheduler as_scheduler"
| "scheduler_live m (TcbNew _ _ _ _ _ _) = True"
| "scheduler_live m (TcbGetRsp t) = ptr_live m t as_tcb"
| "scheduler_live m (TcbSetRsp t _) = ptr_live m t as_tcb"
| "scheduler_live m (CreateTask scheduler t _) = (ptr_live m scheduler as_scheduler \<and> ptr_live m t as_tcb)"
| "scheduler_live m (Tick scheduler _) = ptr_live m scheduler as_scheduler"
| "scheduler_live m (SetCriticalTaskMask scheduler _) = ptr_live m scheduler as_scheduler"
| "scheduler_live m (TaskCheckIn scheduler _) = ptr_live m scheduler as_scheduler"

fun pool_live :: "rtos_obj memory \<Rightarrow> pool_call \<Rightarrow> bool" where
  "pool_live m (PoolInit _ _ _) = True"
| "pool_live m (PoolDestroy pool) = ptr_live m pool as_dmapool2k"
| "pool_live m (PoolAllocate sched pool _ _ _) = (ptr_live m pool as_dmapool2k \<and> False \<in> set sched)"
| "pool_live m (PoolFree sched pool _ _) = (ptr_live m pool as_dmapool2k \<and> False \<in> set sched)"

fun telemetry_live :: "rtos_obj memory \<Rightarrow> telemetry_call \<Rightarrow> bool" where
  "telemetry_live m (TelemetryInit _ _ _ _) = True"
| "telemetry_live m (TelemetryDestroy queue) = ptr_live m queue as_telemetry_queue"
| "telemetry_live m (TelemetryPush queue event) = (ptr_live m queue as_telemetry_queue \<and> ptr_live m event as_telemetry_event)"
| "telemetry_live m (TelemetryPop queue _) = ptr_live m queue as_telemetry_queue"

fun ew_ring_live :: "rtos_obj memory \<Rightarrow> ew_ring_call \<Rightarrow> bool" where
  "ew_ring_live m (EwRingInit _ _ _ _) = True"
| "ew_ring_live m (EwRingDestroy rb) = ptr_live m rb as_ew_ring"
| "ew_ring_live m (EwRingPush rb item) = (ptr_live m rb as_ew_ring \<and> ptr_live m item as_ew_command)"
| "ew_ring_live m (EwRingPop rb _) = ptr_live m rb as_ew_ring"
| "ew_ring_live m (EwRingPeek rb _) = ptr_live m rb as_ew_ring"

fun fft_live :: "rtos_obj memory \<Rightarrow> fft_call \<Rightarrow> bool" where
  "fft_live m (FftInit _ _ _ _) = True"
| "fft_live m (FftDestroy queue) = ptr_live m queue as_fft_queue"
| "fft_live m (FftPush queue item) = (ptr_live m queue as_fft_queue \<and> ptr_live m item as_fft_result)"
| "fft_live m (FftPop queue _) = ptr_live m queue as_fft_queue"

fun machine_live :: "rtos_obj memory \<Rightarrow> machine_call \<Rightarrow> bool" where
  "machine_live m (MachineInit _) = True"
| "machine_live m (MachineDestroy sm) = ptr_live m sm as_state_machine"
| "machine_live m (MachineTryAdvance sched sm _) = (ptr_live m sm as_state_machine \<and> False \<in> set sched)"

fun tracker_live :: "rtos_obj memory \<Rightarrow> tracker_call \<Rightarrow> bool" where
  "tracker_live m (TrackerInit _) = True"
| "tracker_live m (TrackerDestroy tracker) = ptr_live m tracker as_latency_tracker"
| "tracker_live m (TrackerMarkStart tracker _) = ptr_live m tracker as_latency_tracker"
| "tracker_live m (TrackerMarkEnd max_sched total_sched tracker _) =
     (ptr_live m tracker as_latency_tracker \<and> False \<in> set max_sched \<and> False \<in> set total_sched)"

fun boundary_live :: "rtos_obj memory \<Rightarrow> boundary_call \<Rightarrow> bool" where
  "boundary_live m (SchedulerCall c) = scheduler_live m c"
| "boundary_live m (PoolCall c) = pool_live m c"
| "boundary_live m (TelemetryCall c) = telemetry_live m c"
| "boundary_live m (EwRingCall c) = ew_ring_live m c"
| "boundary_live m (FftCall c) = fft_live m c"
| "boundary_live m (MachineCall c) = machine_live m c"
| "boundary_live m (TrackerCall c) = tracker_live m c"

lemmas call_defs = rtos_ffi_defs code_word_def ptr_live_def valid_aligned_ptr_def ring_eq_spsc

lemma scheduler_call_returns:
  assumes "scheduler_live m c"
  shows "total rtos_ready m (run_scheduler_call L c) (\<lambda>_ _. True)"
  using assms
  by (cases c; simp only: run_scheduler_call.simps scheduler_live.simps call_defs;
      intro total_guard total_intros; blast?)

lemma pool_call_returns:
  assumes "pool_live m c" "objs_ok rtos_obj_ok m"
  shows "total rtos_ready m (run_pool_call L c) (\<lambda>_ _. True)"
  using assms
  by (cases c; simp only: run_pool_call.simps pool_live.simps call_defs;
      intro total_guard total_intros operation_totals; (blast intro: stored_ok | simp)?)

lemma telemetry_call_returns:
  assumes "telemetry_live m c" "objs_ok rtos_obj_ok m"
  shows "total rtos_ready m (run_telemetry_call L c) (\<lambda>_ _. True)"
  using assms
  by (cases c; simp only: run_telemetry_call.simps telemetry_live.simps call_defs;
      intro total_guard total_intros operation_totals; (blast intro: stored_ok | simp)?)

lemma ew_ring_call_returns:
  assumes "ew_ring_live m c" "objs_ok rtos_obj_ok m"
  shows "total rtos_ready m (run_ew_ring_call L c) (\<lambda>_ _. True)"
  using assms
  by (cases c; simp only: run_ew_ring_call.simps ew_ring_live.simps call_defs;
      intro total_guard total_intros operation_totals; (blast intro: stored_ok | simp)?)

lemma fft_call_returns:
  assumes "fft_live m c" "objs_ok rtos_obj_ok m"
  shows "total rtos_ready m (run_fft_call L c) (\<lambda>_ _. True)"
  using assms
  by (cases c; simp only: run_fft_call.simps fft_live.simps call_defs;
      intro total_guard total_intros operation_totals; (blast intro: stored_ok | simp)?)

lemma machine_call_returns:
  assumes "machine_live m c"
  shows "total rtos_ready m (run_machine_call L c) (\<lambda>_ _. True)"
  using assms
  by (cases c; simp only: run_machine_call.simps machine_live.simps call_defs;
      intro total_guard total_intros operation_totals; blast?)

lemma tracker_call_returns:
  assumes "tracker_live m c"
  shows "total rtos_ready m (run_tracker_call L c) (\<lambda>_ _. True)"
  using assms
  by (cases c; simp only: run_tracker_call.simps tracker_live.simps call_defs;
      intro total_guard total_intros operation_totals; blast?)

lemma rtos_boundary_sure:
  "boundary_live m c \<Longrightarrow> objs_ok rtos_obj_ok m \<Longrightarrow> total rtos_ready m (rtos_boundary L c) (\<lambda>_ _. True)"
  by (cases c) (simp_all add: scheduler_call_returns pool_call_returns telemetry_call_returns
      ew_ring_call_returns fft_call_returns machine_call_returns tracker_call_returns)

subsection \<open>Properties\<close>

text \<open>
  C9: A call of the RTOS boundary always comes back.  With the cache and watchdog callbacks installed
  and the objects in memory well-formed, any call returns whose object pointers are null or name an
  object of their type and whose compare-exchanges do not all fail spuriously.  It neither halts in a host
  wrapper, nor panics on an assertion, nor retries for ever, nor reads an empty slot, and it leaves the
  callbacks installed and the objects well-formed, so the next call returns too.
\<close>

theorem rtos_boundary_returns:
  assumes "rtos_ready h" "objs_ok rtos_obj_ok m" "boundary_live m c"
  shows "\<exists>r m' h'. rtos_boundary L c (m, h) = Ret r (m', h') \<and> rtos_ready h' \<and> objs_ok rtos_obj_ok m'"
  using totalD [OF rtos_boundary_sure [OF assms(3,2)] assms(1), of L] rtos_boundary_keeps [of L c] assms(2)
  unfolding keeps_def by blast

theorem rtos_boundary_returns_witness:
  "\<exists>r m' h'. rtos_boundary demo_rtos_layouts (PoolCall (PoolAllocate [True, False] 4096 64 128 192))
      (\<lparr>mem_bytes = \<lambda>_. 0, mem_objs = [4096 \<mapsto> ObjDmaPool (dma_new 256)]\<rparr>, demo_host) = Ret r (m', h') \<and>
    rtos_ready h' \<and> objs_ok rtos_obj_ok m'"
  by (rule rtos_boundary_returns)
    (simp_all add: rtos_ready_def demo_host_def objs_ok_def pool_ok_def dma_new_def ptr_live_def holds_obj_def)

end
