(* ===== verification/Crypto_Host.thy ===== *)
theory Crypto_Host
  imports Shawn_Prelude
begin

text \<open>
  The error types of the crypto crate (error.rs, ffi_error.rs), its host boundary
  (ffi_callbacks.rs) and the zeroization helpers (zeroize.rs).  The crate has its own callback
  registries.  The buffers it flushes are Rust slices whose addresses are not part of the model;
  a flush is therefore logged with the bytes the buffer holds at that moment, so that it is visible
  whether a secret or its wiped remains were written back to memory.
\<close>

named_theorems chost_simps "evaluation of the crypto host wrappers"

subsection \<open>Errors\<close>

datatype crypto_error =
    InvalidState | InvalidLength | HkdfError | VerificationFailed
  | EntropyStarvation | EntropyBusy | KeyConfirmationFailed

fun crypto_err_code :: "crypto_error \<Rightarrow> nat" where
  "crypto_err_code InvalidState = 1"
| "crypto_err_code InvalidLength = 2"
| "crypto_err_code HkdfError = 3"
| "crypto_err_code VerificationFailed = 4"
| "crypto_err_code EntropyStarvation = 5"
| "crypto_err_code EntropyBusy = 6"
| "crypto_err_code KeyConfirmationFailed = 7"

subsection \<open>The host and its registries\<close>

datatype crypto_call =
    CryptoPanicHook
  | CryptoDisableInterrupts
  | CryptoRestoreInterrupts usize
  | CryptoCacheFlush bytes

record crypto_host =
  crypto_panic_cb :: usize
  crypto_disable_cb :: usize
  crypto_restore_cb :: usize
  crypto_flush_cb :: usize
  crypto_calls :: "(usize \<times> crypto_call) list"
  crypto_reply :: "(usize \<times> crypto_call) list \<Rightarrow> u64"

definition crypto_callback_ptr :: "usize option \<Rightarrow> usize" where
  "crypto_callback_ptr cb = (case cb of None \<Rightarrow> 0 | Some f \<Rightarrow> f)"

definition crypto_register_panic_hook :: "usize option \<Rightarrow> crypto_host \<Rightarrow> crypto_host" where
  "crypto_register_panic_hook cb h = h\<lparr>crypto_panic_cb := crypto_callback_ptr cb\<rparr>"

definition crypto_register_disable_interrupts :: "usize option \<Rightarrow> crypto_host \<Rightarrow> crypto_host" where
  "crypto_register_disable_interrupts cb h = h\<lparr>crypto_disable_cb := crypto_callback_ptr cb\<rparr>"

definition crypto_register_restore_interrupts :: "usize option \<Rightarrow> crypto_host \<Rightarrow> crypto_host" where
  "crypto_register_restore_interrupts cb h = h\<lparr>crypto_restore_cb := crypto_callback_ptr cb\<rparr>"

definition crypto_register_cache_flush :: "usize option \<Rightarrow> crypto_host \<Rightarrow> crypto_host" where
  "crypto_register_cache_flush cb h = h\<lparr>crypto_flush_cb := crypto_callback_ptr cb\<rparr>"

definition crypto_log :: "usize \<Rightarrow> crypto_call \<Rightarrow> crypto_host \<Rightarrow> crypto_host" where
  "crypto_log cb c h = h\<lparr>crypto_calls := crypto_calls h @ [(cb, c)]\<rparr>"

definition crypto_invoke_panic_hook :: "crypto_host \<Rightarrow> crypto_host" where
  "crypto_invoke_panic_hook h =
     (if crypto_panic_cb h \<noteq> 0 then crypto_log (crypto_panic_cb h) CryptoPanicHook h else h)"

definition crypto_call_host :: "(crypto_host \<Rightarrow> usize) \<Rightarrow> crypto_call \<Rightarrow> (crypto_host, u64) prog" where
  "crypto_call_host registry c h =
     (let cb_ptr = registry h in
      if cb_ptr = 0 then Halt (crypto_invoke_panic_hook h)
      else let h' = crypto_log cb_ptr c h in Ret (crypto_reply h' (crypto_calls h')) h')"

definition crypto_disable_and_save :: "(crypto_host, usize) prog" where
  "crypto_disable_and_save = crypto_call_host crypto_disable_cb CryptoDisableInterrupts"

definition crypto_restore :: "usize \<Rightarrow> (crypto_host, unit) prog" where
  "crypto_restore flags =
     seqP (crypto_call_host crypto_restore_cb (CryptoRestoreInterrupts flags)) (ret ())"

definition crypto_host_cache_flush :: "bytes \<Rightarrow> (crypto_host, unit) prog" where
  "crypto_host_cache_flush bs = seqP (crypto_call_host crypto_flush_cb (CryptoCacheFlush bs)) (ret ())"

subsection \<open>Zeroization\<close>

definition secure_zeroize :: "bytes \<Rightarrow> bytes" where
  "secure_zeroize bs = zeros (length bs)"

definition secure_cache_flush_raw :: "bytes \<Rightarrow> (crypto_host, unit) prog" where
  "secure_cache_flush_raw bs = (if bs = [] then ret () else crypto_host_cache_flush bs)"

definition secure_cache_flush :: "bytes \<Rightarrow> (crypto_host, unit) prog" where
  "secure_cache_flush bs = secure_cache_flush_raw bs"

subsection \<open>Evaluation\<close>

definition flushed :: "bytes \<Rightarrow> crypto_host \<Rightarrow> crypto_host" where
  "flushed bs h = (if bs = [] then h else crypto_log (crypto_flush_cb h) (CryptoCacheFlush bs) h)"

lemma secure_cache_flush_set [chost_simps, simp]:
  "crypto_flush_cb h \<noteq> 0 \<Longrightarrow> secure_cache_flush bs h = Ret () (flushed bs h)"
  by (simp add: secure_cache_flush_def secure_cache_flush_raw_def crypto_host_cache_flush_def
      crypto_call_host_def flushed_def Let_def)

lemma secure_cache_flush_null [chost_simps]:
  "crypto_flush_cb h = 0 \<Longrightarrow> bs \<noteq> [] \<Longrightarrow> secure_cache_flush bs h = Halt (crypto_invoke_panic_hook h)"
  by (simp add: secure_cache_flush_def secure_cache_flush_raw_def crypto_host_cache_flush_def
      crypto_call_host_def Let_def)

lemma crypto_log_fields [simp]:
  "crypto_panic_cb (crypto_log cb c h) = crypto_panic_cb h"
  "crypto_disable_cb (crypto_log cb c h) = crypto_disable_cb h"
  "crypto_restore_cb (crypto_log cb c h) = crypto_restore_cb h"
  "crypto_flush_cb (crypto_log cb c h) = crypto_flush_cb h"
  "crypto_calls (crypto_log cb c h) = crypto_calls h @ [(cb, c)]"
  "crypto_reply (crypto_log cb c h) = crypto_reply h"
  by (simp_all add: crypto_log_def)

lemma flushed_fields [simp]:
  "crypto_flush_cb (flushed bs h) = crypto_flush_cb h"
  "crypto_disable_cb (flushed bs h) = crypto_disable_cb h"
  "crypto_restore_cb (flushed bs h) = crypto_restore_cb h"
  "crypto_panic_cb (flushed bs h) = crypto_panic_cb h"
  by (simp_all add: flushed_def)

lemma length_secure_zeroize [simp]: "length (secure_zeroize bs) = length bs"
  by (simp add: secure_zeroize_def)

text \<open>A host with every callback registered, for evaluation on concrete inputs.\<close>

definition demo_crypto_host :: crypto_host where
  "demo_crypto_host = \<lparr>crypto_panic_cb = 7, crypto_disable_cb = 1, crypto_restore_cb = 2,
     crypto_flush_cb = 5, crypto_calls = [], crypto_reply = (\<lambda>_. 0)\<rparr>"

lemma demo_crypto_flush [simp]: "crypto_flush_cb demo_crypto_host \<noteq> 0"
  by (simp add: demo_crypto_host_def)

end
