(* ===== verification/Crypto_Prims.thy ===== *)
theory Crypto_Prims
  imports Crypto_Host
begin

text \<open>
  The wrappers around the third-party primitives (ml_kem_wrapper.rs, x25519_wrapper.rs,
  ml_dsa_wrapper.rs).  The primitives themselves are outside the repository: they are the fields
  of a record \<open>prims\<close> that every definition takes as an argument, with the key types of the crates as
  type parameters.  What the crate relies on of their documented behaviour is stated below as
  named predicates, and used as hypotheses only where a property needs it.
\<close>

record ('ek, 'dk, 'vk, 'sk) prims =
  sha384_digest :: "bytes \<Rightarrow> bytes"
  hmac_new :: "bytes \<Rightarrow> bool"
  hmac_finalize :: "bytes \<Rightarrow> bytes \<Rightarrow> bytes"
  hkdf_extract :: "bytes \<Rightarrow> bytes \<Rightarrow> bytes"
  hkdf_from_prk :: "bytes \<Rightarrow> bool"
  hkdf_expand :: "bytes \<Rightarrow> bytes \<Rightarrow> nat \<Rightarrow> bytes option"
  chacha_new :: "bytes \<Rightarrow> bytes \<Rightarrow> bool"
  chacha_apply :: "bytes \<Rightarrow> bytes \<Rightarrow> bytes \<Rightarrow> bytes option"
  kem_from_seed :: "bytes \<Rightarrow> 'dk"
  kem_encapsulation_key :: "'dk \<Rightarrow> 'ek"
  kem_ek_to_bytes :: "'ek \<Rightarrow> bytes"
  kem_ek_new :: "bytes \<Rightarrow> 'ek option"
  kem_encapsulate :: "'ek \<Rightarrow> bytes \<Rightarrow> bytes \<times> bytes"
  kem_decapsulate :: "'dk \<Rightarrow> bytes \<Rightarrow> bytes"
  x_public :: "bytes \<Rightarrow> bytes"
  x_secret_bytes :: "bytes \<Rightarrow> bytes"
  x_dh :: "bytes \<Rightarrow> bytes \<Rightarrow> bytes"
  x_contributory :: "bytes \<Rightarrow> bool"
  dsa_from_seed :: "bytes \<Rightarrow> 'sk"
  dsa_verifying_key :: "'sk \<Rightarrow> 'vk"
  dsa_vk_encode :: "'vk \<Rightarrow> bytes"
  dsa_vk_decode :: "bytes \<Rightarrow> 'vk"
  dsa_sign :: "'sk \<Rightarrow> bytes \<Rightarrow> bytes"
  dsa_sign_deterministic :: "'sk \<Rightarrow> bytes \<Rightarrow> bytes \<Rightarrow> bytes option"
  dsa_sig_decodes :: "bytes \<Rightarrow> bool"
  dsa_verify :: "'vk \<Rightarrow> bytes \<Rightarrow> bytes \<Rightarrow> bool"
  dsa_verify_with_context :: "'vk \<Rightarrow> bytes \<Rightarrow> bytes \<Rightarrow> bytes \<Rightarrow> bool"

subsection \<open>ML-KEM-1024\<close>

definition ML_KEM_PUBLICKEY_BYTES :: nat where
  "ML_KEM_PUBLICKEY_BYTES = 1568"

definition ml_kem_pk_to_bytes :: "('ek, 'dk, 'vk, 'sk) prims \<Rightarrow> 'ek \<Rightarrow> bytes" where
  "ml_kem_pk_to_bytes P ek = kem_ek_to_bytes P ek"

definition ml_kem_pk_from_bytes :: "('ek, 'dk, 'vk, 'sk) prims \<Rightarrow> bytes \<Rightarrow> crypto_error + 'ek" where
  "ml_kem_pk_from_bytes P bs =
     (if length bs \<noteq> ML_KEM_PUBLICKEY_BYTES then Err InvalidLength
      else case kem_ek_new P bs of Some ek \<Rightarrow> Ok ek | None \<Rightarrow> Err InvalidState)"

definition ml_kem_keygen :: "('ek, 'dk, 'vk, 'sk) prims \<Rightarrow> bytes \<Rightarrow> crypto_error + ('ek \<times> 'dk)" where
  "ml_kem_keygen P entropy =
     (let dk = kem_from_seed P entropy; ek = kem_encapsulation_key P dk in Ok (ek, dk))"

definition ml_kem_encapsulate ::
  "('ek, 'dk, 'vk, 'sk) prims \<Rightarrow> 'ek \<Rightarrow> bytes \<Rightarrow> (crypto_host, crypto_error + (bytes \<times> bytes)) prog" where
  "ml_kem_encapsulate P ek entropy =
     (let (ct, ss) = kem_encapsulate P ek entropy in
      seqP (secure_cache_flush ss) (ret (Ok (ss, ct))))"

definition ml_kem_decapsulate ::
  "('ek, 'dk, 'vk, 'sk) prims \<Rightarrow> 'dk \<Rightarrow> bytes \<Rightarrow> (crypto_host, crypto_error + bytes) prog" where
  "ml_kem_decapsulate P dk ct =
     (let ss = kem_decapsulate P dk ct in seqP (secure_cache_flush ss) (ret (Ok ss)))"

subsection \<open>X25519\<close>

definition x25519_keygen :: "('ek, 'dk, 'vk, 'sk) prims \<Rightarrow> bytes \<Rightarrow> bytes \<times> bytes" where
  "x25519_keygen P rng_bytes = (x_public P rng_bytes, x_secret_bytes P rng_bytes)"

definition x25519_diffie_hellman ::
  "('ek, 'dk, 'vk, 'sk) prims \<Rightarrow> bytes \<Rightarrow> bytes \<Rightarrow> (crypto_host, crypto_error + bytes) prog" where
  "x25519_diffie_hellman P secret their_public =
     (if list_all (\<lambda>b. b = 0) their_public then ret (Err InvalidState)
      else
        let shared = x_dh P secret their_public in
        if \<not> x_contributory P shared then ret (Err InvalidState)
        else seqP (secure_cache_flush shared) (ret (Ok shared)))"

subsection \<open>ML-DSA-87\<close>

definition ML_DSA_PUBLICKEY_BYTES :: nat where
  "ML_DSA_PUBLICKEY_BYTES = 2592"

definition ML_DSA_SIGNATURE_BYTES :: nat where
  "ML_DSA_SIGNATURE_BYTES = 4627"

definition ml_dsa_verifying_key :: "('ek, 'dk, 'vk, 'sk) prims \<Rightarrow> 'sk \<Rightarrow> 'vk" where
  "ml_dsa_verifying_key P sk = dsa_verifying_key P sk"

definition ml_dsa_pk_to_bytes :: "('ek, 'dk, 'vk, 'sk) prims \<Rightarrow> 'vk \<Rightarrow> bytes" where
  "ml_dsa_pk_to_bytes P vk = dsa_vk_encode P vk"

definition ml_dsa_pk_from_bytes :: "('ek, 'dk, 'vk, 'sk) prims \<Rightarrow> bytes \<Rightarrow> crypto_error + 'vk" where
  "ml_dsa_pk_from_bytes P bs =
     (if length bs \<noteq> ML_DSA_PUBLICKEY_BYTES then Err InvalidLength else Ok (dsa_vk_decode P bs))"

definition ml_dsa_keygen :: "('ek, 'dk, 'vk, 'sk) prims \<Rightarrow> bytes \<Rightarrow> crypto_error + ('vk \<times> 'sk)" where
  "ml_dsa_keygen P seed =
     (let sk = dsa_from_seed P seed; vk = dsa_verifying_key P sk in Ok (vk, sk))"

definition ml_dsa_sign ::
  "('ek, 'dk, 'vk, 'sk) prims \<Rightarrow> 'sk \<Rightarrow> bytes \<Rightarrow> (crypto_host, crypto_error + bytes) prog" where
  "ml_dsa_sign P sk msg =
     (let sig = dsa_sign P sk msg in
      if length sig \<noteq> ML_DSA_SIGNATURE_BYTES then ret (Err InvalidLength)
      else seqP (secure_cache_flush sig) (ret (Ok sig)))"

definition ml_dsa_verify ::
  "('ek, 'dk, 'vk, 'sk) prims \<Rightarrow> 'vk \<Rightarrow> bytes \<Rightarrow> bytes \<Rightarrow> crypto_error + unit" where
  "ml_dsa_verify P pk msg sig =
     (if \<not> dsa_sig_decodes P sig then Err VerificationFailed
      else if dsa_verify P pk msg sig then Ok () else Err VerificationFailed)"

definition ml_dsa_sign_with_context ::
  "('ek, 'dk, 'vk, 'sk) prims \<Rightarrow> 'sk \<Rightarrow> bytes \<Rightarrow> bytes \<Rightarrow> (crypto_host, crypto_error + bytes) prog" where
  "ml_dsa_sign_with_context P sk msg ctxt =
     (case dsa_sign_deterministic P sk msg ctxt of
        None \<Rightarrow> ret (Err InvalidLength)
      | Some sig \<Rightarrow>
          if length sig \<noteq> ML_DSA_SIGNATURE_BYTES then ret (Err InvalidLength)
          else seqP (secure_cache_flush sig) (ret (Ok sig)))"

definition ml_dsa_verify_with_context ::
  "('ek, 'dk, 'vk, 'sk) prims \<Rightarrow> 'vk \<Rightarrow> bytes \<Rightarrow> bytes \<Rightarrow> bytes \<Rightarrow> crypto_error + unit" where
  "ml_dsa_verify_with_context P pk msg ctxt sig =
     (if \<not> dsa_sig_decodes P sig then Err VerificationFailed
      else if dsa_verify_with_context P pk msg ctxt sig then Ok () else Err VerificationFailed)"

subsection \<open>Documented behaviour of the primitives\<close>

definition hash_ok :: "('ek, 'dk, 'vk, 'sk) prims \<Rightarrow> bool" where
  "hash_ok P \<longleftrightarrow> (\<forall>x. length (sha384_digest P x) = 48)"

definition hmac_ok :: "('ek, 'dk, 'vk, 'sk) prims \<Rightarrow> bool" where
  "hmac_ok P \<longleftrightarrow> (\<forall>k. hmac_new P k) \<and> (\<forall>k x. length (hmac_finalize P k x) = 48)"

definition hkdf_ok :: "('ek, 'dk, 'vk, 'sk) prims \<Rightarrow> bool" where
  "hkdf_ok P \<longleftrightarrow> (\<forall>prk info n. n \<le> 255 * 48 \<longrightarrow>
     (\<exists>out. hkdf_expand P prk info n = Some out \<and> length out = n))"

text \<open>
  The stream cipher accepts a 32-byte key and a 12-byte nonce, and applying its keystream twice
  gives the input back.
\<close>

definition chacha_ok :: "('ek, 'dk, 'vk, 'sk) prims \<Rightarrow> bool" where
  "chacha_ok P \<longleftrightarrow> (\<forall>k n. length k = 32 \<and> length n = 12 \<longrightarrow> chacha_new P k n \<and>
     (\<forall>x. length x \<le> (2 ^ 32 - 1) * 64 \<longrightarrow>
        (\<exists>y. chacha_apply P k n x = Some y \<and> length y = length x \<and> chacha_apply P k n y = Some x)))"

definition kem_ok :: "('ek, 'dk, 'vk, 'sk) prims \<Rightarrow> bool" where
  "kem_ok P \<longleftrightarrow> (\<forall>seed m. let dk = kem_from_seed P seed; ek = kem_encapsulation_key P dk in
     kem_decapsulate P dk (fst (kem_encapsulate P ek m)) = snd (kem_encapsulate P ek m))"

definition dh_ok :: "('ek, 'dk, 'vk, 'sk) prims \<Rightarrow> bool" where
  "dh_ok P \<longleftrightarrow> (\<forall>a. x_secret_bytes P a = a) \<and> (\<forall>a b. x_dh P a (x_public P b) = x_dh P b (x_public P a))"

definition dsa_ok :: "('ek, 'dk, 'vk, 'sk) prims \<Rightarrow> bool" where
  "dsa_ok P \<longleftrightarrow> (\<forall>sk msg c. length c \<le> 255 \<longrightarrow>
     (\<exists>sig. dsa_sign_deterministic P sk msg c = Some sig \<and> length sig = 4627 \<and>
        dsa_sig_decodes P sig \<and> dsa_verify_with_context P (dsa_verifying_key P sk) msg c sig))"

subsection \<open>A toy instance\<close>

text \<open>
  Simple functions that have the documented behaviour, so that every hypothesis above can hold.
  They are used only to evaluate theorems at concrete inputs.
\<close>

definition pad_to :: "nat \<Rightarrow> bytes \<Rightarrow> bytes" where
  "pad_to n bs = take n (bs @ zeros n)"

definition toy :: "(bytes, bytes, bytes, bytes) prims" where
  "toy = \<lparr>sha384_digest = pad_to 48, hmac_new = (\<lambda>_. True),
     hmac_finalize = (\<lambda>k x. pad_to 48 (take 24 k @ x)),
     hkdf_extract = (\<lambda>salt ikm. pad_to 48 (take 16 salt @ ikm)), hkdf_from_prk = (\<lambda>prk. 48 \<le> length prk),
     hkdf_expand = (\<lambda>prk info n. Some (pad_to n (prk @ info))),
     chacha_new = (\<lambda>k n. length k = 32 \<and> length n = 12),
     chacha_apply = (\<lambda>k n x. Some (map (\<lambda>b. b XOR hd (k @ [0])) x)),
     kem_from_seed = (\<lambda>s. s), kem_encapsulation_key = (\<lambda>dk. dk), kem_ek_to_bytes = pad_to 1568,
     kem_ek_new = Some, kem_encapsulate = (\<lambda>ek m. (pad_to 1568 m, pad_to 32 m)),
     kem_decapsulate = (\<lambda>dk ct. take 32 ct),
     x_public = (\<lambda>a. pad_to 32 a), x_secret_bytes = (\<lambda>a. a),
     x_dh = (\<lambda>a p. map2 (XOR) (pad_to 32 a) (pad_to 32 p)), x_contributory = (\<lambda>_. True),
     dsa_from_seed = (\<lambda>s. s), dsa_verifying_key = (\<lambda>sk. sk), dsa_vk_encode = pad_to 2592,
     dsa_vk_decode = (\<lambda>b. b), dsa_sign = (\<lambda>sk m. zeros 4627),
     dsa_sign_deterministic = (\<lambda>sk m c. if length c \<le> 255 then Some (zeros 4627) else None),
     dsa_sig_decodes = (\<lambda>s. length s = 4627), dsa_verify = (\<lambda>vk m s. s = zeros 4627),
     dsa_verify_with_context = (\<lambda>vk m c s. s = zeros 4627)\<rparr>"

lemma length_pad_to [simp]: "length (pad_to n bs) = n"
  by (simp add: pad_to_def)

lemma pad_to_take: "n \<le> m \<Longrightarrow> take n (pad_to m bs) = pad_to n bs"
  by (simp add: pad_to_def zeros_def min_def)

lemma pad_to_idem [simp]: "pad_to n (pad_to n bs) = pad_to n bs"
  by (simp add: pad_to_def [of n "pad_to n bs"])

lemma xor_cancel: "(x XOR k) XOR k = (x :: u8)"
  by (rule bit_word_eqI) (auto simp: bit_simps)

lemma map2_xor_commute: "length a = length b \<Longrightarrow> map2 (XOR) a b = map2 (XOR) b (a :: bytes)"
  by (induction a b rule: list_induct2) (simp_all add: xor.commute)

lemma toy_ok:
  "hash_ok toy" "hmac_ok toy" "hkdf_ok toy" "chacha_ok toy" "kem_ok toy" "dh_ok toy" "dsa_ok toy"
proof -
  show "hash_ok toy" "hmac_ok toy" "hkdf_ok toy" "dsa_ok toy"
    by (simp_all add: hash_ok_def hmac_ok_def hkdf_ok_def dsa_ok_def toy_def)
  show "chacha_ok toy" by (auto simp: chacha_ok_def toy_def o_def xor_cancel)
  show "kem_ok toy" by (simp add: kem_ok_def toy_def pad_to_take)
  show "dh_ok toy"
    unfolding dh_ok_def toy_def prims.simps pad_to_idem
    by (intro conjI allI refl map2_xor_commute) simp
qed

end
