(* ===== verification/Aead.thy ===== *)
theory Aead
  imports Crypto_Prims
begin

text \<open>
  The encrypt-then-MAC construction (aead_wrapper.rs): ChaCha20 under the encryption key, then
  HMAC-SHA384 under the MAC key over lengths, nonce, associated data and ciphertext.  The output
  buffers are arguments and come back in the result, as they are left on every path.
\<close>

definition AEAD_KEY_SIZE :: nat where
  "AEAD_KEY_SIZE = 32"

definition AEAD_NONCE_SIZE :: nat where
  "AEAD_NONCE_SIZE = 12"

definition AEAD_TAG_SIZE :: nat where
  "AEAD_TAG_SIZE = 48"

definition CHACHA20_MAX_BYTES :: nat where
  "CHACHA20_MAX_BYTES = (2 ^ 32 - 1) * 64"

definition verify_tag_constant_time :: "bytes \<Rightarrow> bytes \<Rightarrow> bool" where
  "verify_tag_constant_time a b \<longleftrightarrow> a = b"

definition hmac_sha384 ::
  "('ek, 'dk, 'vk, 'sk) prims \<Rightarrow> bytes \<Rightarrow> bytes \<Rightarrow> (crypto_host, crypto_error + bytes) prog" where
  "hmac_sha384 P key data =
     (if \<not> hmac_new P key then ret (Err InvalidState)
      else let output = hmac_finalize P key data in
           seqP (secure_cache_flush output) (ret (Ok output)))"

definition hkdf_expand_sha384 ::
  "('ek, 'dk, 'vk, 'sk) prims \<Rightarrow> bytes \<Rightarrow> bytes \<Rightarrow> bytes \<Rightarrow>
   (crypto_host, (crypto_error + unit) \<times> bytes) prog" where
  "hkdf_expand_sha384 P prk info out =
     (if \<not> hkdf_from_prk P prk then ret (Err InvalidLength, out)
      else case hkdf_expand P prk info (length out) of
        None \<Rightarrow> ret (Err HkdfError, secure_zeroize out)
      | Some out' \<Rightarrow> seqP (secure_cache_flush out') (ret (Ok (), out')))"

text \<open>The byte string the MAC covers.\<close>

definition mac_input :: "bytes \<Rightarrow> bytes \<Rightarrow> bytes \<Rightarrow> bytes" where
  "mac_input nonce aad ciphertext =
     be_bytes 8 (of_nat (length aad) :: u64) @ be_bytes 8 (of_nat (length ciphertext) :: u64) @
     nonce @ aad @ ciphertext"

definition aead_encrypt ::
  "('ek, 'dk, 'vk, 'sk) prims \<Rightarrow> bytes \<Rightarrow> bytes \<Rightarrow> bytes \<Rightarrow> bytes \<Rightarrow> bytes \<Rightarrow> bytes \<Rightarrow> bytes \<Rightarrow>
   (crypto_host, (crypto_error + unit) \<times> bytes \<times> bytes) prog" where
  "aead_encrypt P enc_key mac_key nonce aad plaintext ciphertext out_mac =
     (if length plaintext \<noteq> length ciphertext \<or> length plaintext > CHACHA20_MAX_BYTES
      then ret (Err InvalidLength, ciphertext, out_mac)
      else if \<not> chacha_new P enc_key nonce then ret (Err InvalidState, plaintext, out_mac)
      else case chacha_apply P enc_key nonce plaintext of
        None \<Rightarrow> ret (Err InvalidLength, secure_zeroize ciphertext, out_mac)
      | Some ciphertext' \<Rightarrow>
          if \<not> hmac_new P mac_key then ret (Err InvalidState, ciphertext', out_mac)
          else
            let mac = hmac_finalize P mac_key (mac_input nonce aad ciphertext') in
            seqP (secure_cache_flush ciphertext')
           (seqP (secure_cache_flush mac)
                 (ret (Ok (), ciphertext', mac))))"

definition aead_decrypt ::
  "('ek, 'dk, 'vk, 'sk) prims \<Rightarrow> bytes \<Rightarrow> bytes \<Rightarrow> bytes \<Rightarrow> bytes \<Rightarrow> bytes \<Rightarrow> bytes \<Rightarrow> bytes \<Rightarrow>
   (crypto_host, (crypto_error + unit) \<times> bytes) prog" where
  "aead_decrypt P enc_key mac_key nonce aad ciphertext mac plaintext =
     (if length plaintext \<noteq> length ciphertext \<or> length ciphertext > CHACHA20_MAX_BYTES
      then ret (Err InvalidLength, plaintext)
      else if \<not> hmac_new P mac_key then ret (Err InvalidState, plaintext)
      else
        let expected_mac = hmac_finalize P mac_key (mac_input nonce aad ciphertext) in
        if \<not> verify_tag_constant_time mac expected_mac
        then ret (Err VerificationFailed, secure_zeroize plaintext)
        else if \<not> chacha_new P enc_key nonce then ret (Err InvalidState, ciphertext)
        else case chacha_apply P enc_key nonce ciphertext of
          None \<Rightarrow> ret (Err InvalidLength, secure_zeroize plaintext)
        | Some plaintext' \<Rightarrow> seqP (secure_cache_flush plaintext') (ret (Ok (), plaintext')))"

definition aead_encrypt_in_place ::
  "('ek, 'dk, 'vk, 'sk) prims \<Rightarrow> bytes \<Rightarrow> bytes \<Rightarrow> bytes \<Rightarrow> bytes \<Rightarrow> bytes \<Rightarrow> bytes \<Rightarrow>
   (crypto_host, (crypto_error + unit) \<times> bytes \<times> bytes) prog" where
  "aead_encrypt_in_place P enc_key mac_key nonce aad buf out_mac =
     (if length buf > CHACHA20_MAX_BYTES then ret (Err InvalidLength, buf, out_mac)
      else if \<not> chacha_new P enc_key nonce then ret (Err InvalidState, buf, out_mac)
      else case chacha_apply P enc_key nonce buf of
        None \<Rightarrow> ret (Err InvalidLength, secure_zeroize buf, out_mac)
      | Some buf' \<Rightarrow>
          if \<not> hmac_new P mac_key then ret (Err InvalidState, buf', out_mac)
          else
            let mac = hmac_finalize P mac_key (mac_input nonce aad buf') in
            seqP (secure_cache_flush buf') (seqP (secure_cache_flush mac) (ret (Ok (), buf', mac))))"

definition aead_decrypt_in_place ::
  "('ek, 'dk, 'vk, 'sk) prims \<Rightarrow> bytes \<Rightarrow> bytes \<Rightarrow> bytes \<Rightarrow> bytes \<Rightarrow> bytes \<Rightarrow> bytes \<Rightarrow>
   (crypto_host, (crypto_error + unit) \<times> bytes) prog" where
  "aead_decrypt_in_place P enc_key mac_key nonce aad buf mac =
     (if length buf > CHACHA20_MAX_BYTES then ret (Err InvalidLength, buf)
      else if \<not> hmac_new P mac_key then ret (Err InvalidState, buf)
      else
        let expected_mac = hmac_finalize P mac_key (mac_input nonce aad buf) in
        if \<not> verify_tag_constant_time mac expected_mac
        then ret (Err VerificationFailed, secure_zeroize buf)
        else if \<not> chacha_new P enc_key nonce then ret (Err InvalidState, buf)
        else case chacha_apply P enc_key nonce buf of
          None \<Rightarrow> ret (Err InvalidLength, secure_zeroize buf)
        | Some buf' \<Rightarrow> seqP (secure_cache_flush buf') (ret (Ok (), buf')))"

subsection \<open>Lemmas\<close>

lemma of_nat_len_inj:
  "length a < 2 ^ 64 \<Longrightarrow> length b < 2 ^ 64 \<Longrightarrow>
   (of_nat (length a) :: u64) = of_nat (length b) \<Longrightarrow> length a = length b"
  by (drule arg_cong [of _ _ unat]) (simp add: unat_of_nat)

lemma mac_input_inj:
  assumes "mac_input n a c = mac_input n' a' c'" "length n = length n'"
    and "length a < 2 ^ 64" "length a' < 2 ^ 64"
  shows "n = n' \<and> a = a' \<and> c = c'"
proof -
  have "be_bytes 8 (of_nat (length a) :: u64) = be_bytes 8 (of_nat (length a') :: u64)"
    and rest: "n @ a @ c = n' @ a' @ c'"
    using assms(1) by (simp_all add: mac_input_def)
  then have "(of_nat (length a) :: u64) = of_nat (length a')" by (intro be_bytes_inj) simp_all
  then have "length a = length a'" using assms(3,4) by (rule of_nat_len_inj [rotated 2])
  then show ?thesis using rest assms(2) by simp
qed

text \<open>
  What the construction computes when the primitives behave as documented: the ciphertext and tag
  of a sealing, and the plaintext of an accepted opening.
\<close>

definition seal :: "('ek, 'dk, 'vk, 'sk) prims \<Rightarrow> bytes \<Rightarrow> bytes \<Rightarrow> bytes \<Rightarrow> bytes \<Rightarrow> bytes \<Rightarrow> bytes \<times> bytes" where
  "seal P enc_key mac_key nonce aad plaintext =
     (let c = the (chacha_apply P enc_key nonce plaintext)
      in (c, hmac_finalize P mac_key (mac_input nonce aad c)))"

lemma chacha_okD:
  assumes "chacha_ok P" "length k = 32" "length n = 12"
  shows "chacha_new P k n"
    and "length x \<le> CHACHA20_MAX_BYTES \<Longrightarrow>
      \<exists>y. chacha_apply P k n x = Some y \<and> length y = length x \<and> chacha_apply P k n y = Some x"
  using assms by (simp_all add: chacha_ok_def CHACHA20_MAX_BYTES_def)

lemma hmac_okD: "hmac_ok P \<Longrightarrow> hmac_new P k" "hmac_ok P \<Longrightarrow> length (hmac_finalize P k x) = 48"
  by (simp_all add: hmac_ok_def)

lemma length_seal [simp]:
  assumes "chacha_ok P" "hmac_ok P" "length k = 32" "length n = 12" "length pt \<le> CHACHA20_MAX_BYTES"
  shows "length (fst (seal P k m n aad pt)) = length pt" "length (snd (seal P k m n aad pt)) = 48"
  using chacha_okD(2) [OF assms(1,3,4,5)] assms(2) by (auto simp: seal_def Let_def hmac_okD)

lemma aead_encrypt_seals:
  assumes "chacha_ok P" "hmac_ok P" "length k = 32" "length n = 12"
    and "length pt \<le> CHACHA20_MAX_BYTES" "length out = length pt" "crypto_flush_cb h \<noteq> 0"
  shows "aead_encrypt P k m n aad pt out out_mac h =
    (case seal P k m n aad pt of (c, t) \<Rightarrow> Ret (Ok (), c, t) (flushed t (flushed c h)))"
  using chacha_okD(1) [OF assms(1,3,4)] chacha_okD(2) [OF assms(1,3,4,5)] assms
  by (auto simp: aead_encrypt_def seal_def Let_def hmac_okD ret_def)

lemma aead_decrypt_opens:
  assumes "chacha_ok P" "hmac_ok P" "length k = 32" "length n = 12"
    and "length pt \<le> CHACHA20_MAX_BYTES" "length out = length pt" "crypto_flush_cb h \<noteq> 0"
  shows "aead_decrypt P k m n aad (fst (seal P k m n aad pt)) (snd (seal P k m n aad pt)) out h =
    Ret (Ok (), pt) (flushed pt h)"
proof -
  obtain c where c: "chacha_apply P k n pt = Some c" "length c = length pt" "chacha_apply P k n c = Some pt"
    using chacha_okD(2) [OF assms(1,3,4,5)] by auto
  show ?thesis
    using assms c chacha_okD(1) [OF assms(1,3,4)]
    by (simp add: aead_decrypt_def seal_def Let_def hmac_okD verify_tag_constant_time_def ret_def)
qed

lemma aead_decrypt_bad_tag:
  assumes "hmac_ok P" "length out = length c" "length c \<le> CHACHA20_MAX_BYTES"
    and "tag \<noteq> hmac_finalize P m (mac_input n aad c)"
  shows "aead_decrypt P k m n aad c tag out h = Ret (Err VerificationFailed, zeros (length out)) h"
  using assms by (simp add: aead_decrypt_def Let_def hmac_okD verify_tag_constant_time_def
      secure_zeroize_def ret_def)

subsection \<open>Properties\<close>

text \<open>
  Round trip of the authenticated encryption.  With primitives that behave as documented and
  a registered cache-flush callback, encrypting into a buffer of the plaintext's length succeeds
  with a ciphertext of the same length and a 48-byte tag, and decrypting these with the same keys,
  nonce and associated data, on any later host with the callback registered, returns the plaintext
  whatever the output buffer held before.
\<close>

theorem aead_round_trip:
  assumes "chacha_ok P" "hmac_ok P" "length k = 32" "length n = 12"
    and "length pt \<le> CHACHA20_MAX_BYTES" "length out = length pt" "length out' = length pt"
    and "crypto_flush_cb h \<noteq> 0" "crypto_flush_cb h2 \<noteq> 0"
  shows "\<exists>c t h'. aead_encrypt P k m n aad pt out out_mac h = Ret (Ok (), c, t) h' \<and>
    length c = length pt \<and> length t = AEAD_TAG_SIZE \<and>
    (\<exists>h3. aead_decrypt P k m n aad c t out' h2 = Ret (Ok (), pt) h3)"
proof -
  obtain c t where s: "seal P k m n aad pt = (c, t)" by fastforce
  have "length c = length pt" "length t = 48"
    using length_seal [OF assms(1-5), of m aad] s by simp_all
  then show ?thesis
    using aead_encrypt_seals [OF assms(1-6,8), of m aad out_mac]
      aead_decrypt_opens [OF assms(1-5,7,9), of m aad] s
    by (simp add: AEAD_TAG_SIZE_def)
qed

theorem aead_round_trip_witness:
  "\<exists>c t h'. aead_encrypt toy (zeros 32) (zeros 32) (zeros 12) [1] [2, 3] [0, 0] (zeros 48) demo_crypto_host
      = Ret (Ok (), c, t) h' \<and> length c = length [2 :: u8, 3] \<and> length t = AEAD_TAG_SIZE \<and>
    (\<exists>h3. aead_decrypt toy (zeros 32) (zeros 32) (zeros 12) [1] c t [9, 9] demo_crypto_host
       = Ret (Ok (), [2, 3]) h3)"
  by (rule aead_round_trip [OF toy_ok(4) toy_ok(2)]) (simp_all add: CHACHA20_MAX_BYTES_def)

text \<open>
  C15: A modified packet is refused.  Whatever is changed of nonce, associated data or ciphertext
  after a successful encryption, decryption with the original tag returns
  \<open>VerificationFailed\<close>, the plaintext buffer is wiped to zeros and nothing is sent to the host, unless
  HMAC itself collides on the two authenticated byte strings.  The encoding adds no collision of
  its own: different packets are different HMAC inputs.
\<close>

theorem aead_tampering_detected:
  assumes "hmac_ok P" "aead_encrypt P k m n aad pt out out_mac h = Ret (Ok (), c, t) h'"
    and "(n', aad', c') \<noteq> (n, aad, c)" "length n' = length n"
    and "length aad < 2 ^ 64" "length aad' < 2 ^ 64" "length c' \<le> CHACHA20_MAX_BYTES"
    and "length out' = length c'"
    and "mac_input n aad c \<noteq> mac_input n' aad' c' \<Longrightarrow>
      hmac_finalize P m (mac_input n aad c) \<noteq> hmac_finalize P m (mac_input n' aad' c')"
  shows "aead_decrypt P k m n' aad' c' t out' h2 = Ret (Err VerificationFailed, zeros (length out')) h2"
proof -
  have "mac_input n aad c \<noteq> mac_input n' aad' c'"
    using mac_input_inj [of n aad c n' aad' c'] assms(3-6) by auto
  moreover have "t = hmac_finalize P m (mac_input n aad c)"
    using assms(2) by (auto simp: aead_encrypt_def Let_def ret_def seqP_eq_Ret bindP_eq_Ret
        split: if_splits option.splits)
  ultimately show ?thesis
    using assms(1,7,8,9) by (intro aead_decrypt_bad_tag) auto
qed

theorem aead_tampering_detected_witness:
  "\<exists>c t h'. aead_encrypt toy (zeros 32) [] (zeros 12) [] [2] [0] (zeros 48) demo_crypto_host
      = Ret (Ok (), c, t) h' \<and>
    aead_decrypt toy (zeros 32) [] (zeros 12) [] [7] t [9] demo_crypto_host
      = Ret (Err VerificationFailed, zeros 1) demo_crypto_host"
proof -
  let ?in = "\<lambda>b. mac_input (zeros 12) [] [b]"
  have e: "aead_encrypt toy (zeros 32) [] (zeros 12) [] [2] [0] (zeros 48) demo_crypto_host =
      Ret (Ok (), [2], pad_to 48 (?in 2)) (flushed (pad_to 48 (?in 2)) (flushed [2] demo_crypto_host))"
    by (simp add: aead_encrypt_seals [OF toy_ok(4) toy_ok(2)] CHACHA20_MAX_BYTES_def)
       (simp add: seal_def toy_def zeros_def Let_def)
  have "hmac_finalize toy [] (?in 2) \<noteq> hmac_finalize toy [] (?in 7)"
    by (simp add: toy_def pad_to_def mac_input_def zeros_def)
  then show ?thesis
    using e aead_tampering_detected [OF toy_ok(2) e, of "zeros 12" "[]" "[7]" "[9]"]
    by (simp add: CHACHA20_MAX_BYTES_def)
qed

text \<open>
  The in-place variants compute exactly what the two-buffer variants compute when the output
  buffer is the input buffer: same result, same bytes left in the buffer, same tag and the same
  callbacks, on success and on every error path, for all primitives and inputs.
\<close>

theorem aead_in_place_equivalent:
  "aead_encrypt_in_place P k m n aad buf out_mac = aead_encrypt P k m n aad buf buf out_mac \<and>
   aead_decrypt_in_place P k m n aad buf mac = aead_decrypt P k m n aad buf mac buf"
  by (simp add: aead_encrypt_in_place_def aead_encrypt_def aead_decrypt_in_place_def aead_decrypt_def)

end
