(* ===== verification/Replay_Window.thy ===== *)
theory Replay_Window
  imports Shawn_Prelude
begin

text \<open>
  The contract of an anti-replay filter, independent of how it is implemented: the set of
  sequence numbers accepted so far decides whether another one is fresh.  A number is fresh when
  it was not accepted before and is less than 64 behind every accepted one.
\<close>

definition fresh_seq :: "nat set \<Rightarrow> nat \<Rightarrow> bool" where
  "fresh_seq A q \<longleftrightarrow> q \<notin> A \<and> (\<forall>a \<in> A. a < q + 64)"

text \<open>A receiver that offers every arriving item to the filter and commits the ones it accepts.\<close>

primrec run_filter :: "('s \<Rightarrow> 'n \<Rightarrow> bool) \<Rightarrow> ('s \<Rightarrow> 'n \<Rightarrow> 's) \<Rightarrow> 's \<Rightarrow> 'n list \<Rightarrow> 'n list" where
  "run_filter check commit s [] = []"
| "run_filter check commit s (n # ns) =
     (if check s n then n # run_filter check commit (commit s n) ns else run_filter check commit s ns)"

text \<open>The same receiver over the abstract set.\<close>

primrec spec_filter :: "('n \<Rightarrow> bool) \<Rightarrow> ('n \<Rightarrow> nat) \<Rightarrow> nat set \<Rightarrow> 'n list \<Rightarrow> 'n list" where
  "spec_filter valid seqno A [] = []"
| "spec_filter valid seqno A (n # ns) =
     (if valid n \<and> fresh_seq A (seqno n) then n # spec_filter valid seqno (insert (seqno n) A) ns
      else spec_filter valid seqno A ns)"

locale replay_window =
  fixes check :: "'s \<Rightarrow> 'n \<Rightarrow> bool"
    and commit :: "'s \<Rightarrow> 'n \<Rightarrow> 's"
    and valid :: "'n \<Rightarrow> bool"
    and seqno :: "'n \<Rightarrow> nat"
    and accepted :: "'s \<Rightarrow> nat set \<Rightarrow> bool"
  assumes check_iff: "accepted s A \<Longrightarrow> check s n \<longleftrightarrow> valid n \<and> fresh_seq A (seqno n)"
    and accepted_commit: "accepted s A \<Longrightarrow> check s n \<Longrightarrow> accepted (commit s n) (insert (seqno n) A)"
begin

lemma run_refines: "accepted s A \<Longrightarrow> run_filter check commit s ns = spec_filter valid seqno A ns"
proof (induction ns arbitrary: s A)
  case (Cons n ns)
  then show ?case using check_iff [of s A n] accepted_commit [of s A n] by auto
qed simp

lemma committed_not_rechecked:
  "accepted s A \<Longrightarrow> check s n \<Longrightarrow> seqno n' = seqno n \<Longrightarrow> \<not> check (commit s n) n'"
  using check_iff [of "commit s n" "insert (seqno n) A" n'] accepted_commit [of s A n]
  by (simp add: fresh_seq_def)

end

lemma spec_filter_fresh: "n \<in> set (spec_filter valid seqno A ns) \<Longrightarrow> seqno n \<notin> A"
  by (induction ns arbitrary: A) (auto simp: fresh_seq_def split: if_splits)

lemma spec_filter_distinct: "distinct (map seqno (spec_filter valid seqno A ns))"
proof (induction ns arbitrary: A)
  case (Cons n ns)
  have "seqno n \<notin> seqno ` set (spec_filter valid seqno (insert (seqno n) A) ns)"
    using spec_filter_fresh [of _ valid seqno "insert (seqno n) A" ns] by force
  then show ?case using Cons.IH by simp
qed simp

end
