(* ===== verification/Session_State.thy ===== *)
theory Session_State
  imports Aead Replay_Window
begin

text \<open>
  The session manager (session_manager.rs) without its handshakes: the state, wiping, nonces, the
  replay window, packet encryption and decryption, and the key integrity check.  An operation that
  may call the host runs on the pair of the session and the host; output buffers are arguments and
  come back in the result.
\<close>

record pending_authentication =
  pa_digest :: bytes
  pa_peer_identity :: bytes
  pa_confirmation_key :: bytes

record 'dk session_manager =
  ml_kem_dk :: "'dk option"
  x25519_sk :: "bytes option"
  tx_key :: "bytes option"
  rx_key :: "bytes option"
  tx_key_checksum :: u32
  rx_key_checksum :: u32
  is_established :: bool
  tx_counter :: u64
  rx_counter :: u64
  rx_window :: u64
  pending_auth :: "pending_authentication option"

type_synonym ('dk, 'a) session_prog = "('dk session_manager \<times> crypto_host, 'a) prog"

definition session_new :: "'dk session_manager" where
  "session_new = \<lparr>ml_kem_dk = None, x25519_sk = None, tx_key = None, rx_key = None,
     tx_key_checksum = 0, rx_key_checksum = 0, is_established = False, tx_counter = 0,
     rx_counter = 0, rx_window = 0, pending_auth = None\<rparr>"

subsection \<open>Nonces and the replay window\<close>

definition get_next_tx_nonce :: "'dk session_manager \<Rightarrow> bytes \<Rightarrow> (crypto_error + unit) \<times> bytes \<times> 'dk session_manager" where
  "get_next_tx_nonce s nonce =
     (if tx_counter s = - 1 then (Err InvalidState, nonce, s)
      else
        let nonce' = le_bytes 8 (tx_counter s) @ zeros 4 in
        case checked_add (tx_counter s) 1 of
          None \<Rightarrow> (Err InvalidState, nonce', s)
        | Some c \<Rightarrow> (Ok (), nonce', s\<lparr>tx_counter := c\<rparr>))"

definition nonce_sequence :: "bytes \<Rightarrow> u64" where
  "nonce_sequence nonce = of_le_bytes (take 8 nonce)"

definition check_rx_nonce :: "'dk session_manager \<Rightarrow> bytes \<Rightarrow> crypto_error + unit" where
  "check_rx_nonce s host_nonce =
     (if list_ex (\<lambda>b. b \<noteq> 0) (drop 8 host_nonce) then Err InvalidState
      else
        let sequence = nonce_sequence host_nonce in
        if sequence > rx_counter s then Ok ()
        else
          let offset = rx_counter s - sequence in
          if offset \<ge> 64 \<or> rx_window s AND push_bit (unat offset) 1 \<noteq> 0 then Err InvalidState
          else Ok ())"

definition commit_rx_nonce :: "'dk session_manager \<Rightarrow> bytes \<Rightarrow> 'dk session_manager" where
  "commit_rx_nonce s host_nonce =
     (let sequence = nonce_sequence host_nonce in
      if sequence > rx_counter s then
        let shift = sequence - rx_counter s in
        s\<lparr>rx_window := (if shift \<ge> 64 then 1 else push_bit (unat shift) (rx_window s) OR 1),
          rx_counter := sequence\<rparr>
      else
        let offset = rx_counter s - sequence in
        if offset \<ge> 64 then s
        else s\<lparr>rx_window := rx_window s OR push_bit (unat offset) 1\<rparr>)"

subsection \<open>Packets\<close>

definition encrypt_packet ::
  "('ek, 'dk, 'vk, 'sk) prims \<Rightarrow> bytes \<Rightarrow> bytes \<Rightarrow> bytes \<Rightarrow> bytes \<Rightarrow> bytes \<Rightarrow>
   ('dk, (crypto_error + unit) \<times> bytes \<times> bytes \<times> bytes) session_prog" where
  "encrypt_packet P aad plaintext ciphertext nonce tag =
     bindP getP (\<lambda>s.
       if \<not> is_established s \<or> pending_auth s \<noteq> None \<or> length ciphertext \<noteq> length plaintext
       then ret (Err InvalidState, ciphertext, nonce, tag)
       else if tx_counter s = - 1 then ret (Err InvalidState, ciphertext, nonce, tag)
       else case tx_key s of
         None \<Rightarrow> ret (Err InvalidState, ciphertext, nonce, tag)
       | Some key \<Rightarrow>
           let enc_key = take 32 key; mac_key = drop 32 key;
               pending_nonce = le_bytes 8 (tx_counter s) @ zeros 4
           in bindP (hostP (aead_encrypt P enc_key mac_key pending_nonce aad plaintext ciphertext tag))
               (\<lambda>(result, ciphertext', tag').
                  case result of
                    Inl e \<Rightarrow> ret (Err e, ciphertext', nonce, tag')
                  | Inr _ \<Rightarrow>
                      (case checked_add (tx_counter s) 1 of
                         None \<Rightarrow> ret (Err InvalidState, ciphertext', pending_nonce, tag')
                       | Some c \<Rightarrow>
                           seqP (modP (\<lambda>s. s\<lparr>tx_counter := c\<rparr>))
                                (ret (Ok (), ciphertext', pending_nonce, tag')))))"

definition decrypt_packet ::
  "('ek, 'dk, 'vk, 'sk) prims \<Rightarrow> bytes \<Rightarrow> bytes \<Rightarrow> bytes \<Rightarrow> bytes \<Rightarrow> bytes \<Rightarrow>
   ('dk, (crypto_error + unit) \<times> bytes) session_prog" where
  "decrypt_packet P aad ciphertext nonce tag plaintext =
     bindP getP (\<lambda>s.
       if \<not> is_established s \<or> pending_auth s \<noteq> None \<or> length plaintext \<noteq> length ciphertext
       then ret (Err InvalidState, plaintext)
       else case check_rx_nonce s nonce of
         Inl e \<Rightarrow> ret (Err e, plaintext)
       | Inr _ \<Rightarrow>
           (case rx_key s of
              None \<Rightarrow> ret (Err InvalidState, plaintext)
            | Some key \<Rightarrow>
                let enc_key = take 32 key; mac_key = drop 32 key in
                bindP (hostP (aead_decrypt P enc_key mac_key nonce aad ciphertext tag plaintext))
                 (\<lambda>(result, plaintext').
                    case result of
                      Inl e \<Rightarrow> ret (Err e, plaintext')
                    | Inr _ \<Rightarrow>
                        seqP (modP (\<lambda>s. commit_rx_nonce s nonce)) (ret (Ok (), plaintext')))))"

subsection \<open>Key integrity\<close>

primrec key_checksum_loop :: "bytes \<Rightarrow> nat \<Rightarrow> u32 \<Rightarrow> u32" where
  "key_checksum_loop [] index checksum = checksum"
| "key_checksum_loop (b # bs) index checksum =
     (let checksum' = checksum XOR push_bit ((index mod 4) * 8) (ucast b) in
      key_checksum_loop bs (index + 1) (word_rotl 5 checksum' XOR 0x9E3779B9))"

definition key_checksum :: "bytes \<Rightarrow> u32" where
  "key_checksum key = key_checksum_loop key 0 0"

definition verify_key_integrity :: "'dk session_manager \<Rightarrow> crypto_error + unit" where
  "verify_key_integrity s =
     (if \<not> is_established s then Err InvalidState
      else case tx_key s of
        None \<Rightarrow> Err InvalidState
      | Some tx \<Rightarrow>
          (case rx_key s of
             None \<Rightarrow> Err InvalidState
           | Some rx \<Rightarrow>
               let tx_difference = key_checksum tx XOR tx_key_checksum s;
                   rx_difference = key_checksum rx XOR rx_key_checksum s
               in if tx_difference OR rx_difference \<noteq> 0 then Err InvalidState else Ok ()))"

subsection \<open>Wiping\<close>

definition wipe_pending_authentication :: "('dk, unit) session_prog" where
  "wipe_pending_authentication =
     bindP getP (\<lambda>s.
       seqP (case pending_auth s of
               None \<Rightarrow> ret ()
             | Some pending \<Rightarrow>
                 let pending' = pending\<lparr>pa_digest := secure_zeroize (pa_digest pending),
                       pa_peer_identity := secure_zeroize (pa_peer_identity pending),
                       pa_confirmation_key := secure_zeroize (pa_confirmation_key pending)\<rparr>
                 in seqP (modP (\<lambda>s. s\<lparr>pending_auth := Some pending'\<rparr>))
                         (hostP (secure_cache_flush (pa_confirmation_key pending'))))
            (modP (\<lambda>s. s\<lparr>pending_auth := None\<rparr>)))"

definition zeroize_session :: "('dk, unit) session_prog" where
  "zeroize_session =
     seqP (modP (\<lambda>s. s\<lparr>ml_kem_dk := None, x25519_sk := None\<rparr>))
    (bindP getP (\<lambda>s. seqP
       (case tx_key s of
          None \<Rightarrow> ret ()
        | Some key \<Rightarrow> seqP (modP (\<lambda>s. s\<lparr>tx_key := Some (secure_zeroize key)\<rparr>))
                            (hostP (secure_cache_flush (secure_zeroize key))))
    (seqP
       (case rx_key s of
          None \<Rightarrow> ret ()
        | Some key \<Rightarrow> seqP (modP (\<lambda>s. s\<lparr>rx_key := Some (secure_zeroize key)\<rparr>))
                            (hostP (secure_cache_flush (secure_zeroize key))))
    (seqP (modP (\<lambda>s. s\<lparr>tx_key := None, rx_key := None, tx_key_checksum := 0, rx_key_checksum := 0,
                    is_established := False, tx_counter := 0, rx_counter := 0, rx_window := 0\<rparr>))
          wipe_pending_authentication))))"

definition session_drop :: "('dk, unit) session_prog" where
  "session_drop = zeroize_session"

text \<open>An established session with all-zero keys, for evaluation on concrete inputs.\<close>

definition demo_session :: "bytes session_manager" where
  "demo_session = session_new\<lparr>tx_key := Some (zeros 64), rx_key := Some (zeros 64),
     tx_key_checksum := key_checksum (zeros 64), rx_key_checksum := key_checksum (zeros 64),
     is_established := True\<rparr>"

end
