(* ===== verification/Session_Keys.thy ===== *)
theory Session_Keys
  imports Session_State
begin

text \<open>
  Lemmas on the stored keys of the session manager: the checksum that guards them against memory
  faults, and the wiping of the session.
\<close>

subsection \<open>The key checksum\<close>

lemma xor_right_inj: "(a XOR k :: 'w::len word) = b XOR k \<longleftrightarrow> a = b"
proof
  assume "a XOR k = b XOR k"
  then have "(a XOR k) XOR k = (b XOR k) XOR k" by simp
  then show "a = b" by (simp add: xor.assoc)
qed simp

lemma word_rotl_inj: "word_rotl n a = word_rotl n b \<longleftrightarrow> a = b"
  by (metis word_rot_lr)

lemma shifted_byte_inj:
  assumes "push_bit (i mod 4 * 8) (ucast (a :: u8) :: u32) = push_bit (i mod 4 * 8) (ucast b)"
  shows "a = b"
proof (rule bit_word_eqI)
  fix n assume n: "n < LENGTH(8)"
  have "i mod 4 < 4" by simp
  then have "i mod 4 * 8 + n < 32" using n by simp
  moreover have "bit (push_bit (i mod 4 * 8) (ucast a :: u32)) (i mod 4 * 8 + n) \<longleftrightarrow>
      bit (push_bit (i mod 4 * 8) (ucast b :: u32)) (i mod 4 * 8 + n)"
    using assms by simp
  ultimately show "bit a n = bit b n" using n by (simp add: bit_simps)
qed

lemma key_checksum_loop_inj:
  "key_checksum_loop bs i a = key_checksum_loop bs i b \<longleftrightarrow> a = b"
  by (induction bs arbitrary: i a b) (simp_all add: Let_def xor_right_inj word_rotl_inj)

lemma key_checksum_loop_byte:
  assumes "b \<noteq> b'"
  shows "key_checksum_loop (xs @ b # ys) i c \<noteq> key_checksum_loop (xs @ b' # ys) i c"
proof (induction xs arbitrary: i c)
  case Nil
  have "push_bit (i mod 4 * 8) (ucast b :: u32) \<noteq> push_bit (i mod 4 * 8) (ucast b')"
    using shifted_byte_inj assms by blast
  then show ?case
    by (simp add: Let_def key_checksum_loop_inj xor_right_inj word_rotl_inj xor.commute [of c])
next
  case (Cons x xs)
  then show ?case by (simp add: Let_def)
qed

subsection \<open>Wiping\<close>

definition wipe_flushes :: "'dk session_manager \<Rightarrow> bytes list" where
  "wipe_flushes s =
     (case tx_key s of None \<Rightarrow> [] | Some k \<Rightarrow> [zeros (length k)]) @
     (case rx_key s of None \<Rightarrow> [] | Some k \<Rightarrow> [zeros (length k)]) @
     (case pending_auth s of None \<Rightarrow> [] | Some p \<Rightarrow> [zeros (length (pa_confirmation_key p))])"

definition session_wiped_host :: "'dk session_manager \<Rightarrow> crypto_host \<Rightarrow> crypto_host" where
  "session_wiped_host s h = fold flushed (wipe_flushes s) h"

lemma fold_flushed_cb [simp]: "crypto_flush_cb (fold flushed bs h) = crypto_flush_cb h"
  by (induction bs arbitrary: h) simp_all

lemma session_wiped_host_cb [simp]: "crypto_flush_cb (session_wiped_host s h) = crypto_flush_cb h"
  by (simp add: session_wiped_host_def)

lemma fold_flushed_calls:
  "crypto_calls (fold flushed bs h) =
     crypto_calls h @ map (\<lambda>b. (crypto_flush_cb h, CryptoCacheFlush b)) (filter (\<lambda>b. b \<noteq> []) bs)"
  by (induction bs arbitrary: h) (auto simp: flushed_def)

lemma zeroize_session_eval:
  assumes "crypto_flush_cb h \<noteq> 0"
  shows "zeroize_session (s, h) = Ret () (session_new, session_wiped_host s h)"
  using assms
  by (cases "tx_key s"; cases "rx_key s"; cases "pending_auth s")
     (simp_all add: zeroize_session_def wipe_pending_authentication_def getP_def modP_def hostP_def ret_def
       Let_def session_new_def session_wiped_host_def wipe_flushes_def secure_zeroize_def)

subsection \<open>Properties\<close>

text \<open>
  C35: The checksums detect any corruption of one key byte.  If the stored keys of an established
  session match their checksums, replacing one byte at any position of the transmit or of the
  receive key by any other value makes \<open>verify_key_integrity\<close> fail, while the uncorrupted keys pass.
\<close>

theorem key_integrity_detects_byte_fault:
  assumes "is_established s" "tx_key s = Some tx" "rx_key s = Some rx"
    and "tx_key_checksum s = key_checksum tx" "rx_key_checksum s = key_checksum rx"
    and "i < length tx" "b \<noteq> tx ! i" "j < length rx" "c \<noteq> rx ! j"
  shows "verify_key_integrity s = Ok () \<and>
    verify_key_integrity (s\<lparr>tx_key := Some (tx[i := b])\<rparr>) = Err InvalidState \<and>
    verify_key_integrity (s\<lparr>rx_key := Some (rx[j := c])\<rparr>) = Err InvalidState"
proof -
  have changed: "key_checksum (k[i := b]) \<noteq> key_checksum k" if "i < length k" "b \<noteq> k ! i" for k :: bytes and i b
    using key_checksum_loop_byte [OF that(2), of "take i k" "drop (Suc i) k"] that(1)
    by (simp add: key_checksum_def upd_conv_take_nth_drop flip: id_take_nth_drop)
  have "x XOR y \<noteq> 0" if "x \<noteq> y" for x y :: u32
    using that xor_right_inj [of x y y] by simp
  then show ?thesis
    using changed [OF assms(6,7)] changed [OF assms(8,9)] assms(1-5)
    by (simp add: verify_key_integrity_def Let_def or_eq_0_iff)
qed

theorem key_integrity_detects_byte_fault_witness:
  "verify_key_integrity demo_session = Ok () \<and>
   verify_key_integrity (demo_session\<lparr>tx_key := Some ((zeros 64)[3 := 1])\<rparr>) = Err InvalidState \<and>
   verify_key_integrity (demo_session\<lparr>rx_key := Some ((zeros 64)[63 := 255])\<rparr>) = Err InvalidState"
  by (rule key_integrity_detects_byte_fault) (simp_all add: demo_session_def session_new_def zeros_def)

text \<open>
  C36: Wiping a session erases everything.  With a cache-flush callback registered,
  \<open>zeroize_session\<close>, which is also what dropping the session runs, returns with the session equal to a
  newly created one, and the only callbacks it makes are flushes of the key buffers, each after its
  bytes became zero.
\<close>

theorem zeroize_session_erases:
  assumes "crypto_flush_cb h \<noteq> 0"
  shows "\<exists>h' bufs. session_drop (s, h) = Ret () (session_new, h') \<and>
    crypto_calls h' = crypto_calls h @ map (\<lambda>b. (crypto_flush_cb h, CryptoCacheFlush b)) bufs \<and>
    list_all (\<lambda>b. b = zeros (length b)) bufs \<and>
    (\<lambda>k. zeros (length k)) ` (set_option (tx_key s) \<union> set_option (rx_key s) - {[]}) \<subseteq> set bufs"
proof (intro exI conjI)
  show "session_drop (s, h) = Ret () (session_new, session_wiped_host s h)"
    using assms by (simp add: session_drop_def zeroize_session_eval)
  show "crypto_calls (session_wiped_host s h) = crypto_calls h @
      map (\<lambda>b. (crypto_flush_cb h, CryptoCacheFlush b)) (filter (\<lambda>b. b \<noteq> []) (wipe_flushes s))"
    by (simp add: session_wiped_host_def fold_flushed_calls)
  show "list_all (\<lambda>b. b = zeros (length b)) (filter (\<lambda>b. b \<noteq> []) (wipe_flushes s))"
    by (auto simp: list_all_iff wipe_flushes_def split: option.splits)
  show "(\<lambda>k. zeros (length k)) ` (set_option (tx_key s) \<union> set_option (rx_key s) - {[]})
      \<subseteq> set (filter (\<lambda>b. b \<noteq> []) (wipe_flushes s))"
    by (auto simp: wipe_flushes_def zeros_def)
qed

theorem zeroize_session_erases_witness:
  "\<exists>h' bufs. session_drop (demo_session, demo_crypto_host) = Ret () (session_new, h') \<and>
    crypto_calls h' = crypto_calls demo_crypto_host @
      map (\<lambda>b. (crypto_flush_cb demo_crypto_host, CryptoCacheFlush b)) bufs \<and>
    list_all (\<lambda>b. b = zeros (length b)) bufs \<and>
    (\<lambda>k. zeros (length k)) ` (set_option (tx_key demo_session) \<union> set_option (rx_key demo_session) - {[]})
      \<subseteq> set bufs"
  by (rule zeroize_session_erases [OF demo_crypto_flush])

text \<open>
  What happens without the callback.  If no cache-flush callback is registered when a session
  with keys is wiped, the call never returns: the transmit key has been overwritten with zeros, but
  the receive key and the pending confirmation key are still in memory unchanged.
\<close>

theorem zeroize_session_without_flush_halts:
  assumes "crypto_flush_cb h = 0" "tx_key s = Some k" "k \<noteq> []"
  shows "zeroize_session (s, h) =
    Halt (s\<lparr>ml_kem_dk := None, x25519_sk := None, tx_key := Some (zeros (length k))\<rparr>,
          crypto_invoke_panic_hook h)"
proof -
  have "secure_zeroize k \<noteq> []" using assms(3) by (simp add: secure_zeroize_def zeros_def)
  then show ?thesis using assms
    by (simp add: zeroize_session_def getP_def modP_def hostP_def ret_def secure_cache_flush_null)
       (simp add: secure_zeroize_def)
qed

theorem zeroize_session_without_flush_halts_witness:
  "zeroize_session (demo_session, demo_crypto_host\<lparr>crypto_flush_cb := 0\<rparr>) =
    Halt (demo_session\<lparr>ml_kem_dk := None, x25519_sk := None, tx_key := Some (zeros (length (zeros 64)))\<rparr>,
          crypto_invoke_panic_hook (demo_crypto_host\<lparr>crypto_flush_cb := 0\<rparr>))"
  by (rule zeroize_session_without_flush_halts) (simp_all add: demo_session_def zeros_def)

end
