(* ===== verification/Hybrid_Kdf.thy ===== *)
theory Hybrid_Kdf
  imports Crypto_Prims
begin

text \<open>
  The hybrid key derivation (hybrid_kdf.rs): HKDF-SHA384 over the concatenated post-quantum and
  classical secrets.  The two secrets are passed by mutable reference; they come back in the
  result as the function leaves them.
\<close>

definition PQ_SHARED_SECRET_SIZE :: nat where
  "PQ_SHARED_SECRET_SIZE = 32"

definition CLASSICAL_SHARED_SECRET_SIZE :: nat where
  "CLASSICAL_SHARED_SECRET_SIZE = 32"

definition HYBRID_OUTPUT_SIZE :: nat where
  "HYBRID_OUTPUT_SIZE = 128"

definition CONFIRMATION_OUTPUT_SIZE :: nat where
  "CONFIRMATION_OUTPUT_SIZE = 96"

definition derive_hybrid_key ::
  "('ek, 'dk, 'vk, 'sk) prims \<Rightarrow> bytes \<Rightarrow> bytes \<Rightarrow> bytes \<Rightarrow> bytes \<Rightarrow>
   (crypto_host, (crypto_error + bytes) \<times> bytes \<times> bytes) prog" where
  "derive_hybrid_key P pq_secret classical_secret salt info =
     (let combined_entropy = pq_secret @ classical_secret;
          prk = hkdf_extract P salt combined_entropy;
          res = hkdf_expand P prk info HYBRID_OUTPUT_SIZE;
          pq_secret' = secure_zeroize pq_secret;
          classical_secret' = secure_zeroize classical_secret
      in case res of
           None \<Rightarrow> ret (Err HkdfError, pq_secret', classical_secret')
         | Some derived_key \<Rightarrow>
             seqP (secure_cache_flush derived_key)
                  (ret (Ok derived_key, pq_secret', classical_secret')))"

definition KEY_CONFIRMATION_INFO_LABEL :: bytes where
  "KEY_CONFIRMATION_INFO_LABEL = ascii ''ShawnCore-auth-v2 key confirmation''"

definition confirmation_info :: "bytes \<Rightarrow> bytes" where
  "confirmation_info inner_transcript = KEY_CONFIRMATION_INFO_LABEL @ [0] @ inner_transcript"

definition derive_hybrid_key_with_confirmation ::
  "('ek, 'dk, 'vk, 'sk) prims \<Rightarrow> bytes \<Rightarrow> bytes \<Rightarrow> bytes \<Rightarrow> bytes \<Rightarrow> bytes \<Rightarrow>
   (crypto_host, (crypto_error + (bytes \<times> bytes)) \<times> bytes \<times> bytes) prog" where
  "derive_hybrid_key_with_confirmation P pq_secret classical_secret salt info conf_info =
     (let combined_entropy = pq_secret @ classical_secret;
          prk = hkdf_extract P salt combined_entropy;
          session_res = hkdf_expand P prk info HYBRID_OUTPUT_SIZE;
          confirmation_res = hkdf_expand P prk conf_info CONFIRMATION_OUTPUT_SIZE;
          pq_secret' = secure_zeroize pq_secret;
          classical_secret' = secure_zeroize classical_secret
      in case (session_res, confirmation_res) of
           (Some derived_key, Some confirmation) \<Rightarrow>
             seqP (secure_cache_flush derived_key)
            (seqP (secure_cache_flush confirmation)
                  (ret (Ok (derived_key, confirmation), pq_secret', classical_secret')))
         | _ \<Rightarrow> ret (Err HkdfError, pq_secret', classical_secret'))"

subsection \<open>Lemmas\<close>

text \<open>The two expansions, as functions of the inputs.\<close>

definition hybrid_key :: "('ek, 'dk, 'vk, 'sk) prims \<Rightarrow> bytes \<Rightarrow> bytes \<Rightarrow> bytes \<Rightarrow> bytes \<Rightarrow> bytes" where
  "hybrid_key P pq cl salt info = the (hkdf_expand P (hkdf_extract P salt (pq @ cl)) info 128)"

definition hybrid_confirmation :: "('ek, 'dk, 'vk, 'sk) prims \<Rightarrow> bytes \<Rightarrow> bytes \<Rightarrow> bytes \<Rightarrow> bytes \<Rightarrow> bytes" where
  "hybrid_confirmation P pq cl salt info =
     the (hkdf_expand P (hkdf_extract P salt (pq @ cl)) (confirmation_info info) 96)"

lemma hkdf_okD:
  "hkdf_ok P \<Longrightarrow> n \<le> 255 * 48 \<Longrightarrow> \<exists>out. hkdf_expand P prk info n = Some out \<and> length out = n"
  unfolding hkdf_ok_def by blast

lemma length_hybrid_key [simp]: "hkdf_ok P \<Longrightarrow> length (hybrid_key P pq cl salt info) = 128"
  using hkdf_okD [of P 128 "hkdf_extract P salt (pq @ cl)" info] by (auto simp: hybrid_key_def)

lemma length_hybrid_confirmation [simp]:
  "hkdf_ok P \<Longrightarrow> length (hybrid_confirmation P pq cl salt info) = 96"
  using hkdf_okD [of P 96 "hkdf_extract P salt (pq @ cl)" "confirmation_info info"]
  by (auto simp: hybrid_confirmation_def)

lemma derive_hybrid_key_cases:
  assumes "crypto_flush_cb h \<noteq> 0"
  shows "derive_hybrid_key P pq cl salt info h =
    (case hkdf_expand P (hkdf_extract P salt (pq @ cl)) info HYBRID_OUTPUT_SIZE of
       None \<Rightarrow> Ret (Err HkdfError, secure_zeroize pq, secure_zeroize cl) h
     | Some k \<Rightarrow> Ret (Ok k, secure_zeroize pq, secure_zeroize cl) (flushed k h))"
  using assms by (simp add: derive_hybrid_key_def Let_def ret_def split: option.splits)

lemma derive_hybrid_key_eval:
  assumes "hkdf_ok P" "crypto_flush_cb h \<noteq> 0"
  shows "derive_hybrid_key P pq cl salt info h =
    Ret (Ok (hybrid_key P pq cl salt info), secure_zeroize pq, secure_zeroize cl)
        (flushed (hybrid_key P pq cl salt info) h)"
  using hkdf_okD [OF assms(1), of 128 "hkdf_extract P salt (pq @ cl)" info] assms(2)
  by (auto simp: derive_hybrid_key_def hybrid_key_def HYBRID_OUTPUT_SIZE_def Let_def ret_def)

lemma derive_with_confirmation_eval:
  assumes "hkdf_ok P" "crypto_flush_cb h \<noteq> 0"
  shows "derive_hybrid_key_with_confirmation P pq cl salt info (confirmation_info info) h =
    Ret (Ok (hybrid_key P pq cl salt info, hybrid_confirmation P pq cl salt info),
         secure_zeroize pq, secure_zeroize cl)
        (flushed (hybrid_confirmation P pq cl salt info) (flushed (hybrid_key P pq cl salt info) h))"
proof -
  obtain k where k: "hkdf_expand P (hkdf_extract P salt (pq @ cl)) info 128 = Some k"
    using hkdf_okD [OF assms(1), of 128] by auto
  obtain c where c: "hkdf_expand P (hkdf_extract P salt (pq @ cl)) (confirmation_info info) 96 = Some c"
    using hkdf_okD [OF assms(1), of 96] by auto
  show ?thesis using k c assms(2)
    by (simp add: derive_hybrid_key_with_confirmation_def hybrid_key_def hybrid_confirmation_def
        HYBRID_OUTPUT_SIZE_def CONFIRMATION_OUTPUT_SIZE_def Let_def ret_def)
qed

subsection \<open>Properties\<close>

text \<open>
  The derivation with key confirmation gives the same session key as the plain derivation.
  With an HKDF that behaves as documented both functions succeed from the same inputs, with the
  same 128-byte session key, the confirmation material has 96 bytes, and both functions leave the
  two input secrets wiped.
\<close>

theorem derive_with_confirmation_same_key:
  assumes "hkdf_ok P" "crypto_flush_cb h \<noteq> 0"
  shows "\<exists>k c h1 h2.
    derive_hybrid_key P pq cl salt info h = Ret (Ok k, zeros (length pq), zeros (length cl)) h1 \<and>
    derive_hybrid_key_with_confirmation P pq cl salt info conf_info h =
      Ret (Ok (k, c), zeros (length pq), zeros (length cl)) h2 \<and>
    length k = HYBRID_OUTPUT_SIZE \<and> length c = CONFIRMATION_OUTPUT_SIZE"
proof -
  obtain k where k: "hkdf_expand P (hkdf_extract P salt (pq @ cl)) info 128 = Some k" "length k = 128"
    using hkdf_okD [OF assms(1), of 128] by auto
  obtain c where c: "hkdf_expand P (hkdf_extract P salt (pq @ cl)) conf_info 96 = Some c" "length c = 96"
    using hkdf_okD [OF assms(1), of 96] by auto
  show ?thesis using k c assms(2)
    by (simp add: derive_hybrid_key_def derive_hybrid_key_with_confirmation_def secure_zeroize_def
        HYBRID_OUTPUT_SIZE_def CONFIRMATION_OUTPUT_SIZE_def Let_def ret_def)
qed

theorem derive_with_confirmation_same_key_witness:
  "\<exists>k c h1 h2.
    derive_hybrid_key toy [1] [2] [] [3] demo_crypto_host = Ret (Ok k, zeros 1, zeros 1) h1 \<and>
    derive_hybrid_key_with_confirmation toy [1] [2] [] [3] [4] demo_crypto_host =
      Ret (Ok (k, c), zeros 1, zeros 1) h2 \<and>
    length k = HYBRID_OUTPUT_SIZE \<and> length c = CONFIRMATION_OUTPUT_SIZE"
  using derive_with_confirmation_same_key [OF toy_ok(3) demo_crypto_flush, of "[1]" "[2]" "[]" "[3]" "[4]"]
  by simp

end
