(* ===== verification/Session_Handshake.thy ===== *)
theory Session_Handshake
  imports Session_Keys Hybrid_Kdf
begin

text \<open>
  The unauthenticated hybrid handshake of the session manager (session_manager.rs): the
  key-generating side runs \<open>initiate_handshake\<close> and \<open>finalize_handshake\<close>, the encapsulating side
  \<open>encapsulate_for_peer\<close>.  \<open>encapsulate_inner\<close> is shared with the authenticated handshake.
\<close>

definition handshake_transcript :: "('ek, 'dk, 'vk, 'sk) prims \<Rightarrow> bytes \<Rightarrow> bytes \<Rightarrow> bytes \<Rightarrow> bytes" where
  "handshake_transcript P ciphertext sender_public_key application_info =
     sha384_digest P (ascii ''ShawnCore-v1.3-hybrid-handshake'' @ ciphertext @ sender_public_key @
       application_info)"

text \<open>The entropy sanity check both sides begin with.\<close>

definition entropy_degenerate :: "bytes \<Rightarrow> bool" where
  "entropy_degenerate entropy \<longleftrightarrow> list_all (\<lambda>b. b = 0) entropy \<or> list_all (\<lambda>b. b = 0xFF) entropy"

text \<open>How both sides replace the session by one with new keys.\<close>

definition install_keys :: "bytes \<Rightarrow> bytes \<Rightarrow> ('dk, unit) session_prog" where
  "install_keys tx rx =
     seqP zeroize_session
       (modP (\<lambda>s. s\<lparr>tx_key := Some tx, rx_key := Some rx, tx_key_checksum := key_checksum tx,
          rx_key_checksum := key_checksum rx, is_established := True, ml_kem_dk := None,
          x25519_sk := None\<rparr>))"

definition initiate_handshake ::
  "('ek, 'dk, 'vk, 'sk) prims \<Rightarrow> bytes \<Rightarrow> ('dk, crypto_error + ('ek \<times> bytes)) session_prog" where
  "initiate_handshake P entropy =
     (if entropy_degenerate entropy then ret (Err InvalidState)
      else
        let ml_kem_entropy = take 64 entropy; x25519_entropy = take 32 (drop 64 entropy) in
        case ml_kem_keygen P ml_kem_entropy of
          Inl e \<Rightarrow> ret (Err e)
        | Inr (pk, dk) \<Rightarrow>
            (case x25519_keygen P x25519_entropy of (x25519_pk, sk) \<Rightarrow>
               seqP zeroize_session
              (seqP (modP (\<lambda>s. s\<lparr>ml_kem_dk := Some dk, x25519_sk := Some sk\<rparr>))
                    (ret (Ok (pk, x25519_pk))))))"

definition finalize_handshake ::
  "('ek, 'dk, 'vk, 'sk) prims \<Rightarrow> bytes \<Rightarrow> bytes \<Rightarrow> bytes \<Rightarrow> bytes \<Rightarrow> ('dk, crypto_error + unit) session_prog" where
  "finalize_handshake P peer_x25519_pk ml_kem_ct salt info =
     bindP getP (\<lambda>s. case ml_kem_dk s of
       None \<Rightarrow> ret (Err InvalidState)
     | Some dk \<Rightarrow> (case x25519_sk s of
         None \<Rightarrow> ret (Err InvalidState)
       | Some sk \<Rightarrow>
           bindP (hostP (ml_kem_decapsulate P dk ml_kem_ct)) (\<lambda>r. case r of
             Inl e \<Rightarrow> seqP zeroize_session (ret (Err e))
           | Inr pq_secret \<Rightarrow>
               bindP (hostP (x25519_diffie_hellman P sk peer_x25519_pk)) (\<lambda>r. case r of
                 Inl e \<Rightarrow> seqP zeroize_session (ret (Err e))
               | Inr classical_secret \<Rightarrow>
                   let transcript = handshake_transcript P ml_kem_ct peer_x25519_pk info in
                   bindP (hostP (derive_hybrid_key P pq_secret classical_secret salt transcript))
                    (\<lambda>(r, _, _). case r of
                       Inl e \<Rightarrow> seqP zeroize_session (ret (Err e))
                     | Inr hybrid_key_128 \<Rightarrow>
                         let tx = take 32 hybrid_key_128 @ drop 96 hybrid_key_128;
                             rx = take 64 (drop 32 hybrid_key_128)
                         in seqP (install_keys tx rx) (ret (Ok ())))))))"

definition encapsulate_inner ::
  "('ek, 'dk, 'vk, 'sk) prims \<Rightarrow> 'ek \<Rightarrow> bytes \<Rightarrow> bytes \<Rightarrow> bytes \<Rightarrow> bytes \<Rightarrow> bytes \<Rightarrow> bytes \<Rightarrow> bool \<Rightarrow>
   ('dk, (crypto_error + bytes option) \<times> bytes \<times> bytes) session_prog" where
  "encapsulate_inner P peer_ml_kem_pk peer_x25519_pk entropy salt info out_ct out_pk want_confirmation =
     (if entropy_degenerate entropy then ret (Err InvalidState, out_ct, out_pk)
      else
        let ml_kem_entropy = take 32 entropy; x25519_entropy = take 32 (drop 32 entropy) in
        bindP (hostP (ml_kem_encapsulate P peer_ml_kem_pk ml_kem_entropy)) (\<lambda>r. case r of
          Inl e \<Rightarrow> ret (Err e, out_ct, out_pk)
        | Inr (pq_secret, ct) \<Rightarrow>
            (case x25519_keygen P x25519_entropy of (my_x25519_pk, my_x25519_sk) \<Rightarrow>
            bindP (hostP (x25519_diffie_hellman P my_x25519_sk peer_x25519_pk)) (\<lambda>r. case r of
              Inl e \<Rightarrow> ret (Err e, out_ct, out_pk)
            | Inr classical_secret \<Rightarrow>
                let transcript = handshake_transcript P ct my_x25519_pk info in
                bindP
                  (if want_confirmation
                   then bindP (hostP (derive_hybrid_key_with_confirmation P pq_secret classical_secret
                                 salt transcript (confirmation_info transcript)))
                          (\<lambda>(r, _, _). ret (case r of
                             Inl e \<Rightarrow> Err e
                           | Inr (session, material) \<Rightarrow> Ok (session, Some material)))
                   else bindP (hostP (derive_hybrid_key P pq_secret classical_secret salt transcript))
                          (\<lambda>(r, _, _). ret (case r of
                             Inl e \<Rightarrow> Err e
                           | Inr session \<Rightarrow> Ok (session, None))))
                  (\<lambda>r. case r of
                     Inl e \<Rightarrow> ret (Err e, out_ct, out_pk)
                   | Inr (hybrid_key_128, confirmation) \<Rightarrow>
                       let tx = take 64 (drop 32 hybrid_key_128);
                           rx = take 32 hybrid_key_128 @ drop 96 hybrid_key_128
                       in seqP (install_keys tx rx) (ret (Ok confirmation, ct, my_x25519_pk)))))))"

definition encapsulate_for_peer ::
  "('ek, 'dk, 'vk, 'sk) prims \<Rightarrow> 'ek \<Rightarrow> bytes \<Rightarrow> bytes \<Rightarrow> bytes \<Rightarrow> bytes \<Rightarrow> bytes \<Rightarrow> bytes \<Rightarrow>
   ('dk, (crypto_error + unit) \<times> bytes \<times> bytes) session_prog" where
  "encapsulate_for_peer P peer_ml_kem_pk peer_x25519_pk entropy salt info out_ct out_pk =
     bindP (encapsulate_inner P peer_ml_kem_pk peer_x25519_pk entropy salt info out_ct out_pk False)
       (\<lambda>(r, ct, pk). ret (case r of Inl e \<Rightarrow> Err e | Inr _ \<Rightarrow> Ok (), ct, pk))"

subsection \<open>Evaluation\<close>

text \<open>A session that has just got its keys.\<close>

definition keyed_session :: "bytes \<Rightarrow> bytes \<Rightarrow> 'dk session_manager" where
  "keyed_session tx rx = session_new\<lparr>tx_key := Some tx, rx_key := Some rx,
     tx_key_checksum := key_checksum tx, rx_key_checksum := key_checksum rx, is_established := True\<rparr>"

lemma install_keys_eval:
  assumes "crypto_flush_cb h \<noteq> 0"
  shows "install_keys tx rx (s, h) = Ret () (keyed_session tx rx, session_wiped_host s h)"
  using assms by (simp add: install_keys_def zeroize_session_eval modP_def keyed_session_def session_new_def)

lemma keyed_session_fields [simp]:
  "tx_key (keyed_session tx rx) = Some tx" "rx_key (keyed_session tx rx) = Some rx"
  "is_established (keyed_session tx rx)" "pending_auth (keyed_session tx rx) = None"
  "tx_counter (keyed_session tx rx) = 0" "rx_counter (keyed_session tx rx) = 0"
  "rx_window (keyed_session tx rx) = 0" "ml_kem_dk (keyed_session tx rx) = None"
  "x25519_sk (keyed_session tx rx) = None"
  by (simp_all add: keyed_session_def session_new_def)

text \<open>The secrets two honest sides share, as a function of the encapsulating side's choices.\<close>

definition dh_admissible :: "('ek, 'dk, 'vk, 'sk) prims \<Rightarrow> bytes \<Rightarrow> bytes \<Rightarrow> bool" where
  "dh_admissible P sk pk \<longleftrightarrow> \<not> list_all (\<lambda>b. b = 0) pk \<and> x_contributory P (x_dh P sk pk)"

lemma x25519_dh_eval:
  assumes "crypto_flush_cb h \<noteq> 0"
  shows "x25519_diffie_hellman P sk pk h =
    (if dh_admissible P sk pk then Ret (Ok (x_dh P sk pk)) (flushed (x_dh P sk pk) h)
     else Ret (Err InvalidState) h)"
  using assms by (auto simp: x25519_diffie_hellman_def dh_admissible_def ret_def Let_def)

lemma ml_kem_encapsulate_eval:
  "crypto_flush_cb h \<noteq> 0 \<Longrightarrow> ml_kem_encapsulate P ek m h =
    Ret (Ok (snd (kem_encapsulate P ek m), fst (kem_encapsulate P ek m)))
        (flushed (snd (kem_encapsulate P ek m)) h)"
  by (simp add: ml_kem_encapsulate_def ret_def split: prod.splits)

lemma ml_kem_decapsulate_eval:
  "crypto_flush_cb h \<noteq> 0 \<Longrightarrow> ml_kem_decapsulate P dk ct h =
    Ret (Ok (kem_decapsulate P dk ct)) (flushed (kem_decapsulate P dk ct) h)"
  by (simp add: ml_kem_decapsulate_def ret_def Let_def)

lemmas handshake_evals = x25519_dh_eval ml_kem_encapsulate_eval ml_kem_decapsulate_eval
  derive_hybrid_key_eval derive_with_confirmation_eval install_keys_eval zeroize_session_eval

lemmas prog_defs = getP_def modP_def hostP_def ret_def

definition pending_session :: "'dk \<Rightarrow> bytes \<Rightarrow> 'dk session_manager" where
  "pending_session dk sk = session_new\<lparr>ml_kem_dk := Some dk, x25519_sk := Some sk\<rparr>"

lemma pending_session_fields [simp]:
  "ml_kem_dk (pending_session dk sk) = Some dk" "x25519_sk (pending_session dk sk) = Some sk"
  by (simp_all add: pending_session_def)

lemma initiate_handshake_eval:
  assumes "\<not> entropy_degenerate e" "crypto_flush_cb h \<noteq> 0"
  shows "initiate_handshake P e (s, h) =
    (let dk = kem_from_seed P (take 64 e); x = take 32 (drop 64 e) in
     Ret (Ok (kem_encapsulation_key P dk, x_public P x))
         (pending_session dk (x_secret_bytes P x), session_wiped_host s h))"
  using assms
  by (simp add: initiate_handshake_def ml_kem_keygen_def x25519_keygen_def Let_def prog_defs
      zeroize_session_eval pending_session_def)

text \<open>The two directions of a 128-byte hybrid key.\<close>

definition outer_half :: "bytes \<Rightarrow> bytes" where
  "outer_half k = take 32 k @ drop 96 k"

definition inner_half :: "bytes \<Rightarrow> bytes" where
  "inner_half k = take 64 (drop 32 k)"

lemma half_lengths [simp]:
  "length k = 128 \<Longrightarrow> length (outer_half k) = 64" "length k = 128 \<Longrightarrow> length (inner_half k) = 64"
  by (simp_all add: outer_half_def inner_half_def)

text \<open>The values an honest encapsulation sends and derives.\<close>

definition enc_ct :: "('ek, 'dk, 'vk, 'sk) prims \<Rightarrow> 'ek \<Rightarrow> bytes \<Rightarrow> bytes" where
  "enc_ct P ek e = fst (kem_encapsulate P ek (take 32 e))"

definition enc_pk :: "('ek, 'dk, 'vk, 'sk) prims \<Rightarrow> bytes \<Rightarrow> bytes" where
  "enc_pk P e = x_public P (take 32 (drop 32 e))"

definition enc_sk :: "('ek, 'dk, 'vk, 'sk) prims \<Rightarrow> bytes \<Rightarrow> bytes" where
  "enc_sk P e = x_secret_bytes P (take 32 (drop 32 e))"

definition enc_key :: "('ek, 'dk, 'vk, 'sk) prims \<Rightarrow> 'ek \<Rightarrow> bytes \<Rightarrow> bytes \<Rightarrow> bytes \<Rightarrow> bytes \<Rightarrow> bytes" where
  "enc_key P ek x e salt info =
     hybrid_key P (snd (kem_encapsulate P ek (take 32 e))) (x_dh P (enc_sk P e) x) salt
       (handshake_transcript P (enc_ct P ek e) (enc_pk P e) info)"

definition enc_conf :: "('ek, 'dk, 'vk, 'sk) prims \<Rightarrow> 'ek \<Rightarrow> bytes \<Rightarrow> bytes \<Rightarrow> bytes \<Rightarrow> bytes \<Rightarrow> bytes" where
  "enc_conf P ek x e salt info =
     hybrid_confirmation P (snd (kem_encapsulate P ek (take 32 e))) (x_dh P (enc_sk P e) x) salt
       (handshake_transcript P (enc_ct P ek e) (enc_pk P e) info)"

lemma encapsulate_inner_eval:
  assumes "\<not> entropy_degenerate e" "crypto_flush_cb h \<noteq> 0" "hkdf_ok P" "dh_admissible P (enc_sk P e) x"
  shows "\<exists>h'. encapsulate_inner P ek x e salt info oc op want (s, h) =
      Ret (Ok (if want then Some (enc_conf P ek x e salt info) else None), enc_ct P ek e, enc_pk P e)
        (keyed_session (inner_half (enc_key P ek x e salt info)) (outer_half (enc_key P ek x e salt info)), h') \<and>
    crypto_flush_cb h' = crypto_flush_cb h"
  using assms
  by (cases want)
     (simp_all add: encapsulate_inner_def x25519_keygen_def Let_def prog_defs handshake_evals
       enc_ct_def enc_pk_def enc_sk_def enc_key_def enc_conf_def inner_half_def outer_half_def)

lemma finalize_handshake_eval:
  assumes "crypto_flush_cb h \<noteq> 0" "hkdf_ok P" "dh_admissible P sk x"
    and "ml_kem_dk s = Some dk" "x25519_sk s = Some sk"
  shows "\<exists>h'. finalize_handshake P x ct salt info (s, h) =
      (let k = hybrid_key P (kem_decapsulate P dk ct) (x_dh P sk x) salt (handshake_transcript P ct x info) in
       Ret (Ok ()) (keyed_session (outer_half k) (inner_half k), h')) \<and>
    crypto_flush_cb h' = crypto_flush_cb h"
  using assms
  by (simp add: finalize_handshake_def Let_def prog_defs handshake_evals inner_half_def outer_half_def)

text \<open>What the key-generating side recomputes from an honest encapsulation.\<close>

lemma honest_secrets:
  assumes "kem_ok P" "dh_ok P"
  shows "kem_decapsulate P (kem_from_seed P seed) (enc_ct P (kem_encapsulation_key P (kem_from_seed P seed)) e) =
      snd (kem_encapsulate P (kem_encapsulation_key P (kem_from_seed P seed)) (take 32 e))"
    and "x_dh P sk (enc_pk P e) = x_dh P (enc_sk P e) (x_public P sk)"
    and "enc_sk P e = take 32 (drop 32 e)"
    and "x_secret_bytes P sk = sk"
  using assms by (auto simp: kem_ok_def dh_ok_def enc_ct_def enc_pk_def enc_sk_def Let_def)

lemma honest_admissible:
  assumes "dh_ok P" "dh_admissible P (take 32 (drop 32 e)) (x_public P sk)"
    and "\<not> list_all (\<lambda>b. b = 0) (x_public P (take 32 (drop 32 e)))"
  shows "dh_admissible P (enc_sk P e) (x_public P sk)" "dh_admissible P sk (enc_pk P e)"
proof -
  have "x_secret_bytes P z = z" "x_dh P sk (x_public P z) = x_dh P z (x_public P sk)" for z
    using assms(1) by (simp_all add: dh_ok_def)
  then show "dh_admissible P (enc_sk P e) (x_public P sk)" "dh_admissible P sk (enc_pk P e)"
    using assms(2,3) by (simp_all add: enc_sk_def enc_pk_def dh_admissible_def)
qed

text \<open>What a failing call leaves behind.\<close>

lemma finalize_handshake_err:
  assumes "crypto_flush_cb h \<noteq> 0" "finalize_handshake P x ct salt info (s, h) = Ret (Err e) (s', h')"
  shows "s' = session_new \<or> (ml_kem_dk s = None \<or> x25519_sk s = None) \<and> s' = s \<and> e = InvalidState"
proof (cases "ml_kem_dk s = None \<or> x25519_sk s = None")
  case True
  then show ?thesis using assms(2) by (cases "ml_kem_dk s") (auto simp: finalize_handshake_def prog_defs)
next
  case False
  then obtain dk sk where d: "ml_kem_dk s = Some dk" "x25519_sk s = Some sk" by auto
  show ?thesis
    using assms d
    by (cases "dh_admissible P sk x";
        cases "hkdf_expand P (hkdf_extract P salt (kem_decapsulate P dk ct @ x_dh P sk x))
          (handshake_transcript P ct x info) HYBRID_OUTPUT_SIZE")
       (simp_all add: finalize_handshake_def Let_def prog_defs ml_kem_decapsulate_eval x25519_dh_eval
         derive_hybrid_key_cases zeroize_session_eval install_keys_eval)
qed

lemma encapsulate_for_peer_err:
  assumes "crypto_flush_cb h \<noteq> 0" "encapsulate_for_peer P ek x en salt info oc op (s, h) = Ret (Err e, c, p) (s', h')"
  shows "s' = s \<and> c = oc \<and> p = op"
  using assms
  by (cases "entropy_degenerate en"; cases "dh_admissible P (enc_sk P en) x";
      cases "hkdf_expand P (hkdf_extract P salt (snd (kem_encapsulate P ek (take 32 en)) @ x_dh P (enc_sk P en) x))
        (handshake_transcript P (enc_ct P ek en) (enc_pk P en) info) HYBRID_OUTPUT_SIZE")
     (simp_all add: encapsulate_for_peer_def encapsulate_inner_def x25519_keygen_def Let_def prog_defs
       ml_kem_encapsulate_eval x25519_dh_eval derive_hybrid_key_cases install_keys_eval
       enc_ct_def enc_pk_def enc_sk_def)

lemma initiate_handshake_err:
  assumes "crypto_flush_cb h \<noteq> 0" "initiate_handshake P en (s, h) = Ret (Err e) (s', h')"
  shows "s' = s \<and> h' = h \<and> entropy_degenerate en"
  using assms initiate_handshake_eval [of en h P s]
  by (cases "entropy_degenerate en") (auto simp: initiate_handshake_def Let_def prog_defs)

subsection \<open>Properties\<close>

text \<open>
  An honest handshake gives both sides the same directional keys.  From any two sessions, with
  entropy that is neither all zeros nor all ones and Diffie-Hellman shares that are not degenerate,
  the three calls succeed; afterwards both sessions are established and open, each side's transmit
  key is the other side's receive key, the keys are 64 bytes and pass the integrity check, all
  counters and windows are zero and no ephemeral secret is left.
\<close>

theorem handshake_key_agreement:
  assumes ok: "kem_ok P" "dh_ok P" "hkdf_ok P"
    and "\<not> entropy_degenerate e1" "\<not> entropy_degenerate e2"
    and flush: "crypto_flush_cb h1 \<noteq> 0" "crypto_flush_cb h2 \<noteq> 0"
    and adm: "dh_admissible P (take 32 (drop 32 e2)) (x_public P (take 32 (drop 64 e1)))"
      "\<not> list_all (\<lambda>b. b = 0) (x_public P (take 32 (drop 32 e2)))"
  shows "\<exists>ek xk s1' h1' ct xe s2' h2' s1'' h1'' a b.
    initiate_handshake P e1 (s1, h1) = Ret (Ok (ek, xk)) (s1', h1') \<and>
    encapsulate_for_peer P ek xk e2 salt info oc op (s2, h2) = Ret (Ok (), ct, xe) (s2', h2') \<and>
    finalize_handshake P xe ct salt info (s1', h1') = Ret (Ok ()) (s1'', h1'') \<and>
    s1'' = keyed_session a b \<and> s2' = keyed_session b a \<and> length a = 64 \<and> length b = 64 \<and>
    verify_key_integrity s1'' = Ok () \<and> verify_key_integrity s2' = Ok ()"
proof -
  let ?dk = "kem_from_seed P (take 64 e1)" and ?sk = "take 32 (drop 64 e1)"
  let ?ek = "kem_encapsulation_key P ?dk" and ?xk = "x_public P ?sk"
  note hs = honest_secrets [OF ok(1,2)] and adm2 = honest_admissible [OF ok(2) adm]
  let ?k = "enc_key P ?ek ?xk e2 salt info"
  let ?h1 = "session_wiped_host s1 h1"
  obtain h2' where enc: "encapsulate_for_peer P ?ek ?xk e2 salt info oc op (s2, h2) =
      Ret (Ok (), enc_ct P ?ek e2, enc_pk P e2) (keyed_session (inner_half ?k) (outer_half ?k), h2')"
    using encapsulate_inner_eval [OF assms(5) flush(2) ok(3) adm2(1), of ?ek salt info oc op False s2]
    by (auto simp: encapsulate_for_peer_def prog_defs)
  have k: "hybrid_key P (kem_decapsulate P ?dk (enc_ct P ?ek e2)) (x_dh P ?sk (enc_pk P e2)) salt
      (handshake_transcript P (enc_ct P ?ek e2) (enc_pk P e2) info) = ?k"
    by (simp add: enc_key_def hs(1) hs(2) [of ?sk])
  have "length ?k = 128" using ok(3) by (simp add: enc_key_def)
  moreover obtain h1'' where "finalize_handshake P (enc_pk P e2) (enc_ct P ?ek e2) salt info (pending_session ?dk ?sk, ?h1) =
      Ret (Ok ()) (keyed_session (outer_half ?k) (inner_half ?k), h1'')"
    using finalize_handshake_eval [OF _ ok(3) adm2(2), of ?h1 "pending_session ?dk ?sk" ?dk "enc_ct P ?ek e2" salt info]
      flush(1) k by (auto simp: Let_def)
  moreover have "verify_key_integrity (keyed_session a b) = Ok ()" for a b
    by (simp add: verify_key_integrity_def keyed_session_def)
  ultimately show ?thesis
    using initiate_handshake_eval [OF assms(4) flush(1), of P s1] enc
    by (fastforce simp: Let_def hs(4))
qed

theorem handshake_key_agreement_witness:
  "\<exists>ek xk s1' h1' ct xe s2' h2' s1'' h1'' a b.
    initiate_handshake toy (replicate 96 5) (session_new, demo_crypto_host) = Ret (Ok (ek, xk)) (s1', h1') \<and>
    encapsulate_for_peer toy ek xk (replicate 64 6) [1] [2] (zeros 1568) (zeros 32) (session_new, demo_crypto_host) =
      Ret (Ok (), ct, xe) (s2', h2') \<and>
    finalize_handshake toy xe ct [1] [2] (s1', h1') = Ret (Ok ()) (s1'', h1'') \<and>
    s1'' = keyed_session a b \<and> s2' = keyed_session b a \<and> length a = 64 \<and> length b = 64 \<and>
    verify_key_integrity s1'' = Ok () \<and> verify_key_integrity s2' = Ok ()"
  by (rule handshake_key_agreement [OF toy_ok(5) toy_ok(6) toy_ok(3)])
     (simp_all add: entropy_degenerate_def list_all_iff dh_admissible_def toy_def pad_to_def)

text \<open>
  C34: A handshake fails closed, on a host with a registered cache flush.  Independently of each
  other: if \<open>finalize_handshake\<close> returns an error, either nothing was pending and nothing changed, or
  the pending ephemeral keys and every other part of the session are wiped, so that failed inputs
  cannot be tried again on the same ephemeral keys; if \<open>encapsulate_for_peer\<close> returns an error, the
  session and both output buffers are unchanged; and if \<open>initiate_handshake\<close> returns an error, the
  entropy was degenerate and the session is unchanged.
\<close>

theorem handshake_fails_closed:
  assumes "crypto_flush_cb h \<noteq> 0"
  shows "(finalize_handshake P x ct salt info (s, h) = Ret (Err e) (s', h') \<longrightarrow>
      s' = session_new \<or> (ml_kem_dk s = None \<or> x25519_sk s = None) \<and> s' = s \<and> e = InvalidState) \<and>
    (encapsulate_for_peer P ek y en salt' info' oc op (t, h) = Ret (Err d, c, p) (t', k') \<longrightarrow>
      t' = t \<and> c = oc \<and> p = op) \<and>
    (initiate_handshake P en' (u, h) = Ret (Err f) (u', l') \<longrightarrow> u' = u \<and> entropy_degenerate en')"
proof (intro conjI impI, goal_cases)
  case 1
  then show ?case by (rule finalize_handshake_err [OF assms])
qed (use encapsulate_for_peer_err [OF assms, of P ek y en salt' info' oc op t d c p t' k']
    initiate_handshake_err [OF assms, of P en' u f u' l'] in simp_all)

theorem handshake_fails_closed_witness:
  "\<exists>e s' h' d c p t' k' f u' l'.
    finalize_handshake toy (zeros 32) [] [] [] (pending_session [] [1], demo_crypto_host) = Ret (Err e) (s', h') \<and>
    s' = session_new \<and>
    encapsulate_for_peer toy [] (zeros 32) [1, 2] [] [] [3] [4] (keyed_session [5] [6], demo_crypto_host) =
      Ret (Err d, c, p) (t', k') \<and>
    t' = keyed_session [5] [6] \<and> c = [3] \<and> p = [4] \<and>
    initiate_handshake toy (zeros 96) (keyed_session [7] [8], demo_crypto_host) = Ret (Err f) (u', l') \<and>
    u' = keyed_session [7] [8]"
proof -
  have z: "\<not> dh_admissible toy sk (zeros 32)" for sk by (simp add: dh_admissible_def zeros_def list_all_iff)
  have f: "finalize_handshake toy (zeros 32) [] [] [] (pending_session [] [1], demo_crypto_host) =
      Ret (Err InvalidState) (session_new, session_wiped_host (pending_session ([] :: bytes) [1])
        (flushed (kem_decapsulate toy [] []) demo_crypto_host))"
    by (simp add: finalize_handshake_def prog_defs ml_kem_decapsulate_eval x25519_dh_eval z zeroize_session_eval)
  have g: "encapsulate_for_peer toy [] (zeros 32) [1, 2] [] [] [3] [4] (keyed_session [5] [6], demo_crypto_host) =
      Ret (Err InvalidState, [3], [4]) (keyed_session [5] [6],
        flushed (snd (kem_encapsulate toy [] [1, 2])) demo_crypto_host)"
    by (simp add: encapsulate_for_peer_def encapsulate_inner_def x25519_keygen_def entropy_degenerate_def prog_defs
        Let_def ml_kem_encapsulate_eval x25519_dh_eval z)
  have i: "initiate_handshake toy (zeros 96) (keyed_session [7] [8], demo_crypto_host) =
      Ret (Err InvalidState) (keyed_session [7] [8], demo_crypto_host)"
    by (simp add: initiate_handshake_def entropy_degenerate_def zeros_def list_all_iff prog_defs)
  have pending: "ml_kem_dk (pending_session ([] :: bytes) [1]) \<noteq> None" "x25519_sk (pending_session ([] :: bytes) [1]) \<noteq> None"
    by (simp_all add: pending_session_def)
  show ?thesis
    using f g i pending handshake_fails_closed [OF demo_crypto_flush, of toy "zeros 32" "[]" "[]" "[]" "pending_session [] [1]"
      InvalidState _ _ "[]" "zeros 32" "[1, 2]" "[]" "[]" "[3]" "[4]" "keyed_session [5] [6]" InvalidState "[3]" "[4]" _ _
      "zeros 96" "keyed_session [7] [8]" InvalidState]
    by simp
qed

end
