(* ===== verification/Session_Packets.thy ===== *)
theory Session_Packets
  imports Session_State
begin

text \<open>
  Lemmas on nonces and packets of the session manager: the 64-bit replay window implements the
  anti-replay contract, transmit nonces never repeat within a session, and a packet sealed by one
  session opens on the other.
\<close>

subsection \<open>The replay window\<close>

definition nonce_valid :: "bytes \<Rightarrow> bool" where
  "nonce_valid nonce \<longleftrightarrow> \<not> list_ex (\<lambda>b. b \<noteq> 0) (drop 8 nonce)"

definition nonce_seq :: "bytes \<Rightarrow> nat" where
  "nonce_seq nonce = unat (nonce_sequence nonce)"

definition rx_accepted :: "'dk session_manager \<Rightarrow> nat set \<Rightarrow> bool" where
  "rx_accepted s A \<longleftrightarrow>
     (\<forall>a \<in> A. a \<le> unat (rx_counter s)) \<and>
     (A = {} \<longrightarrow> rx_counter s = 0) \<and> (A \<noteq> {} \<longrightarrow> unat (rx_counter s) \<in> A) \<and>
     (\<forall>i < 64. bit (rx_window s) i \<longleftrightarrow> i \<le> unat (rx_counter s) \<and> unat (rx_counter s) - i \<in> A)"

lemma rx_acceptedD:
  assumes "rx_accepted s A"
  shows "a \<in> A \<Longrightarrow> a \<le> unat (rx_counter s)" "A = {} \<Longrightarrow> rx_counter s = 0"
    "A \<noteq> {} \<Longrightarrow> unat (rx_counter s) \<in> A"
    "i < 64 \<Longrightarrow> bit (rx_window s) i \<longleftrightarrow> i \<le> unat (rx_counter s) \<and> unat (rx_counter s) - i \<in> A"
  using assms by (auto simp: rx_accepted_def)

lemma rx_accepted_new [simp]: "rx_counter s = 0 \<Longrightarrow> rx_window s = 0 \<Longrightarrow> rx_accepted s {}"
  by (simp add: rx_accepted_def)

lemma u64_ge_64: "(64 \<le> (x :: u64)) = (64 \<le> unat x)"
  by (simp add: word_le_nat_alt)

lemma check_rx_nonce_iff_nat:
  "check_rx_nonce s n = Ok () \<longleftrightarrow> nonce_valid n \<and>
     (unat (rx_counter s) < nonce_seq n \<or>
      unat (rx_counter s) - nonce_seq n < 64 \<and> \<not> bit (rx_window s) (unat (rx_counter s) - nonce_seq n))"
  by (auto simp: check_rx_nonce_def nonce_valid_def nonce_seq_def Let_def u64_ge_64 unat_sub
      word_less_nat_alt word_le_nat_alt push_bit_eq_mult and_exp_eq_0_iff_not_bit)

lemma rx_check_iff:
  assumes "rx_accepted s A"
  shows "check_rx_nonce s n = Ok () \<longleftrightarrow> nonce_valid n \<and> fresh_seq A (nonce_seq n)"
proof (cases "A = {}")
  case True
  then have "unat (rx_counter s) = 0" "\<not> bit (rx_window s) 0"
    using rx_acceptedD [OF assms] by auto
  then show ?thesis using True by (auto simp: check_rx_nonce_iff_nat fresh_seq_def)
next
  case False
  let ?c = "unat (rx_counter s)" and ?q = "nonce_seq n"
  have "(?c < ?q \<or> ?c - ?q < 64 \<and> \<not> bit (rx_window s) (?c - ?q)) \<longleftrightarrow> ?q \<notin> A \<and> (\<forall>a \<in> A. a < ?q + 64)"
  proof (cases "?c < ?q")
    case True
    then show ?thesis using rx_acceptedD(1) [OF assms] by fastforce
  next
    case less: False
    have "(\<forall>a \<in> A. a < ?q + 64) \<longleftrightarrow> ?c - ?q < 64"
      using rx_acceptedD(1) [OF assms] rx_acceptedD(3) [OF assms False] less by fastforce
    then show ?thesis using rx_acceptedD(4) [OF assms, of "?c - ?q"] less by auto
  qed
  then show ?thesis by (simp add: check_rx_nonce_iff_nat fresh_seq_def)
qed

lemma rx_accepted_commit:
  assumes "rx_accepted s A" "check_rx_nonce s n = Ok ()"
  shows "rx_accepted (commit_rx_nonce s n) (insert (nonce_seq n) A)"
proof (cases "unat (rx_counter s) < nonce_seq n")
  case True
  let ?c = "unat (rx_counter s)" and ?q = "nonce_seq n"
  have lt: "rx_counter s < nonce_sequence n" using True by (simp add: word_less_nat_alt nonce_seq_def)
  then have sh: "unat (nonce_sequence n - rx_counter s) = ?q - ?c"
    by (simp add: unat_sub nonce_seq_def)
  let ?s' = "commit_rx_nonce s n"
  have c': "unat (rx_counter ?s') = ?q"
    using lt by (simp add: commit_rx_nonce_def Let_def nonce_seq_def)
  have w': "bit (rx_window ?s') i \<longleftrightarrow> i = 0 \<or> ?q - ?c \<le> i \<and> bit (rx_window s) (i - (?q - ?c))"
    if "i < 64" for i
    using lt that sh
    by (auto simp: commit_rx_nonce_def Let_def u64_ge_64 bit_simps)
  have "bit (rx_window ?s') i \<longleftrightarrow> i \<le> ?q \<and> ?q - i \<in> insert ?q A" if i: "i < 64" for i
  proof (cases "?q - ?c \<le> i")
    case True
    have "?q - i = ?c - (i - (?q - ?c))" using \<open>?c < ?q\<close> True by simp
    then show ?thesis
      using rx_acceptedD(4) [OF assms(1), of "i - (?q - ?c)"] True \<open>?c < ?q\<close> i w' [OF i] by auto
  next
    case False
    then show ?thesis using w' [OF i] rx_acceptedD(1) [OF assms(1), of "?q - i"] True by auto
  qed
  moreover have "a \<le> ?q" if "a \<in> insert ?q A" for a
    using rx_acceptedD(1) [OF assms(1), of a] True that by auto
  ultimately show ?thesis unfolding rx_accepted_def c' by blast
next
  case False
  let ?c = "unat (rx_counter s)" and ?q = "nonce_seq n"
  have ge: "\<not> rx_counter s < nonce_sequence n" "nonce_sequence n \<le> rx_counter s"
    using False by (simp_all add: word_less_nat_alt word_le_nat_alt nonce_seq_def)
  then have off: "unat (rx_counter s - nonce_sequence n) = ?c - ?q" by (simp add: unat_sub nonce_seq_def)
  have lt: "?c - ?q < 64" using assms(2) False by (simp add: check_rx_nonce_iff_nat)
  let ?s' = "commit_rx_nonce s n"
  have c': "rx_counter ?s' = rx_counter s" using ge by (simp add: commit_rx_nonce_def Let_def)
  have w': "bit (rx_window ?s') i \<longleftrightarrow> bit (rx_window s) i \<or> i = ?c - ?q" if "i < 64" for i
    using ge off lt that by (auto simp: commit_rx_nonce_def Let_def u64_ge_64 bit_simps)
  have zero: "A = {} \<Longrightarrow> ?q = ?c" using rx_acceptedD(2) [OF assms(1)] False by simp
  have "bit (rx_window ?s') i \<longleftrightarrow> i \<le> ?c \<and> ?c - i \<in> insert ?q A" if "i < 64" for i
    using w' [OF that] rx_acceptedD(4) [OF assms(1) that] False by auto
  moreover have "?c \<in> insert ?q A" using zero rx_acceptedD(3) [OF assms(1)] by (cases "A = {}") auto
  moreover have "a \<le> ?c" if "a \<in> insert ?q A" for a
    using rx_acceptedD(1) [OF assms(1), of a] False that by auto
  ultimately show ?thesis unfolding rx_accepted_def c' by blast
qed

interpretation rxw: replay_window
  "\<lambda>s n. check_rx_nonce s n = Ok ()" commit_rx_nonce nonce_valid nonce_seq rx_accepted
  by unfold_locales (simp_all add: rx_check_iff rx_accepted_commit)

subsection \<open>Traffic on one session\<close>

datatype traffic =
    Send bytes bytes bytes bytes bytes
  | Recv bytes bytes bytes bytes bytes

text \<open>One call; the result lists the nonce of a successful send and of an accepted packet.\<close>

primrec traffic_step ::
  "('ek, 'dk, 'vk, 'sk) prims \<Rightarrow> traffic \<Rightarrow> ('dk, bytes list \<times> bytes list) session_prog" where
  "traffic_step P (Send aad plaintext ciphertext nonce tag) =
     bindP (encrypt_packet P aad plaintext ciphertext nonce tag)
       (\<lambda>(r, c, n, t). ret (if is_ok r then [n] else [], []))"
| "traffic_step P (Recv aad ciphertext nonce tag plaintext) =
     bindP (decrypt_packet P aad ciphertext nonce tag plaintext)
       (\<lambda>(r, p). ret ([], if is_ok r then [nonce] else []))"

primrec run_traffic ::
  "('ek, 'dk, 'vk, 'sk) prims \<Rightarrow> traffic list \<Rightarrow> ('dk, bytes list \<times> bytes list) session_prog" where
  "run_traffic P [] = ret ([], [])"
| "run_traffic P (e # es) =
     bindP (traffic_step P e) (\<lambda>(ts, rs).
     bindP (run_traffic P es) (\<lambda>(ts', rs'). ret (ts @ ts', rs @ rs')))"

definition tx_nonce :: "u64 \<Rightarrow> bytes" where
  "tx_nonce c = le_bytes 8 c @ zeros 4"

lemma tx_nonce_simps [simp]:
  "length (tx_nonce c) = 12" "nonce_sequence (tx_nonce c) = c" "nonce_valid (tx_nonce c)"
  "nonce_seq (tx_nonce c) = unat c"
  by (simp_all add: tx_nonce_def nonce_sequence_def nonce_valid_def nonce_seq_def of_le_bytes_le_bytes
      list_ex_iff zeros_def)

lemma aead_encrypt_returns:
  assumes "crypto_flush_cb h \<noteq> 0"
  shows "\<exists>r c t h'. aead_encrypt P k m n aad pt out mac h = Ret (r, c, t) h' \<and>
    crypto_flush_cb h' = crypto_flush_cb h"
  using assms by (auto simp: aead_encrypt_def Let_def ret_def split: option.splits)

lemma aead_decrypt_returns:
  assumes "crypto_flush_cb h \<noteq> 0"
  shows "\<exists>r p h'. aead_decrypt P k m n aad c t out h = Ret (r, p) h' \<and>
    crypto_flush_cb h' = crypto_flush_cb h"
  using assms by (auto simp: aead_decrypt_def Let_def ret_def split: option.splits)

lemma u64_succ: "c \<noteq> - 1 \<Longrightarrow> unat (c + 1 :: u64) = Suc (unat c)"
proof (rule unat_Suc)
  assume "c \<noteq> - 1"
  then have "unat c \<noteq> unat (- 1 :: u64)" by (simp only: word_unat_eq_iff not_False_eq_True)
  then show "Suc (unat c) < 2 ^ LENGTH(64)"
    using unsigned_less [of c, where ?'a = nat]
    by (simp add: unsigned_minus_1_eq_mask mask_eq_exp_minus_1)
qed

lemma checked_succ: "c \<noteq> - 1 \<Longrightarrow> checked_add c (1 :: u64) = Some (c + 1)"
  using u64_succ [of c] unsigned_less [of "c + 1", where ?'a = nat] by (simp add: checked_add_def)

lemma encrypt_packet_cases:
  assumes "crypto_flush_cb h \<noteq> 0"
  shows "(\<exists>e c t h'. encrypt_packet P aad pt out nonce tag (s, h) = Ret (Err e, c, nonce, t) (s, h') \<and>
      crypto_flush_cb h' = crypto_flush_cb h) \<or>
    (\<exists>c t h'. encrypt_packet P aad pt out nonce tag (s, h) =
        Ret (Ok (), c, tx_nonce (tx_counter s), t) (s\<lparr>tx_counter := tx_counter s + 1\<rparr>, h') \<and>
      crypto_flush_cb h' = crypto_flush_cb h \<and> tx_counter s \<noteq> - 1)"
proof (cases "is_established s \<and> pending_auth s = None \<and> length out = length pt \<and> tx_counter s \<noteq> - 1 \<and>
    tx_key s \<noteq> None")
  case True
  then obtain key where key: "tx_key s = Some key" by auto
  obtain r c t h' where r: "aead_encrypt P (take 32 key) (drop 32 key) (tx_nonce (tx_counter s)) aad pt out tag h
      = Ret (r, c, t) h'" "crypto_flush_cb h' = crypto_flush_cb h"
    using aead_encrypt_returns [OF assms] by blast
  show ?thesis using True key r
    by (cases r) (simp_all add: encrypt_packet_def getP_def modP_def ret_def hostP_def Let_def
        checked_succ flip: tx_nonce_def)
next
  case False
  then show ?thesis
    by (auto simp: encrypt_packet_def getP_def ret_def)
qed

lemma decrypt_packet_cases:
  assumes "crypto_flush_cb h \<noteq> 0"
  shows "(\<exists>e p h'. decrypt_packet P aad c nonce tag out (s, h) = Ret (Err e, p) (s, h') \<and>
      crypto_flush_cb h' = crypto_flush_cb h) \<or>
    (\<exists>p h'. decrypt_packet P aad c nonce tag out (s, h) = Ret (Ok (), p) (commit_rx_nonce s nonce, h') \<and>
      crypto_flush_cb h' = crypto_flush_cb h \<and> check_rx_nonce s nonce = Ok ())"
proof (cases "is_established s \<and> pending_auth s = None \<and> length out = length c \<and>
    check_rx_nonce s nonce = Ok () \<and> rx_key s \<noteq> None")
  case True
  then obtain key where key: "rx_key s = Some key" by auto
  obtain r p h' where r: "aead_decrypt P (take 32 key) (drop 32 key) nonce aad c tag out h
      = Ret (r, p) h'" "crypto_flush_cb h' = crypto_flush_cb h"
    using aead_decrypt_returns [OF assms] by blast
  show ?thesis using True key r
    by (cases r) (simp_all add: decrypt_packet_def getP_def modP_def ret_def hostP_def Let_def)
next
  case False
  then show ?thesis
    by (auto simp: decrypt_packet_def getP_def ret_def split: sum.splits)
qed

text \<open>One call of the traffic, with what it does to the transmit counter and the window.\<close>

lemma traffic_step_cases:
  assumes "crypto_flush_cb h \<noteq> 0"
  shows "\<exists>ts rs s' h'. traffic_step P e (s, h) = Ret (ts, rs) (s', h') \<and> crypto_flush_cb h' \<noteq> 0 \<and>
    (ts = [] \<and> rs = [] \<and> s' = s \<or>
     ts = [tx_nonce (tx_counter s)] \<and> rs = [] \<and> tx_counter s \<noteq> - 1 \<and> s' = s\<lparr>tx_counter := tx_counter s + 1\<rparr> \<or>
     (\<exists>n. ts = [] \<and> rs = [n] \<and> check_rx_nonce s n = Ok () \<and> s' = commit_rx_nonce s n))"
proof (cases e)
  case (Send aad pt out nonce tag)
  show ?thesis
    using encrypt_packet_cases [OF assms, of P aad pt out nonce tag s] assms
    by (auto simp: Send ret_def)
next
  case (Recv aad c nonce tag out)
  show ?thesis
    using decrypt_packet_cases [OF assms, of P aad c nonce tag out s] assms
    by (auto simp: Recv ret_def)
qed

lemma commit_tx_counter [simp]: "tx_counter (commit_rx_nonce s n) = tx_counter s"
  by (simp add: commit_rx_nonce_def Let_def)

lemma rx_accepted_tx [simp]: "rx_accepted (s\<lparr>tx_counter := c\<rparr>) A = rx_accepted s A"
  by (simp add: rx_accepted_def)

lemma run_traffic_tx:
  assumes "crypto_flush_cb h \<noteq> 0"
  shows "\<exists>ts rs s' h'. run_traffic P es (s, h) = Ret (ts, rs) (s', h') \<and>
    ts = map (\<lambda>i. tx_nonce (of_nat i)) [unat (tx_counter s) ..< unat (tx_counter s')] \<and>
    unat (tx_counter s) \<le> unat (tx_counter s')"
  using assms
proof (induction es arbitrary: s h)
  case Nil
  then show ?case by (simp add: ret_def)
next
  case (Cons e es)
  obtain ts rs s1 h1 where step: "traffic_step P e (s, h) = Ret (ts, rs) (s1, h1)" "crypto_flush_cb h1 \<noteq> 0"
    and eff: "ts = [] \<and> tx_counter s1 = tx_counter s \<or>
      ts = [tx_nonce (tx_counter s)] \<and> tx_counter s \<noteq> - 1 \<and> tx_counter s1 = tx_counter s + 1"
    using traffic_step_cases [OF Cons.prems, of P e s] by fastforce
  obtain ts' rs' s' h' where rest: "run_traffic P es (s1, h1) = Ret (ts', rs') (s', h')"
    "ts' = map (\<lambda>i. tx_nonce (of_nat i)) [unat (tx_counter s1) ..< unat (tx_counter s')]"
    "unat (tx_counter s1) \<le> unat (tx_counter s')"
    using Cons.IH [OF step(2), of s1] by blast
  show ?case
  proof (cases "ts = []")
    case True
    then show ?thesis using step rest eff by (simp add: ret_def)
  next
    case False
    then have "unat (tx_counter s1) = Suc (unat (tx_counter s))"
      using eff u64_succ by auto
    then show ?thesis using False eff step rest by (simp add: ret_def upt_conv_Cons)
  qed
qed

lemma run_traffic_rx:
  assumes "crypto_flush_cb h \<noteq> 0" "rx_accepted s A"
  shows "\<exists>ts rs s' h'. run_traffic P es (s, h) = Ret (ts, rs) (s', h') \<and>
    rs = spec_filter nonce_valid nonce_seq A rs \<and> rx_accepted s' (A \<union> nonce_seq ` set rs)"
  using assms
proof (induction es arbitrary: s h A)
  case Nil
  then show ?case by (simp add: ret_def)
next
  case (Cons e es)
  obtain ts rs s1 h1 where step: "traffic_step P e (s, h) = Ret (ts, rs) (s1, h1)" "crypto_flush_cb h1 \<noteq> 0"
    and eff: "rs = [] \<and> rx_accepted s1 A \<or>
      (\<exists>n. rs = [n] \<and> check_rx_nonce s n = Ok () \<and> s1 = commit_rx_nonce s n)"
    using traffic_step_cases [OF Cons.prems(1), of P e s] Cons.prems(2) by fastforce
  define A1 where "A1 = A \<union> nonce_seq ` set rs"
  have acc: "rx_accepted s1 A1"
    using eff rxw.accepted_commit [OF Cons.prems(2)] by (auto simp: A1_def)
  obtain ts' rs' s' h' where rest: "run_traffic P es (s1, h1) = Ret (ts', rs') (s', h')"
    "rs' = spec_filter nonce_valid nonce_seq A1 rs'" "rx_accepted s' (A1 \<union> nonce_seq ` set rs')"
    using Cons.IH [OF step(2) acc] by blast
  have "rs @ rs' = spec_filter nonce_valid nonce_seq A (rs @ rs')"
    using eff rest(2) rxw.check_iff [OF Cons.prems(2)] by (auto simp: A1_def)
  then show ?case using step rest by (simp add: ret_def A1_def image_Un Un_assoc)
qed

lemma encrypt_packet_seals:
  assumes "chacha_ok P" "hmac_ok P" "crypto_flush_cb h \<noteq> 0" "length k = 64"
    and a: "is_established a" "pending_auth a = None" "tx_key a = Some k" "tx_counter a \<noteq> - 1"
    and len: "length pt \<le> CHACHA20_MAX_BYTES" "length out = length pt"
    and s: "seal P (take 32 k) (drop 32 k) (tx_nonce (tx_counter a)) aad pt = (c, t)"
  shows "encrypt_packet P aad pt out nonce tag (a, h) =
      Ret (Ok (), c, tx_nonce (tx_counter a), t) (a\<lparr>tx_counter := tx_counter a + 1\<rparr>, flushed t (flushed c h))"
    and "length c = length pt" "length t = 48"
proof -
  let ?n = "tx_nonce (tx_counter a)"
  show "length c = length pt" "length t = 48"
    using length_seal [OF assms(1,2) _ _ len(1), of "take 32 k" ?n "drop 32 k" aad] s assms(4) by simp_all
  show "encrypt_packet P aad pt out nonce tag (a, h) =
      Ret (Ok (), c, ?n, t) (a\<lparr>tx_counter := tx_counter a + 1\<rparr>, flushed t (flushed c h))"
    using a len(2) aead_encrypt_seals [OF assms(1,2) _ _ len(1,2) assms(3), of "take 32 k" ?n "drop 32 k" aad tag]
      s assms(4)
    by (simp add: encrypt_packet_def getP_def modP_def hostP_def ret_def Let_def checked_succ flip: tx_nonce_def)
qed

lemma decrypt_packet_opens:
  assumes "chacha_ok P" "hmac_ok P" "crypto_flush_cb h \<noteq> 0" "length k = 64"
    and b: "is_established b" "pending_auth b = None" "rx_key b = Some k"
    and chk: "check_rx_nonce b n = Ok ()" "length n = 12"
    and len: "length pt \<le> CHACHA20_MAX_BYTES" "length out = length pt"
    and s: "seal P (take 32 k) (drop 32 k) n aad pt = (c, t)"
  shows "decrypt_packet P aad c n t out (b, h) = Ret (Ok (), pt) (commit_rx_nonce b n, flushed pt h)"
proof -
  have "length c = length pt"
    using length_seal(1) [OF assms(1,2) _ _ len(1), of "take 32 k" n "drop 32 k" aad] s assms(4) chk(2) by simp
  then show ?thesis
    using b chk len(2) s assms(4)
      aead_decrypt_opens [OF assms(1,2) _ _ len(1,2) assms(3), of "take 32 k" n "drop 32 k" aad]
    by (simp add: decrypt_packet_def getP_def modP_def hostP_def ret_def)
qed

lemma packet_delivered:
  assumes "chacha_ok P" "hmac_ok P" "crypto_flush_cb h \<noteq> 0" "crypto_flush_cb h2 \<noteq> 0" "length k = 64"
    and a: "is_established a" "pending_auth a = None" "tx_key a = Some k" "tx_counter a \<noteq> - 1"
    and b: "is_established b" "pending_auth b = None" "rx_key b = Some k"
    and chk: "check_rx_nonce b (tx_nonce (tx_counter a)) = Ok ()"
    and len: "length pt \<le> CHACHA20_MAX_BYTES" "length out = length pt" "length out' = length pt"
  shows "\<exists>c t h' h3.
    encrypt_packet P aad pt out nonce tag (a, h) =
      Ret (Ok (), c, tx_nonce (tx_counter a), t) (a\<lparr>tx_counter := tx_counter a + 1\<rparr>, h') \<and>
    decrypt_packet P aad c (tx_nonce (tx_counter a)) t out' (b, h2) =
      Ret (Ok (), pt) (commit_rx_nonce b (tx_nonce (tx_counter a)), h3) \<and>
    length c = length pt"
proof -
  obtain c t where s: "seal P (take 32 k) (drop 32 k) (tx_nonce (tx_counter a)) aad pt = (c, t)" by fastforce
  show ?thesis
    using encrypt_packet_seals(1) [OF assms(1-3,5) a len(1,2) s, of nonce tag]
      encrypt_packet_seals(2) [OF assms(1-3,5) a len(1,2) s]
      decrypt_packet_opens [OF assms(1,2,4,5) b chk tx_nonce_simps(1) len(1,3) s] by blast
qed

subsection \<open>Properties\<close>

text \<open>
  C12: The 64-bit replay window implements the anti-replay contract.  From a session whose window is
  empty, offering any list of nonces to \<open>check_rx_nonce\<close> and committing the accepted ones accepts
  exactly those that an unbounded set of accepted sequence numbers would: the trailing bytes are
  zero, the number was not accepted before and is less than 64 behind the highest accepted one.
\<close>

theorem replay_window_refines_set:
  "run_filter (\<lambda>s n. check_rx_nonce s n = Ok ()) commit_rx_nonce session_new ns =
   spec_filter nonce_valid nonce_seq {} ns"
  by (rule rxw.run_refines) (simp add: session_new_def)

text \<open>
  C2: No packet is accepted twice.  On a host with a registered cache flush, whatever calls of
  \<open>encrypt_packet\<close> and \<open>decrypt_packet\<close> are made on a session that has received nothing yet (its
  receive counter and window are zero), with whatever packets an attacker supplies and whatever the
  primitives do, all calls return and the sequence numbers of the accepted packets are pairwise
  distinct.
\<close>

theorem no_packet_accepted_twice:
  assumes "crypto_flush_cb h \<noteq> 0" "rx_counter s = 0" "rx_window s = 0"
  shows "\<exists>ts rs s' h'. run_traffic P es (s, h) = Ret (ts, rs) (s', h') \<and>
    distinct (map nonce_seq rs)"
  using run_traffic_rx [OF assms(1) rx_accepted_new [OF assms(2,3)], of P es]
  by (metis spec_filter_distinct)

theorem no_packet_accepted_twice_witness:
  "\<exists>ts rs s' h'. run_traffic toy (replicate 2 (Recv [] [] (zeros 12) (hmac_finalize toy (zeros 32)
        (mac_input (zeros 12) [] [])) [])) (demo_session, demo_crypto_host) = Ret (ts, rs) (s', h') \<and>
    distinct (map nonce_seq rs)"
  by (rule no_packet_accepted_twice) (simp_all add: demo_session_def session_new_def)

text \<open>
  C5: A transmit nonce is never used twice.  Through any sequence of sends and receives, the
  nonces of the successful sends are the encodings of the consecutive counter values between the
  old and the new transmit counter, which never wraps; in particular they are pairwise distinct.
\<close>

theorem tx_nonces_never_repeat:
  assumes "crypto_flush_cb h \<noteq> 0"
  shows "\<exists>ts rs s' h'. run_traffic P es (s, h) = Ret (ts, rs) (s', h') \<and>
    ts = map (\<lambda>i. tx_nonce (of_nat i)) [unat (tx_counter s) ..< unat (tx_counter s')] \<and>
    unat (tx_counter s') = unat (tx_counter s) + length ts \<and> distinct ts"
proof -
  obtain ts rs s' h' where r: "run_traffic P es (s, h) = Ret (ts, rs) (s', h')"
    "ts = map (\<lambda>i. tx_nonce (of_nat i)) [unat (tx_counter s) ..< unat (tx_counter s')]"
    "unat (tx_counter s) \<le> unat (tx_counter s')"
    using run_traffic_tx [OF assms, of P es s] by blast
  have "map nonce_seq ts = [unat (tx_counter s) ..< unat (tx_counter s')]"
    unfolding r(2) map_map
    by (rule map_idI) (use unsigned_less [of "tx_counter s'", where ?'a = nat] in
      \<open>auto simp: unat_of_nat\<close>)
  then have "distinct ts" by (metis distinct_map distinct_upt)
  then show ?thesis using r by simp
qed

theorem tx_nonces_never_repeat_witness:
  "\<exists>ts rs s' h'. run_traffic toy (replicate 2 (Send [] [1] [0] (zeros 12) (zeros 48)))
      (demo_session, demo_crypto_host) = Ret (ts, rs) (s', h') \<and>
    ts = map (\<lambda>i. tx_nonce (of_nat i)) [unat (tx_counter demo_session) ..< unat (tx_counter s')] \<and>
    unat (tx_counter s') = unat (tx_counter demo_session) + length ts \<and> distinct ts"
  by (rule tx_nonces_never_repeat) simp

text \<open>
  A packet sealed by one session opens on the other.  When the transmit key of an open session
  is the receive key of another and the sender's counter is fresh for the receiver, encryption
  succeeds and advances the counter by one, decryption of the result returns the plaintext and
  records the nonce, and offering the same packet again is refused with the buffer untouched.
\<close>

theorem packet_round_trip:
  assumes "chacha_ok P" "hmac_ok P" "crypto_flush_cb h \<noteq> 0" "crypto_flush_cb h2 \<noteq> 0" "length k = 64"
    and a: "is_established a" "pending_auth a = None" "tx_key a = Some k" "tx_counter a \<noteq> - 1"
    and b: "is_established b" "pending_auth b = None" "rx_key b = Some k"
      "rx_accepted b A" "fresh_seq A (unat (tx_counter a))"
    and len: "length pt \<le> CHACHA20_MAX_BYTES" "length out = length pt" "length out' = length pt"
  shows "\<exists>c n t h' b' h3.
    encrypt_packet P aad pt out nonce tag (a, h) =
      Ret (Ok (), c, n, t) (a\<lparr>tx_counter := tx_counter a + 1\<rparr>, h') \<and>
    decrypt_packet P aad c n t out' (b, h2) = Ret (Ok (), pt) (b', h3) \<and>
    rx_accepted b' (insert (unat (tx_counter a)) A) \<and>
    decrypt_packet P aad c n t out' (b', h3) = Ret (Err InvalidState, out') (b', h3)"
proof -
  let ?n = "tx_nonce (tx_counter a)"
  have chk: "check_rx_nonce b ?n = Ok ()" using rxw.check_iff [OF b(4)] b(5) by simp
  let ?b' = "commit_rx_nonce b ?n"
  have "\<not> check_rx_nonce ?b' ?n = Ok ()"
    using rxw.committed_not_rechecked [OF b(4) chk] by simp
  then have again: "check_rx_nonce ?b' ?n = Err InvalidState"
    by (auto simp: check_rx_nonce_def Let_def split: if_splits)
  have b': "is_established ?b'" "pending_auth ?b' = None" "rx_accepted ?b' (insert (unat (tx_counter a)) A)"
    using b rxw.accepted_commit [OF b(4) chk] by (simp_all add: commit_rx_nonce_def Let_def)
  obtain c t h' h3 where d: "encrypt_packet P aad pt out nonce tag (a, h) =
      Ret (Ok (), c, ?n, t) (a\<lparr>tx_counter := tx_counter a + 1\<rparr>, h')"
    "decrypt_packet P aad c ?n t out' (b, h2) = Ret (Ok (), pt) (?b', h3)" "length c = length pt"
    using packet_delivered [OF assms(1-5) a b(1-3) chk len] by blast
  moreover have "decrypt_packet P aad c ?n t out' (?b', h3) = Ret (Err InvalidState, out') (?b', h3)"
    using b' again d(3) len(3) by (simp add: decrypt_packet_def getP_def ret_def)
  ultimately show ?thesis using b'(3) by blast
qed

theorem packet_round_trip_witness:
  "\<exists>c n t h' b' h3.
    encrypt_packet toy [1] [2, 3] [0, 0] (zeros 12) (zeros 48) (demo_session, demo_crypto_host) =
      Ret (Ok (), c, n, t) (demo_session\<lparr>tx_counter := tx_counter demo_session + 1\<rparr>, h') \<and>
    decrypt_packet toy [1] c n t [9, 9] (demo_session, demo_crypto_host) = Ret (Ok (), [2, 3]) (b', h3) \<and>
    rx_accepted b' (insert (unat (tx_counter demo_session)) {}) \<and>
    decrypt_packet toy [1] c n t [9, 9] (b', h3) = Ret (Err InvalidState, [9, 9]) (b', h3)"
  by (rule packet_round_trip [OF toy_ok(4) toy_ok(2), where k = "zeros 64"])
     (simp_all add: demo_session_def session_new_def fresh_seq_def CHACHA20_MAX_BYTES_def)

text \<open>
  C33: A refused packet leaves no trace.  Let the primitives behave as documented, the cache flush be
  registered, the nonce be 12 bytes long and the session hold a 64-byte receive key.  When \<open>decrypt_packet\<close> returns an error, the session is
  unchanged (its window too), no callback was made, and the output buffer holds no decrypted byte:
  it is wiped after a failed tag check and untouched after every other error.
\<close>

theorem refused_packet_leaves_no_trace:
  assumes "chacha_ok P" "hmac_ok P" "crypto_flush_cb h \<noteq> 0" "length nonce = 12"
    and "rx_key s = Some k" "length k = 64"
    and "decrypt_packet P aad c nonce tag out (s, h) = Ret (Err e, p) (s', h')"
  shows "s' = s \<and> h' = h \<and>
    (e = VerificationFailed \<and> p = zeros (length out) \<or> e \<in> {InvalidState, InvalidLength} \<and> p = out)"
proof -
  have chk: "check_rx_nonce s nonce = Ok () \<or> check_rx_nonce s nonce = Err InvalidState"
    by (auto simp: check_rx_nonce_def Let_def)
  have dec: "aead_decrypt P (take 32 k) (drop 32 k) nonce aad c tag out h = Ret (Err e', p') h'' \<Longrightarrow>
      h'' = h \<and> (e' = VerificationFailed \<and> p' = zeros (length out) \<or> e' = InvalidLength \<and> p' = out)" for e' p' h''
    using chacha_okD(1) [OF assms(1), of "take 32 k" nonce] chacha_okD(2) [OF assms(1), of "take 32 k" nonce c]
      assms(2-6)
    by (cases "length c \<le> CHACHA20_MAX_BYTES")
       (auto simp: aead_decrypt_def Let_def ret_def hmac_okD secure_zeroize_def split: if_splits)
  obtain r' p' h'' where r: "aead_decrypt P (take 32 k) (drop 32 k) nonce aad c tag out h = Ret (r', p') h''"
    using aead_decrypt_returns [OF assms(3)] by blast
  show ?thesis
    using assms(5,7) chk dec r
    by (cases r') (auto simp: decrypt_packet_def getP_def modP_def hostP_def ret_def Let_def split: if_splits)
qed

theorem refused_packet_leaves_no_trace_witness:
  "\<exists>e p s' h'. decrypt_packet toy [] [7] (zeros 12) (zeros 48) [9] (demo_session, demo_crypto_host) =
      Ret (Err e, p) (s', h') \<and> s' = demo_session \<and> h' = demo_crypto_host \<and>
    (e = VerificationFailed \<and> p = zeros (length [9 :: u8]) \<or> e \<in> {InvalidState, InvalidLength} \<and> p = [9])"
proof -
  have "hmac_finalize toy (zeros 32) (mac_input (zeros 12) [] [7]) \<noteq> zeros 48"
    by (simp add: toy_def mac_input_def pad_to_def zeros_def be_bytes_def le_bytes_def numeral_eq_Suc)
  moreover have "check_rx_nonce demo_session (zeros 12) = Ok ()"
    by (simp add: rx_check_iff [of _ "{}"] demo_session_def session_new_def fresh_seq_def nonce_valid_def
        list_ex_iff zeros_def)
  ultimately have "decrypt_packet toy [] [7] (zeros 12) (zeros 48) [9] (demo_session, demo_crypto_host) =
      Ret (Err VerificationFailed, zeros 1) (demo_session, demo_crypto_host)"
    using aead_decrypt_bad_tag [OF toy_ok(2), of "[9]" "[7]" "zeros 48" "zeros 32" "zeros 12" "[]"
        "zeros 32" demo_crypto_host]
    by (simp add: decrypt_packet_def getP_def hostP_def ret_def demo_session_def session_new_def
        zeros_def CHACHA20_MAX_BYTES_def)
  then show ?thesis
    using refused_packet_leaves_no_trace [OF toy_ok(4) toy_ok(2) demo_crypto_flush, of "zeros 12" demo_session "zeros 64"]
    by (fastforce simp: demo_session_def)
qed

end
