(* ===== verification/Auth_Handshake.thy ===== *)
theory Auth_Handshake
  imports Aead
begin

text \<open>
  The encodings of the authenticated handshake (auth_handshake.rs): fingerprints, the binding,
  the transcript, the two signed digests and the key-confirmation tags.  The fixed-length inputs
  are Rust arrays; their lengths appear as hypotheses where they matter.
\<close>

definition AUTH_PROTOCOL_VERSION :: u8 where
  "AUTH_PROTOCOL_VERSION = 2"

definition AUTH_SUITE :: bytes where
  "AUTH_SUITE =
     ascii ''ML-KEM-1024+X25519;HKDF-SHA384;ChaCha20+HMAC-SHA384;ML-DSA-87;HMAC-SHA384-KC''"

definition CONTEXT_ENCAPSULATING_SIDE :: bytes where
  "CONTEXT_ENCAPSULATING_SIDE = ascii ''ShawnCore-auth-v2 encapsulating side''"

definition CONTEXT_KEYGEN_SIDE :: bytes where
  "CONTEXT_KEYGEN_SIDE = ascii ''ShawnCore-auth-v2 key-generating side''"

definition CONFIRM_LABEL_ENCAPSULATING_SIDE :: bytes where
  "CONFIRM_LABEL_ENCAPSULATING_SIDE = ascii ''ShawnCore-auth-v2 confirm encapsulating side''"

definition CONFIRM_LABEL_KEYGEN_SIDE :: bytes where
  "CONFIRM_LABEL_KEYGEN_SIDE = ascii ''ShawnCore-auth-v2 confirm key-generating side''"

definition AUTH_HASH_LEN :: nat where
  "AUTH_HASH_LEN = 48"

definition CONFIRMATION_KEY_LEN :: nat where
  "CONFIRMATION_KEY_LEN = 48"

definition IDENTITY_LABEL :: bytes where
  "IDENTITY_LABEL = ascii ''ShawnCore-auth-v2 identity''"

definition BINDING_LABEL :: bytes where
  "BINDING_LABEL = ascii ''ShawnCore-auth-v2 binding''"

definition TRANSCRIPT_LABEL :: bytes where
  "TRANSCRIPT_LABEL = ascii ''ShawnCore-auth-v2 transcript''"

definition ENCAPSULATOR_DIGEST_LABEL :: bytes where
  "ENCAPSULATOR_DIGEST_LABEL = ascii ''ShawnCore-auth-v2 encapsulator digest''"

definition KEYGEN_DIGEST_LABEL :: bytes where
  "KEYGEN_DIGEST_LABEL = ascii ''ShawnCore-auth-v2 key-generator digest''"

definition sha384 :: "('ek, 'dk, 'vk, 'sk) prims \<Rightarrow> bytes list \<Rightarrow> bytes" where
  "sha384 P parts = sha384_digest P (concat parts)"

definition identity_fingerprint :: "('ek, 'dk, 'vk, 'sk) prims \<Rightarrow> 'vk \<Rightarrow> bytes" where
  "identity_fingerprint P verifying_key = sha384 P [IDENTITY_LABEL, ml_dsa_pk_to_bytes P verifying_key]"

text \<open>The parts that \<open>handshake_binding\<close> hashes, in order.\<close>

definition binding_parts :: "bytes \<Rightarrow> bytes \<Rightarrow> bytes \<Rightarrow> bytes \<Rightarrow> bytes \<Rightarrow> bytes list" where
  "binding_parts ml_kem_pk x25519_pk keygen_identity encapsulator_identity app_info =
     [BINDING_LABEL, [AUTH_PROTOCOL_VERSION],
      be_bytes 2 (of_nat (length AUTH_SUITE) :: u16), AUTH_SUITE, ml_kem_pk, x25519_pk,
      keygen_identity, encapsulator_identity,
      be_bytes 4 (of_nat (length app_info) :: u32), app_info]"

definition handshake_binding ::
  "('ek, 'dk, 'vk, 'sk) prims \<Rightarrow> 'ek \<Rightarrow> bytes \<Rightarrow> bytes \<Rightarrow> bytes \<Rightarrow> bytes \<Rightarrow> crypto_error + bytes" where
  "handshake_binding P keygen_ml_kem_pk keygen_x25519_pk keygen_identity encapsulator_identity app_info =
     (if length app_info \<ge> 2 ^ 32 then Err InvalidLength
      else Ok (sha384 P (binding_parts (ml_kem_pk_to_bytes P keygen_ml_kem_pk) keygen_x25519_pk
                 keygen_identity encapsulator_identity app_info)))"

definition transcript_hash ::
  "('ek, 'dk, 'vk, 'sk) prims \<Rightarrow> bytes \<Rightarrow> bytes \<Rightarrow> bytes \<Rightarrow> bytes" where
  "transcript_hash P binding ciphertext encapsulator_x25519_pk =
     sha384 P [TRANSCRIPT_LABEL, binding, ciphertext, encapsulator_x25519_pk]"

definition encapsulator_digest :: "('ek, 'dk, 'vk, 'sk) prims \<Rightarrow> bytes \<Rightarrow> bytes \<Rightarrow> bytes" where
  "encapsulator_digest P transcript encapsulator_tag =
     sha384 P [ENCAPSULATOR_DIGEST_LABEL, transcript, encapsulator_tag]"

definition keygen_digest :: "('ek, 'dk, 'vk, 'sk) prims \<Rightarrow> bytes \<Rightarrow> bytes \<Rightarrow> bytes" where
  "keygen_digest P digest keygen_tag = sha384 P [KEYGEN_DIGEST_LABEL, digest, keygen_tag]"

definition confirmation_tag ::
  "('ek, 'dk, 'vk, 'sk) prims \<Rightarrow> bytes \<Rightarrow> bytes \<Rightarrow> bytes \<Rightarrow> (crypto_host, crypto_error + bytes) prog" where
  "confirmation_tag P key label digest =
     (let used = length label + AUTH_HASH_LEN in
      if used > 128 then ret (Err InvalidLength) else hmac_sha384 P key (label @ digest))"

definition confirmation_tags_equal :: "bytes \<Rightarrow> bytes \<Rightarrow> bool" where
  "confirmation_tags_equal expected presented = verify_tag_constant_time expected presented"

subsection \<open>Lemmas\<close>

lemma sha384_length [simp]: "hash_ok P \<Longrightarrow> length (sha384 P parts) = 48"
  by (simp add: sha384_def hash_ok_def)

lemma confirmation_tag_eval:
  assumes "hmac_ok P" "length label \<le> 80" "crypto_flush_cb h \<noteq> 0"
  shows "confirmation_tag P key label digest h =
    Ret (Ok (hmac_finalize P key (label @ digest))) (flushed (hmac_finalize P key (label @ digest)) h)"
  using assms
  by (simp add: confirmation_tag_def hmac_sha384_def hmac_okD AUTH_HASH_LEN_def Let_def ret_def)

lemma confirm_label_lengths [simp]:
  "length CONFIRM_LABEL_ENCAPSULATING_SIDE \<le> 80" "length CONFIRM_LABEL_KEYGEN_SIDE \<le> 80"
  "length CONTEXT_ENCAPSULATING_SIDE \<le> 255" "length CONTEXT_KEYGEN_SIDE \<le> 255"
  by (simp_all add: CONFIRM_LABEL_ENCAPSULATING_SIDE_def CONFIRM_LABEL_KEYGEN_SIDE_def
      CONTEXT_ENCAPSULATING_SIDE_def CONTEXT_KEYGEN_SIDE_def)

lemma binding_parts_inj:
  assumes "concat (binding_parts ek x ki ei app) = concat (binding_parts ek' x' ki' ei' app')"
    and "length ek = length ek'" "length x = length x'" "length ki = length ki'" "length ei = length ei'"
  shows "ek = ek' \<and> x = x' \<and> ki = ki' \<and> ei = ei' \<and> app = app'"
  using assms by (simp add: binding_parts_def)

subsection \<open>Properties\<close>

text \<open>
  The handshake binding commits to everything it names.  If two bindings are equal and
  SHA-384 does not collide on the two encodings, then both sides hashed the same ML-KEM key
  bytes, the same X25519 key, the same two identities in the same roles and the same application
  info.
\<close>

theorem handshake_binding_injective:
  assumes "handshake_binding P ek x ki ei app = Ok b" "handshake_binding P ek' x' ki' ei' app' = Ok b"
    and "length (ml_kem_pk_to_bytes P ek) = 1568" "length (ml_kem_pk_to_bytes P ek') = 1568"
    and "length x = 32" "length x' = 32" "length ki = 48" "length ki' = 48" "length ei = 48" "length ei' = 48"
    and "\<And>u v. u = concat (binding_parts (ml_kem_pk_to_bytes P ek) x ki ei app) \<Longrightarrow>
        v = concat (binding_parts (ml_kem_pk_to_bytes P ek') x' ki' ei' app') \<Longrightarrow>
        u \<noteq> v \<Longrightarrow> sha384_digest P u \<noteq> sha384_digest P v"
  shows "ml_kem_pk_to_bytes P ek = ml_kem_pk_to_bytes P ek' \<and> x = x' \<and> ki = ki' \<and> ei = ei' \<and> app = app'"
proof -
  have "sha384_digest P (concat (binding_parts (ml_kem_pk_to_bytes P ek) x ki ei app)) =
      sha384_digest P (concat (binding_parts (ml_kem_pk_to_bytes P ek') x' ki' ei' app'))"
    using assms(1,2) by (auto simp: handshake_binding_def sha384_def split: if_splits)
  then have "concat (binding_parts (ml_kem_pk_to_bytes P ek) x ki ei app) =
      concat (binding_parts (ml_kem_pk_to_bytes P ek') x' ki' ei' app')"
    using assms(11) by blast
  then show ?thesis using assms(3-10) by (intro binding_parts_inj) simp_all
qed

theorem handshake_binding_injective_witness:
  "\<exists>b. handshake_binding toy [] (zeros 32) (zeros 48) (zeros 48) [1] = Ok b \<and>
     ml_kem_pk_to_bytes toy [] = ml_kem_pk_to_bytes toy [0] \<and> zeros 32 = zeros 32 \<and>
     zeros 48 = zeros 48 \<and> zeros 48 = zeros 48 \<and> [1 :: u8] = [1]"
proof -
  obtain b where b: "handshake_binding toy [] (zeros 32) (zeros 48) (zeros 48) [1] = Ok b"
    by (simp add: handshake_binding_def)
  have pk: "ml_kem_pk_to_bytes toy [] = ml_kem_pk_to_bytes toy [0]"
    by (simp add: ml_kem_pk_to_bytes_def toy_def pad_to_def zeros_def flip: replicate_Suc)
  have "handshake_binding toy [0] (zeros 32) (zeros 48) (zeros 48) [1] = Ok b"
    using b pk by (simp add: handshake_binding_def)
  from handshake_binding_injective [OF b this] show ?thesis
    using b pk by (simp add: ml_kem_pk_to_bytes_def toy_def)
qed

end
