(* ===== verification/Session_Auth.thy ===== *)
theory Session_Auth
  imports Session_Handshake Session_Packets Auth_Handshake
begin

text \<open>
  The authenticated handshake of the session manager (session_manager.rs): signed transcripts
  with explicit key confirmation on top of the hybrid exchange.
\<close>

definition encapsulate_authenticated ::
  "('ek, 'dk, 'vk, 'sk) prims \<Rightarrow> 'sk \<Rightarrow> 'vk \<Rightarrow> 'ek \<Rightarrow> bytes \<Rightarrow> bytes \<Rightarrow> bytes \<Rightarrow> bytes \<Rightarrow>
   bytes \<Rightarrow> bytes \<Rightarrow> bytes \<Rightarrow> bytes \<Rightarrow>
   ('dk, (crypto_error + unit) \<times> bytes \<times> bytes \<times> bytes \<times> bytes) session_prog" where
  "encapsulate_authenticated P own_signing_key peer_verifying_key peer_ml_kem_pk peer_x25519_pk
       entropy salt app_info out_ct out_pk out_signature out_confirmation =
     (let own_identity = identity_fingerprint P (ml_dsa_verifying_key P own_signing_key);
          peer_identity = identity_fingerprint P peer_verifying_key
      in case handshake_binding P peer_ml_kem_pk peer_x25519_pk peer_identity own_identity app_info of
        Inl e \<Rightarrow> ret (Err e, out_ct, out_pk, out_signature, out_confirmation)
      | Inr binding \<Rightarrow>
          bindP (encapsulate_inner P peer_ml_kem_pk peer_x25519_pk entropy salt binding out_ct out_pk True)
           (\<lambda>(r, ct, pk). case r of
              Inl e \<Rightarrow> ret (Err e, ct, pk, out_signature, out_confirmation)
            | Inr None \<Rightarrow> ret (Err InvalidState, ct, pk, out_signature, out_confirmation)
            | Inr (Some confirmation) \<Rightarrow>
                let encapsulator_key = take CONFIRMATION_KEY_LEN confirmation;
                    keygen_key = drop CONFIRMATION_KEY_LEN confirmation;
                    transcript = transcript_hash P binding ct pk
                in bindP (hostP
                     (bindE (confirmation_tag P encapsulator_key CONFIRM_LABEL_ENCAPSULATING_SIDE transcript)
                       (\<lambda>tag. let digest = encapsulator_digest P transcript tag in
                         bindE (ml_dsa_sign_with_context P own_signing_key digest CONTEXT_ENCAPSULATING_SIDE)
                           (\<lambda>signature. ret (Ok (tag, digest, signature))))))
                   (\<lambda>outcome. case outcome of
                      Inr (tag, digest, signature) \<Rightarrow>
                        seqP (modP (\<lambda>s. s\<lparr>pending_auth := Some \<lparr>pa_digest = digest,
                                pa_peer_identity = peer_identity, pa_confirmation_key = keygen_key\<rparr>\<rparr>))
                             (ret (Ok (), ct, pk, signature, tag))
                    | Inl e \<Rightarrow>
                        seqP zeroize_session (ret (Err e, ct, pk, out_signature, out_confirmation)))))"

definition complete_authenticated_finalize ::
  "('ek, 'dk, 'vk, 'sk) prims \<Rightarrow> 'dk session_manager \<Rightarrow> 'sk \<Rightarrow> bytes \<Rightarrow> bytes \<Rightarrow> bytes \<Rightarrow> bytes \<Rightarrow>
   bytes \<Rightarrow> bytes \<Rightarrow> bytes \<Rightarrow> (crypto_host, crypto_error + (bytes \<times> bytes \<times> bytes)) prog" where
  "complete_authenticated_finalize P s own_signing_key peer_x25519_pk ml_kem_ct peer_confirmation
       salt binding transcript peer_digest =
     (case ml_kem_dk s of None \<Rightarrow> ret (Err InvalidState)
      | Some dk \<Rightarrow> (case x25519_sk s of None \<Rightarrow> ret (Err InvalidState)
        | Some sk \<Rightarrow>
            bindE (ml_kem_decapsulate P dk ml_kem_ct) (\<lambda>pq_secret.
            bindE (x25519_diffie_hellman P sk peer_x25519_pk) (\<lambda>classical_secret.
            let inner = handshake_transcript P ml_kem_ct peer_x25519_pk binding in
            bindP (derive_hybrid_key_with_confirmation P pq_secret classical_secret salt inner
                     (confirmation_info inner)) (\<lambda>(derived, _, _).
            case derived of
              Inl e \<Rightarrow> ret (Err e)
            | Inr (session, confirmation) \<Rightarrow>
                let encapsulator_key = take CONFIRMATION_KEY_LEN confirmation;
                    keygen_key = drop CONFIRMATION_KEY_LEN confirmation
                in bindE (confirmation_tag P encapsulator_key CONFIRM_LABEL_ENCAPSULATING_SIDE transcript)
                   (\<lambda>expected.
                     if \<not> confirmation_tags_equal expected peer_confirmation
                     then ret (Err KeyConfirmationFailed)
                     else
                       bindE (confirmation_tag P keygen_key CONFIRM_LABEL_KEYGEN_SIDE peer_digest) (\<lambda>tag.
                       let digest = keygen_digest P peer_digest tag in
                       bindE (ml_dsa_sign_with_context P own_signing_key digest CONTEXT_KEYGEN_SIDE)
                         (\<lambda>signature. ret (Ok (signature, tag, session))))))))))"

definition finalize_authenticated ::
  "('ek, 'dk, 'vk, 'sk) prims \<Rightarrow> 'sk \<Rightarrow> 'vk \<Rightarrow> bytes \<Rightarrow> bytes \<Rightarrow> bytes \<Rightarrow> bytes \<Rightarrow> bytes \<Rightarrow> bytes \<Rightarrow>
   bytes \<Rightarrow> bytes \<Rightarrow> ('dk, (crypto_error + unit) \<times> bytes \<times> bytes) session_prog" where
  "finalize_authenticated P own_signing_key peer_verifying_key peer_x25519_pk ml_kem_ct peer_signature
       peer_confirmation salt app_info out_signature out_confirmation =
     bindP getP (\<lambda>s. case ml_kem_dk s of
       None \<Rightarrow> ret (Err InvalidState, out_signature, out_confirmation)
     | Some dk \<Rightarrow> (case x25519_sk s of
         None \<Rightarrow> ret (Err InvalidState, out_signature, out_confirmation)
       | Some sk \<Rightarrow>
           let own_ml_kem_pk = kem_encapsulation_key P dk;
               own_x25519_pk = fst (x25519_keygen P sk);
               own_identity = identity_fingerprint P (ml_dsa_verifying_key P own_signing_key);
               peer_identity = identity_fingerprint P peer_verifying_key
           in case handshake_binding P own_ml_kem_pk own_x25519_pk own_identity peer_identity app_info of
             Inl e \<Rightarrow> ret (Err e, out_signature, out_confirmation)
           | Inr binding \<Rightarrow>
               let transcript = transcript_hash P binding ml_kem_ct peer_x25519_pk;
                   peer_digest = encapsulator_digest P transcript peer_confirmation
               in case ml_dsa_verify_with_context P peer_verifying_key peer_digest
                         CONTEXT_ENCAPSULATING_SIDE peer_signature of
                 Inl e \<Rightarrow> ret (Err e, out_signature, out_confirmation)
               | Inr _ \<Rightarrow>
                   bindP (hostP (complete_authenticated_finalize P s own_signing_key peer_x25519_pk
                            ml_kem_ct peer_confirmation salt binding transcript peer_digest))
                    (\<lambda>outcome. case outcome of
                       Inr (signature, tag, session) \<Rightarrow>
                         let tx = take 32 session @ drop 96 session; rx = take 64 (drop 32 session) in
                         seqP (install_keys tx rx) (ret (Ok (), signature, tag))
                     | Inl e \<Rightarrow>
                         seqP zeroize_session (ret (Err e, out_signature, out_confirmation)))))"

definition confirm_peer ::
  "('ek, 'dk, 'vk, 'sk) prims \<Rightarrow> 'vk \<Rightarrow> bytes \<Rightarrow> bytes \<Rightarrow> ('dk, crypto_error + unit) session_prog" where
  "confirm_peer P peer_verifying_key peer_signature peer_confirmation =
     bindP getP (\<lambda>s. case pending_auth s of
       None \<Rightarrow> ret (Err InvalidState)
     | Some pending \<Rightarrow>
         let digest = pa_digest pending; pinned_identity = pa_peer_identity pending;
             confirmation_key = pa_confirmation_key pending;
             presented = identity_fingerprint P peer_verifying_key
         in if \<not> confirmation_tags_equal presented pinned_identity then ret (Err VerificationFailed)
         else
           let signed = keygen_digest P digest peer_confirmation in
           case ml_dsa_verify_with_context P peer_verifying_key signed CONTEXT_KEYGEN_SIDE peer_signature of
             Inl e \<Rightarrow> ret (Err e)
           | Inr _ \<Rightarrow>
               bindP (hostP (confirmation_tag P confirmation_key CONFIRM_LABEL_KEYGEN_SIDE digest))
                (\<lambda>expected. case expected of
                   Inr tag \<Rightarrow>
                     if confirmation_tags_equal tag peer_confirmation
                     then seqP wipe_pending_authentication (ret (Ok ()))
                     else seqP zeroize_session (ret (Err KeyConfirmationFailed))
                 | Inl e \<Rightarrow> seqP zeroize_session (ret (Err e))))"

definition is_awaiting_peer_confirmation :: "'dk session_manager \<Rightarrow> bool" where
  "is_awaiting_peer_confirmation s \<longleftrightarrow> pending_auth s \<noteq> None"

subsection \<open>Evaluation\<close>

lemma ml_dsa_sign_eval:
  assumes "dsa_ok P" "crypto_flush_cb h \<noteq> 0" "length c \<le> 255"
  shows "\<exists>sig. ml_dsa_sign_with_context P sk msg c h = Ret (Ok sig) (flushed sig h) \<and>
    ml_dsa_verify_with_context P (ml_dsa_verifying_key P sk) msg c sig = Ok ()"
proof -
  obtain sig where "dsa_sign_deterministic P sk msg c = Some sig" "length sig = 4627"
    "dsa_sig_decodes P sig" "dsa_verify_with_context P (dsa_verifying_key P sk) msg c sig"
    using assms(1,3) unfolding dsa_ok_def by blast
  then show ?thesis using assms(2)
    by (simp add: ml_dsa_sign_with_context_def ml_dsa_verify_with_context_def ml_dsa_verifying_key_def
        ML_DSA_SIGNATURE_BYTES_def ret_def)
qed

lemma ml_dsa_verify_result:
  "ml_dsa_verify_with_context P vk msg c sig = Ok () \<or>
   ml_dsa_verify_with_context P vk msg c sig = Err VerificationFailed"
  by (simp add: ml_dsa_verify_with_context_def)

lemma wipe_pending_eval:
  assumes "crypto_flush_cb h \<noteq> 0" "pending_auth s = Some p"
  shows "wipe_pending_authentication (s, h) =
    Ret () (s\<lparr>pending_auth := None\<rparr>, flushed (zeros (length (pa_confirmation_key p))) h)"
  using assms by (simp add: wipe_pending_authentication_def prog_defs Let_def secure_zeroize_def)

lemma confirmation_tags_equal_iff [simp]: "confirmation_tags_equal a b \<longleftrightarrow> a = b"
  by (simp add: confirmation_tags_equal_def verify_tag_constant_time_def)

text \<open>The values of an honest authenticated encapsulation.\<close>

definition auth_binding :: "('ek, 'dk, 'vk, 'sk) prims \<Rightarrow> 'ek \<Rightarrow> bytes \<Rightarrow> 'vk \<Rightarrow> 'vk \<Rightarrow> bytes \<Rightarrow> bytes" where
  "auth_binding P ek x keygen_vk encapsulator_vk app =
     sha384 P (binding_parts (ml_kem_pk_to_bytes P ek) x (identity_fingerprint P keygen_vk)
       (identity_fingerprint P encapsulator_vk) app)"

definition enc_tag :: "('ek, 'dk, 'vk, 'sk) prims \<Rightarrow> bytes \<Rightarrow> bytes \<Rightarrow> bytes" where
  "enc_tag P conf transcript =
     hmac_finalize P (take 48 conf) (CONFIRM_LABEL_ENCAPSULATING_SIDE @ transcript)"

definition keygen_tag :: "('ek, 'dk, 'vk, 'sk) prims \<Rightarrow> bytes \<Rightarrow> bytes \<Rightarrow> bytes" where
  "keygen_tag P conf digest = hmac_finalize P (drop 48 conf) (CONFIRM_LABEL_KEYGEN_SIDE @ digest)"

lemma handshake_binding_ok:
  "length app < 2 ^ 32 \<Longrightarrow>
   handshake_binding P ek x (identity_fingerprint P kvk) (identity_fingerprint P evk) app =
     Ok (auth_binding P ek x kvk evk app)"
  by (simp add: handshake_binding_def auth_binding_def)

lemma encapsulate_authenticated_eval:
  fixes P ek x e salt app kvk sk
  defines "b \<equiv> auth_binding P ek x kvk (ml_dsa_verifying_key P sk) app"
  defines "conf \<equiv> enc_conf P ek x e salt b" and "k \<equiv> enc_key P ek x e salt b"
    and "T \<equiv> transcript_hash P b (enc_ct P ek e) (enc_pk P e)"
  assumes "\<not> entropy_degenerate e" "crypto_flush_cb h \<noteq> 0" "hkdf_ok P" "dh_admissible P (enc_sk P e) x"
    and "hmac_ok P" "dsa_ok P" "length app < 2 ^ 32"
  shows "\<exists>sig h'. encapsulate_authenticated P sk kvk ek x e salt app oc op os ot (s, h) =
      Ret (Ok (), enc_ct P ek e, enc_pk P e, sig, enc_tag P conf T)
        ((keyed_session (inner_half k) (outer_half k))\<lparr>pending_auth := Some
           \<lparr>pa_digest = encapsulator_digest P T (enc_tag P conf T),
            pa_peer_identity = identity_fingerprint P kvk, pa_confirmation_key = drop 48 conf\<rparr>\<rparr>, h') \<and>
    crypto_flush_cb h' \<noteq> 0 \<and>
    ml_dsa_verify_with_context P (ml_dsa_verifying_key P sk) (encapsulator_digest P T (enc_tag P conf T))
      CONTEXT_ENCAPSULATING_SIDE sig = Ok ()"
proof -
  obtain h1 where inner: "encapsulate_inner P ek x e salt b oc op True (s, h) =
      Ret (Ok (Some conf), enc_ct P ek e, enc_pk P e) (keyed_session (inner_half k) (outer_half k), h1)"
    "crypto_flush_cb h1 \<noteq> 0"
    using encapsulate_inner_eval [OF assms(5-8), of ek salt b oc op True s] assms(6)
    by (auto simp: conf_def k_def)
  let ?d = "encapsulator_digest P T (enc_tag P conf T)" and ?h2 = "flushed (enc_tag P conf T) h1"
  obtain sig where sig: "ml_dsa_sign_with_context P sk ?d CONTEXT_ENCAPSULATING_SIDE ?h2 = Ret (Ok sig) (flushed sig ?h2)"
    "ml_dsa_verify_with_context P (ml_dsa_verifying_key P sk) ?d CONTEXT_ENCAPSULATING_SIDE sig = Ok ()"
    using ml_dsa_sign_eval [OF assms(10), of ?h2 CONTEXT_ENCAPSULATING_SIDE sk ?d] inner(2) by auto
  have "confirmation_tag P (take 48 conf) CONFIRM_LABEL_ENCAPSULATING_SIDE T h1 = Ret (Ok (enc_tag P conf T)) ?h2"
    using confirmation_tag_eval [OF assms(9) _ inner(2)] by (simp add: enc_tag_def)
  then show ?thesis
    using inner sig
    by (simp add: encapsulate_authenticated_def handshake_binding_ok [OF assms(11)] prog_defs Let_def
        CONFIRMATION_KEY_LEN_def flip: b_def T_def)
qed

text \<open>The key material the key-generating side derives from a received ciphertext and share.\<close>

definition fin_key :: "('ek, 'dk, 'vk, 'sk) prims \<Rightarrow> 'dk \<Rightarrow> bytes \<Rightarrow> bytes \<Rightarrow> bytes \<Rightarrow> bytes \<Rightarrow> bytes \<Rightarrow> bytes" where
  "fin_key P dk sk x ct salt b =
     hybrid_key P (kem_decapsulate P dk ct) (x_dh P sk x) salt (handshake_transcript P ct x b)"

definition fin_conf :: "('ek, 'dk, 'vk, 'sk) prims \<Rightarrow> 'dk \<Rightarrow> bytes \<Rightarrow> bytes \<Rightarrow> bytes \<Rightarrow> bytes \<Rightarrow> bytes \<Rightarrow> bytes" where
  "fin_conf P dk sk x ct salt b =
     hybrid_confirmation P (kem_decapsulate P dk ct) (x_dh P sk x) salt (handshake_transcript P ct x b)"

lemma complete_finalize_refuses:
  assumes "ml_kem_dk s = Some dk" "x25519_sk s = Some sk" "crypto_flush_cb h \<noteq> 0" "hkdf_ok P" "hmac_ok P"
    and "\<not> dh_admissible P sk x \<or> t \<noteq> enc_tag P (fin_conf P dk sk x ct salt b) T"
  shows "\<exists>h'. complete_authenticated_finalize P s ksk x ct t salt b T d h =
      Ret (Err (if dh_admissible P sk x then KeyConfirmationFailed else InvalidState)) h' \<and> crypto_flush_cb h' \<noteq> 0"
  using assms
  by (cases "dh_admissible P sk x")
     (auto simp: complete_authenticated_finalize_def ml_kem_decapsulate_eval x25519_dh_eval Let_def ret_def
      derive_with_confirmation_eval confirmation_tag_eval CONFIRMATION_KEY_LEN_def fin_conf_def enc_tag_def)

lemma complete_finalize_accepts:
  fixes P dk sk x ct salt b T
  defines "conf \<equiv> fin_conf P dk sk x ct salt b"
  assumes "ml_kem_dk s = Some dk" "x25519_sk s = Some sk" "crypto_flush_cb h \<noteq> 0" "hkdf_ok P" "hmac_ok P"
    and "dsa_ok P" "dh_admissible P sk x"
  shows "\<exists>sig h'. complete_authenticated_finalize P s ksk x ct (enc_tag P conf T) salt b T d h =
      Ret (Ok (sig, keygen_tag P conf d, fin_key P dk sk x ct salt b)) h' \<and> crypto_flush_cb h' \<noteq> 0 \<and>
    ml_dsa_verify_with_context P (ml_dsa_verifying_key P ksk) (keygen_digest P d (keygen_tag P conf d))
      CONTEXT_KEYGEN_SIDE sig = Ok ()"
proof -
  define h0 where "h0 = flushed conf (flushed (fin_key P dk sk x ct salt b)
      (flushed (x_dh P sk x) (flushed (kem_decapsulate P dk ct) h)))"
  define h1 where "h1 = flushed (enc_tag P conf T) h0"
  define h2 where "h2 = flushed (keygen_tag P conf d) h1"
  have cb: "crypto_flush_cb h1 \<noteq> 0" "crypto_flush_cb h2 \<noteq> 0" "crypto_flush_cb h0 \<noteq> 0"
    using assms(4) by (simp_all add: h0_def h1_def h2_def)
  obtain sig where sig: "ml_dsa_sign_with_context P ksk (keygen_digest P d (keygen_tag P conf d)) CONTEXT_KEYGEN_SIDE h2
      = Ret (Ok sig) (flushed sig h2)"
    "ml_dsa_verify_with_context P (ml_dsa_verifying_key P ksk) (keygen_digest P d (keygen_tag P conf d))
      CONTEXT_KEYGEN_SIDE sig = Ok ()"
    using ml_dsa_sign_eval [OF assms(7) cb(2)] confirm_label_lengths(4) by blast
  have tags: "confirmation_tag P (drop 48 conf) CONFIRM_LABEL_KEYGEN_SIDE d h1 = Ret (Ok (keygen_tag P conf d)) h2"
    "confirmation_tag P (take 48 conf) CONFIRM_LABEL_ENCAPSULATING_SIDE T h0 = Ret (Ok (enc_tag P conf T)) h1"
    using confirmation_tag_eval [OF assms(6)] cb(1,3) by (simp_all add: keygen_tag_def enc_tag_def h1_def h2_def)
  have "complete_authenticated_finalize P s ksk x ct (enc_tag P conf T) salt b T d h =
      Ret (Ok (sig, keygen_tag P conf d, fin_key P dk sk x ct salt b)) (flushed sig h2)"
    using tags sig(1) assms(2-4,8)
    by (simp add: complete_authenticated_finalize_def ml_kem_decapsulate_eval x25519_dh_eval Let_def ret_def
        derive_with_confirmation_eval [OF assms(5)] CONFIRMATION_KEY_LEN_def
        flip: fin_key_def fin_conf_def conf_def h0_def)
  then show ?thesis using sig(2) cb(2) by auto
qed

lemma finalize_authenticated_verified:
  fixes P dk sk x ct t salt app evk ksk
  defines "b \<equiv> auth_binding P (kem_encapsulation_key P dk) (x_public P sk) (ml_dsa_verifying_key P ksk) evk app"
  defines "T \<equiv> transcript_hash P b ct x"
  defines "d \<equiv> encapsulator_digest P T t"
  assumes "ml_kem_dk s = Some dk" "x25519_sk s = Some sk" "length app < 2 ^ 32"
  shows "finalize_authenticated P ksk evk x ct sig t salt app os ot (s, h) =
    (case ml_dsa_verify_with_context P evk d CONTEXT_ENCAPSULATING_SIDE sig of
       Inl e \<Rightarrow> Ret (Err e, os, ot) (s, h)
     | Inr _ \<Rightarrow>
        bindP (hostP (complete_authenticated_finalize P s ksk x ct t salt b T d))
          (\<lambda>outcome. case outcome of
             Inr (signature, tag, session) \<Rightarrow>
               seqP (install_keys (outer_half session) (inner_half session)) (ret (Ok (), signature, tag))
           | Inl e \<Rightarrow> seqP zeroize_session (ret (Err e, os, ot))) (s, h))"
  using assms(4-6)
  by (simp add: finalize_authenticated_def x25519_keygen_def Let_def getP_def ret_def
      handshake_binding_ok outer_half_def inner_half_def b_def T_def d_def split: sum.split)

lemma finalize_authenticated_eval:
  fixes P seed sk e salt app evk ksk
  defines "dk \<equiv> kem_from_seed P seed"
  defines "ek \<equiv> kem_encapsulation_key P dk" and "x \<equiv> x_public P sk"
  defines "b \<equiv> auth_binding P ek x (ml_dsa_verifying_key P ksk) evk app"
  defines "conf \<equiv> enc_conf P ek x e salt b" and "k \<equiv> enc_key P ek x e salt b"
    and "T \<equiv> transcript_hash P b (enc_ct P ek e) (enc_pk P e)"
  defines "d \<equiv> encapsulator_digest P T (enc_tag P conf T)"
  assumes "kem_ok P" "dh_ok P" "hkdf_ok P" "hmac_ok P" "dsa_ok P" "length app < 2 ^ 32"
    and "crypto_flush_cb h \<noteq> 0" "dh_admissible P sk (enc_pk P e)"
    and "ml_dsa_verify_with_context P evk d CONTEXT_ENCAPSULATING_SIDE sig = Ok ()"
  shows "\<exists>sig' h'. finalize_authenticated P ksk evk (enc_pk P e) (enc_ct P ek e) sig (enc_tag P conf T) salt app os ot
        (pending_session dk sk, h) =
      Ret (Ok (), sig', keygen_tag P conf d) (keyed_session (outer_half k) (inner_half k), h') \<and>
    ml_dsa_verify_with_context P (ml_dsa_verifying_key P ksk) (keygen_digest P d (keygen_tag P conf d))
      CONTEXT_KEYGEN_SIDE sig' = Ok ()"
proof -
  note hs = honest_secrets [OF assms(9,10)]
  have keys: "fin_key P dk sk (enc_pk P e) (enc_ct P ek e) salt b = k"
    "fin_conf P dk sk (enc_pk P e) (enc_ct P ek e) salt b = conf"
    by (simp_all add: k_def conf_def enc_key_def enc_conf_def fin_key_def fin_conf_def dk_def ek_def x_def
        hs(1) hs(2) [of sk])
  let ?s = "pending_session dk sk"
  obtain sig' h' where "complete_authenticated_finalize P ?s ksk (enc_pk P e) (enc_ct P ek e) (enc_tag P conf T) salt b T d h =
      Ret (Ok (sig', keygen_tag P conf d, k)) h'" "crypto_flush_cb h' \<noteq> 0"
    "ml_dsa_verify_with_context P (ml_dsa_verifying_key P ksk) (keygen_digest P d (keygen_tag P conf d))
      CONTEXT_KEYGEN_SIDE sig' = Ok ()"
    using complete_finalize_accepts [OF _ _ assms(15,11,12,13,16), of ?s dk ksk "enc_ct P ek e" salt b T d] keys
    by auto
  then show ?thesis
    using assms(17) finalize_authenticated_verified [of ?s dk sk app P ksk evk "enc_pk P e" "enc_ct P ek e" sig
        "enc_tag P conf T" salt os ot h] assms(14)
    by (simp add: prog_defs install_keys_eval flip: ek_def x_def b_def T_def d_def)
qed

lemma confirm_peer_eval:
  assumes "pending_auth s = Some p" "crypto_flush_cb h \<noteq> 0" "hmac_ok P"
  shows "confirm_peer P vk sig t (s, h) =
    (let tag = hmac_finalize P (pa_confirmation_key p) (CONFIRM_LABEL_KEYGEN_SIDE @ pa_digest p) in
     if identity_fingerprint P vk \<noteq> pa_peer_identity p \<or>
        ml_dsa_verify_with_context P vk (keygen_digest P (pa_digest p) t) CONTEXT_KEYGEN_SIDE sig \<noteq> Ok ()
     then Ret (Err VerificationFailed) (s, h)
     else if tag \<noteq> t then Ret (Err KeyConfirmationFailed) (session_new, session_wiped_host s (flushed tag h))
     else Ret (Ok ()) (s\<lparr>pending_auth := None\<rparr>,
            flushed (zeros (length (pa_confirmation_key p))) (flushed tag h)))"
  using assms
  by (auto simp: confirm_peer_def prog_defs Let_def confirmation_tag_eval wipe_pending_eval
      zeroize_session_eval ml_dsa_verify_with_context_def)

text \<open>A session that waits for its peer refuses every packet call without touching anything.\<close>

lemma traffic_step_refused:
  "\<not> is_established s \<or> pending_auth s \<noteq> None \<Longrightarrow> traffic_step P e (s, h) = Ret ([], []) (s, h)"
  by (cases e) (auto simp: encrypt_packet_def decrypt_packet_def prog_defs)

lemma run_traffic_refused:
  "\<not> is_established s \<or> pending_auth s \<noteq> None \<Longrightarrow> run_traffic P es (s, h) = Ret ([], []) (s, h)"
  by (induction es) (simp_all add: traffic_step_refused ret_def)

lemma outcome_installs:
  assumes "bindP (hostP m) (\<lambda>outcome. case outcome of
      Inr (a, b, c) \<Rightarrow> seqP (modP (f a b c)) (ret (Ok (), g a b c))
    | Inl e \<Rightarrow> seqP zeroize_session (ret (Err e, z))) (s, h) = Ret (Ok (), r) (s', h')"
    and "\<And>a b c. Q (f a b c s)"
  shows "Q s'"
proof (cases "m h")
  case (Ret x h1)
  then show ?thesis using assms
    by (cases x) (auto simp: prog_defs seqP_eq_Ret)
qed (use assms in \<open>simp_all add: hostP_def\<close>)

lemma encapsulate_authenticated_pending:
  assumes "encapsulate_authenticated P sk vk ek x e salt app oc op os ot (s, h) = Ret (Ok (), r) (s', h')"
  shows "pending_auth s' \<noteq> None"
proof -
  let ?bind = "handshake_binding P ek x (identity_fingerprint P vk)
      (identity_fingerprint P (ml_dsa_verifying_key P sk)) app"
  obtain b where b: "?bind = Ok b"
    using assms by (cases ?bind) (simp_all add: encapsulate_authenticated_def prog_defs Let_def)
  obtain rr ct pk s1 h1 where inner: "encapsulate_inner P ek x e salt b oc op True (s, h) = Ret (rr, ct, pk) (s1, h1)"
    using assms b
    by (cases "encapsulate_inner P ek x e salt b oc op True (s, h)")
       (auto simp: encapsulate_authenticated_def Let_def)
  obtain conf where conf: "rr = Ok (Some conf)"
    using assms b inner
    by (cases rr; cases "projr rr") (auto simp: encapsulate_authenticated_def prog_defs Let_def)
  show ?thesis
    using assms b inner conf
    by (auto simp: encapsulate_authenticated_def Let_def dest!: outcome_installs [where Q = "\<lambda>s. pending_auth s \<noteq> None"])
qed

definition demo_pending :: pending_authentication where
  "demo_pending = \<lparr>pa_digest = [], pa_peer_identity = identity_fingerprint toy [1], pa_confirmation_key = [4]\<rparr>"

subsection \<open>Properties\<close>

text \<open>
  The run of the authenticated protocol between honest sides: with primitives that behave as
  documented, both sides holding the other's verifying key, the same salt and application info, the
  four calls succeed in the order of the protocol and leave both sessions with the same keys.
\<close>

lemma authenticated_handshake_run:
  assumes ok: "kem_ok P" "dh_ok P" "hkdf_ok P" "hmac_ok P" "dsa_ok P"
    and ent: "\<not> entropy_degenerate e1" "\<not> entropy_degenerate e2"
    and flush: "crypto_flush_cb h1 \<noteq> 0" "crypto_flush_cb h2 \<noteq> 0"
    and adm: "dh_admissible P (take 32 (drop 32 e2)) (x_public P (take 32 (drop 64 e1)))"
      "\<not> list_all (\<lambda>b. b = 0) (x_public P (take 32 (drop 32 e2)))"
    and app: "length app < 2 ^ 32"
  shows "\<exists>ek xk s1' h1' ct xe sigE tagE s2' h2' sigK tagK s1'' h1'' s2'' h2'' a b.
    initiate_handshake P e1 (s1, h1) = Ret (Ok (ek, xk)) (s1', h1') \<and>
    encapsulate_authenticated P skE (ml_dsa_verifying_key P skK) ek xk e2 salt app oc op os ot (s2, h2) =
      Ret (Ok (), ct, xe, sigE, tagE) (s2', h2') \<and>
    finalize_authenticated P skK (ml_dsa_verifying_key P skE) xe ct sigE tagE salt app os' ot' (s1', h1') =
      Ret (Ok (), sigK, tagK) (s1'', h1'') \<and>
    confirm_peer P (ml_dsa_verifying_key P skK) sigK tagK (s2', h2') = Ret (Ok ()) (s2'', h2'') \<and>
    s1'' = keyed_session a b \<and> s2'' = keyed_session b a \<and> length a = 64 \<and> length b = 64"
proof -
  let ?seed = "take 64 e1" and ?sk = "take 32 (drop 64 e1)"
  let ?dk = "kem_from_seed P ?seed"
  let ?ek = "kem_encapsulation_key P ?dk" and ?x = "x_public P ?sk"
  note adm2 = honest_admissible [OF ok(2) adm]
  have init: "initiate_handshake P e1 (s1, h1) = Ret (Ok (?ek, ?x)) (pending_session ?dk ?sk, session_wiped_host s1 h1)"
    using initiate_handshake_eval [OF ent(1) flush(1), of P s1] by (simp add: Let_def honest_secrets(4) [OF ok(1,2)])
  have cb1: "crypto_flush_cb (session_wiped_host s1 h1) \<noteq> 0" using flush(1) by simp
  let ?b = "auth_binding P ?ek ?x (ml_dsa_verifying_key P skK) (ml_dsa_verifying_key P skE) app"
  let ?conf = "enc_conf P ?ek ?x e2 salt ?b" and ?k = "enc_key P ?ek ?x e2 salt ?b"
  let ?T = "transcript_hash P ?b (enc_ct P ?ek e2) (enc_pk P e2)"
  let ?d = "encapsulator_digest P ?T (enc_tag P ?conf ?T)"
  let ?p = "\<lparr>pa_digest = ?d, pa_peer_identity = identity_fingerprint P (ml_dsa_verifying_key P skK),
      pa_confirmation_key = drop 48 ?conf\<rparr>"
  let ?s2 = "(keyed_session (inner_half ?k) (outer_half ?k))\<lparr>pending_auth := Some ?p\<rparr>"
  obtain sigE h2' where enc: "encapsulate_authenticated P skE (ml_dsa_verifying_key P skK) ?ek ?x e2 salt app oc op os ot (s2, h2) =
      Ret (Ok (), enc_ct P ?ek e2, enc_pk P e2, sigE, enc_tag P ?conf ?T) (?s2, h2')" "crypto_flush_cb h2' \<noteq> 0"
    "ml_dsa_verify_with_context P (ml_dsa_verifying_key P skE) ?d CONTEXT_ENCAPSULATING_SIDE sigE = Ok ()"
    using encapsulate_authenticated_eval [OF ent(2) flush(2) ok(3) adm2(1) ok(4,5) app] by blast
  obtain sigK h1'' where fin: "finalize_authenticated P skK (ml_dsa_verifying_key P skE) (enc_pk P e2) (enc_ct P ?ek e2) sigE
      (enc_tag P ?conf ?T) salt app os' ot' (pending_session ?dk ?sk, session_wiped_host s1 h1) =
      Ret (Ok (), sigK, keygen_tag P ?conf ?d) (keyed_session (outer_half ?k) (inner_half ?k), h1'')"
    "ml_dsa_verify_with_context P (ml_dsa_verifying_key P skK) (keygen_digest P ?d (keygen_tag P ?conf ?d))
      CONTEXT_KEYGEN_SIDE sigK = Ok ()"
    using finalize_authenticated_eval [OF ok app cb1 adm2(2) enc(3)] by blast
  have "confirm_peer P (ml_dsa_verifying_key P skK) sigK (keygen_tag P ?conf ?d) (?s2, h2') =
      Ret (Ok ()) (?s2\<lparr>pending_auth := None\<rparr>,
        flushed (zeros (length (drop 48 ?conf))) (flushed (keygen_tag P ?conf ?d) h2'))"
    using confirm_peer_eval [OF _ enc(2) ok(4), of ?s2 ?p] fin(2)
    by (simp add: Let_def flip: keygen_tag_def)
  then obtain h2'' where con: "confirm_peer P (ml_dsa_verifying_key P skK) sigK (keygen_tag P ?conf ?d) (?s2, h2') =
      Ret (Ok ()) (?s2\<lparr>pending_auth := None\<rparr>, h2'')"
    by blast
  have "?s2\<lparr>pending_auth := None\<rparr> = keyed_session (inner_half ?k) (outer_half ?k)"
    by (simp add: keyed_session_def session_new_def)
  moreover have "length ?k = 128" using ok(3) by (simp add: enc_key_def)
  ultimately show ?thesis using init enc(1) fin(1) con half_lengths [of ?k] by metis
qed

text \<open>
  C14: No application data before confirmation.  After a successful \<open>encapsulate_authenticated\<close> the
  session waits for its peer, and any sequence of packet calls on it is refused without a nonce
  being used, a packet accepted, a callback made or the session changed.
\<close>

theorem unconfirmed_session_refuses_traffic:
  assumes "encapsulate_authenticated P sk vk ek x e salt app oc op os ot (s, h) = Ret (Ok (), r) (s', h')"
  shows "is_awaiting_peer_confirmation s' \<and> run_traffic P es (s', h2) = Ret ([], []) (s', h2)"
  using encapsulate_authenticated_pending [OF assms]
  by (simp add: is_awaiting_peer_confirmation_def run_traffic_refused)

theorem unconfirmed_session_refuses_traffic_witness:
  "\<exists>r s' h'. encapsulate_authenticated toy [1] [2] [] (replicate 32 5) (replicate 64 6) [] [3] [] [] [] []
      (session_new, demo_crypto_host) = Ret (Ok (), r) (s', h') \<and> is_awaiting_peer_confirmation s' \<and>
    run_traffic toy [Send [] [1] [0] [] []] (s', demo_crypto_host) = Ret ([], []) (s', demo_crypto_host)"
proof -
  have "\<exists>sig h'. encapsulate_authenticated toy [1] [2] [] (replicate 32 5) (replicate 64 6) [] [3] [] [] [] []
      (session_new, demo_crypto_host) = Ret (Ok (), sig) h'"
    using encapsulate_authenticated_eval [OF _ demo_crypto_flush toy_ok(3) _ toy_ok(2) toy_ok(7),
        of "replicate 64 6" "replicate 32 5" "[3]" "[1]" "[2]" "[]" "[]" "[]" "[]" "[]" "[]" session_new]
    by (fastforce simp: entropy_degenerate_def list_all_iff dh_admissible_def toy_def)
  then show ?thesis using unconfirmed_session_refuses_traffic by fast
qed

text \<open>
  C3: What \<open>finalize_authenticated\<close> does with a pending handshake.  A signature that does not verify on
  the digest of this side's own view of the transcript changes nothing at all, so a forgery cannot
  consume the handshake.  Once the signature verifies, a degenerate share or a confirmation tag
  other than the one under the derived key wipes the session and returns no output.  Only with
  both correct are the derived keys installed, with this side's tag and a signature that verifies.
\<close>

theorem finalize_authenticated_checks:
  assumes "ml_kem_dk s = Some dk" "x25519_sk s = Some sk" "length app < 2 ^ 32" "crypto_flush_cb h \<noteq> 0"
    and "hkdf_ok P" "hmac_ok P" "dsa_ok P"
  shows "let b = auth_binding P (kem_encapsulation_key P dk) (x_public P sk) (ml_dsa_verifying_key P ksk) evk app;
      T = transcript_hash P b ct x; d = encapsulator_digest P T t;
      conf = fin_conf P dk sk x ct salt b; k = fin_key P dk sk x ct salt b
    in \<exists>r os' ot' s' h'. finalize_authenticated P ksk evk x ct sig t salt app os ot (s, h) = Ret (r, os', ot') (s', h') \<and>
      (if ml_dsa_verify_with_context P evk d CONTEXT_ENCAPSULATING_SIDE sig \<noteq> Ok ()
       then r = Err VerificationFailed \<and> s' = s \<and> h' = h \<and> os' = os \<and> ot' = ot
       else if \<not> dh_admissible P sk x \<or> t \<noteq> enc_tag P conf T
       then r = Err (if dh_admissible P sk x then KeyConfirmationFailed else InvalidState) \<and>
         s' = session_new \<and> os' = os \<and> ot' = ot
       else r = Ok () \<and> s' = keyed_session (outer_half k) (inner_half k) \<and> ot' = keygen_tag P conf d \<and>
         ml_dsa_verify_with_context P (ml_dsa_verifying_key P ksk) (keygen_digest P d ot') CONTEXT_KEYGEN_SIDE os' = Ok ())"
proof -
  define b where "b = auth_binding P (kem_encapsulation_key P dk) (x_public P sk) (ml_dsa_verifying_key P ksk) evk app"
  define T where "T = transcript_hash P b ct x"
  define d where "d = encapsulator_digest P T t"
  note folds = Let_def b_def [symmetric] T_def [symmetric] d_def [symmetric]
  note fin = finalize_authenticated_verified [OF assms(1-3), of P ksk evk x ct sig t salt os ot h,
      folded b_def, folded T_def, folded d_def]
  consider (forged) "ml_dsa_verify_with_context P evk d CONTEXT_ENCAPSULATING_SIDE sig = Err VerificationFailed"
    | (refused) "ml_dsa_verify_with_context P evk d CONTEXT_ENCAPSULATING_SIDE sig = Ok ()"
        "\<not> dh_admissible P sk x \<or> t \<noteq> enc_tag P (fin_conf P dk sk x ct salt b) T"
    | (accepted) "ml_dsa_verify_with_context P evk d CONTEXT_ENCAPSULATING_SIDE sig = Ok ()"
        "dh_admissible P sk x" "t = enc_tag P (fin_conf P dk sk x ct salt b) T"
    using ml_dsa_verify_result [of P evk d CONTEXT_ENCAPSULATING_SIDE sig] by blast
  then show ?thesis
  proof cases
    case forged
    then show ?thesis unfolding folds using fin by simp
  next
    case refused
    then show ?thesis
      unfolding folds using fin complete_finalize_refuses [OF assms(1,2,4-6) refused(2), of ksk d]
      by (auto simp: prog_defs zeroize_session_eval)
  next
    case accepted
    then show ?thesis
      unfolding folds using fin complete_finalize_accepts [OF assms(1,2,4-7) accepted(2), of ksk ct salt b T d]
      by (auto simp: prog_defs install_keys_eval)
  qed
qed

theorem finalize_authenticated_checks_witness:
  "let b = auth_binding toy (kem_encapsulation_key toy []) (x_public toy [5]) (ml_dsa_verifying_key toy [2]) [1] [];
      T = transcript_hash toy b [] [6]; d = encapsulator_digest toy T [];
      conf = fin_conf toy [] [5] [6] [] [] b; k = fin_key toy [] [5] [6] [] [] b
    in \<exists>r os' ot' s' h'. finalize_authenticated toy [2] [1] [6] [] (zeros 4627) [] [] [] [7] [8]
        (pending_session [] [5], demo_crypto_host) = Ret (r, os', ot') (s', h') \<and>
      (if ml_dsa_verify_with_context toy [1] d CONTEXT_ENCAPSULATING_SIDE (zeros 4627) \<noteq> Ok ()
       then r = Err VerificationFailed \<and> s' = pending_session [] [5] \<and> h' = demo_crypto_host \<and> os' = [7] \<and> ot' = [8]
       else if \<not> dh_admissible toy [5] [6] \<or> [] \<noteq> enc_tag toy conf T
       then r = Err (if dh_admissible toy [5] [6] then KeyConfirmationFailed else InvalidState) \<and>
         s' = session_new \<and> os' = [7] \<and> ot' = [8]
       else r = Ok () \<and> s' = keyed_session (outer_half k) (inner_half k) \<and> ot' = keygen_tag toy conf d \<and>
         ml_dsa_verify_with_context toy (ml_dsa_verifying_key toy [2]) (keygen_digest toy d ot') CONTEXT_KEYGEN_SIDE os' = Ok ())"
  by (rule finalize_authenticated_checks [OF _ _ _ demo_crypto_flush toy_ok(3) toy_ok(2) toy_ok(7)]) simp_all

text \<open>
  C13: What \<open>confirm_peer\<close> does with an unconfirmed session.  A verifying key other than the pinned
  identity or a signature that does not verify changes nothing, so the genuine proof can still
  arrive.  A valid signature over a tag that is not the expected one wipes the whole session.  Only
  the expected tag opens it, and then nothing changes but the pending state, which is removed after
  its confirmation key was overwritten and flushed.
\<close>

theorem confirm_peer_checks:
  assumes "pending_auth s = Some p" "crypto_flush_cb h \<noteq> 0" "hmac_ok P"
  shows "\<exists>r s' h'. confirm_peer P vk sig t (s, h) = Ret r (s', h') \<and>
    (if identity_fingerprint P vk \<noteq> pa_peer_identity p \<or>
        ml_dsa_verify_with_context P vk (keygen_digest P (pa_digest p) t) CONTEXT_KEYGEN_SIDE sig \<noteq> Ok ()
     then r = Err VerificationFailed \<and> s' = s \<and> h' = h
     else if t \<noteq> hmac_finalize P (pa_confirmation_key p) (CONFIRM_LABEL_KEYGEN_SIDE @ pa_digest p)
     then r = Err KeyConfirmationFailed \<and> s' = session_new
     else r = Ok () \<and> s' = s\<lparr>pending_auth := None\<rparr> \<and>
       h' = flushed (zeros (length (pa_confirmation_key p))) (flushed t h))"
  using confirm_peer_eval [OF assms, of vk sig t] by (auto simp: Let_def)

theorem confirm_peer_checks_witness:
  "\<exists>r s' h'. confirm_peer toy [1] (zeros 4627) [9] (demo_session\<lparr>pending_auth := Some demo_pending\<rparr>, demo_crypto_host)
      = Ret r (s', h') \<and>
    (if identity_fingerprint toy [1] \<noteq> pa_peer_identity demo_pending \<or>
        ml_dsa_verify_with_context toy [1] (keygen_digest toy (pa_digest demo_pending) [9]) CONTEXT_KEYGEN_SIDE (zeros 4627) \<noteq> Ok ()
     then r = Err VerificationFailed \<and> s' = demo_session\<lparr>pending_auth := Some demo_pending\<rparr> \<and> h' = demo_crypto_host
     else if [9] \<noteq> hmac_finalize toy (pa_confirmation_key demo_pending) (CONFIRM_LABEL_KEYGEN_SIDE @ pa_digest demo_pending)
     then r = Err KeyConfirmationFailed \<and> s' = session_new
     else r = Ok () \<and> s' = demo_session\<lparr>pending_auth := Some demo_pending, pending_auth := None\<rparr> \<and>
       h' = flushed (zeros (length (pa_confirmation_key demo_pending))) (flushed [9] demo_crypto_host))"
  by (rule confirm_peer_checks [OF _ demo_crypto_flush toy_ok(2)]) simp

end
