(* ===== verification/Crypto_Ffi.thy ===== *)
theory Crypto_Ffi
  imports Session_Auth Ffi_Memory
begin

text \<open>
  The C boundary of the crypto crate (shawncore-pq-crypto/src/ffi.rs), first part: the objects that
  live in host storage, the checks on pointers, lengths and ranges, and the functions on a session.
  Each function has the checks of the source in their order, the call on the object behind the
  pointer, the output writes and the error code.  Output slices are written back when the
  operation returns.  Sizes and alignments are parameters, which the layout functions report.
\<close>

subsection \<open>Objects\<close>

datatype ('ek, 'dk, 'vk, 'sk) crypto_obj =
    ObjSession "'dk session_manager"
  | ObjKemPk 'ek
  | ObjKemDk 'dk
  | ObjKemShared bytes
  | ObjKemCt bytes
  | ObjDsaPk 'vk
  | ObjDsaSk 'sk
  | ObjDsaSig bytes
  | ObjXPub bytes
  | ObjXSec bytes
  | ObjXShared bytes

record ('ek, 'dk, 'vk, 'sk) crypto_layouts =
  l_session :: type_layout
  l_kem_pk :: type_layout
  l_kem_dk :: type_layout
  l_kem_shared :: type_layout
  l_kem_ct :: type_layout
  l_dsa_pk :: type_layout
  l_dsa_sk :: type_layout
  l_dsa_sig :: type_layout
  l_x_pub :: type_layout
  l_x_sec :: type_layout
  l_x_shared :: type_layout
  l_crypto_repr :: "('ek, 'dk, 'vk, 'sk) crypto_obj \<Rightarrow> nat \<Rightarrow> u8"

fun crypto_obj_layout :: "('ek, 'dk, 'vk, 'sk) crypto_layouts \<Rightarrow> ('ek, 'dk, 'vk, 'sk) crypto_obj \<Rightarrow> type_layout" where
  "crypto_obj_layout L (ObjSession _) = l_session L"
| "crypto_obj_layout L (ObjKemPk _) = l_kem_pk L"
| "crypto_obj_layout L (ObjKemDk _) = l_kem_dk L"
| "crypto_obj_layout L (ObjKemShared _) = l_kem_shared L"
| "crypto_obj_layout L (ObjKemCt _) = l_kem_ct L"
| "crypto_obj_layout L (ObjDsaPk _) = l_dsa_pk L"
| "crypto_obj_layout L (ObjDsaSk _) = l_dsa_sk L"
| "crypto_obj_layout L (ObjDsaSig _) = l_dsa_sig L"
| "crypto_obj_layout L (ObjXPub _) = l_x_pub L"
| "crypto_obj_layout L (ObjXSec _) = l_x_sec L"
| "crypto_obj_layout L (ObjXShared _) = l_x_shared L"

definition crypto_objs :: "('ek, 'dk, 'vk, 'sk) crypto_layouts \<Rightarrow> ('ek, 'dk, 'vk, 'sk) crypto_obj obj_model" where
  "crypto_objs L = \<lparr>obj_size = (\<lambda>x. layout_size (crypto_obj_layout L x)), obj_repr = l_crypto_repr L\<rparr>"

fun as_session :: "('ek, 'dk, 'vk, 'sk) crypto_obj \<Rightarrow> ('dk session_manager) option" where
  "as_session (ObjSession x) = Some x"
| "as_session _ = None"

fun as_kem_pk :: "('ek, 'dk, 'vk, 'sk) crypto_obj \<Rightarrow> 'ek option" where
  "as_kem_pk (ObjKemPk x) = Some x"
| "as_kem_pk _ = None"

fun as_kem_dk :: "('ek, 'dk, 'vk, 'sk) crypto_obj \<Rightarrow> 'dk option" where
  "as_kem_dk (ObjKemDk x) = Some x"
| "as_kem_dk _ = None"

fun as_kem_shared :: "('ek, 'dk, 'vk, 'sk) crypto_obj \<Rightarrow> bytes option" where
  "as_kem_shared (ObjKemShared x) = Some x"
| "as_kem_shared _ = None"

fun as_kem_ct :: "('ek, 'dk, 'vk, 'sk) crypto_obj \<Rightarrow> bytes option" where
  "as_kem_ct (ObjKemCt x) = Some x"
| "as_kem_ct _ = None"

fun as_dsa_pk :: "('ek, 'dk, 'vk, 'sk) crypto_obj \<Rightarrow> 'vk option" where
  "as_dsa_pk (ObjDsaPk x) = Some x"
| "as_dsa_pk _ = None"

fun as_dsa_sk :: "('ek, 'dk, 'vk, 'sk) crypto_obj \<Rightarrow> 'sk option" where
  "as_dsa_sk (ObjDsaSk x) = Some x"
| "as_dsa_sk _ = None"

fun as_dsa_sig :: "('ek, 'dk, 'vk, 'sk) crypto_obj \<Rightarrow> bytes option" where
  "as_dsa_sig (ObjDsaSig x) = Some x"
| "as_dsa_sig _ = None"

fun as_x_pub :: "('ek, 'dk, 'vk, 'sk) crypto_obj \<Rightarrow> bytes option" where
  "as_x_pub (ObjXPub x) = Some x"
| "as_x_pub _ = None"

fun as_x_sec :: "('ek, 'dk, 'vk, 'sk) crypto_obj \<Rightarrow> bytes option" where
  "as_x_sec (ObjXSec x) = Some x"
| "as_x_sec _ = None"

fun as_x_shared :: "('ek, 'dk, 'vk, 'sk) crypto_obj \<Rightarrow> bytes option" where
  "as_x_shared (ObjXShared x) = Some x"
| "as_x_shared _ = None"

type_synonym ('ek, 'dk, 'vk, 'sk) crypto_ffi = "(('ek, 'dk, 'vk, 'sk) crypto_obj memory \<times> crypto_host, nat) prog"

abbreviation (input) CRYPTO_SUCCESS :: nat where "CRYPTO_SUCCESS \<equiv> 0"

fun crypto_code :: "crypto_error + 'a \<Rightarrow> nat" where
  "crypto_code (Inr _) = CRYPTO_SUCCESS"
| "crypto_code (Inl e) = crypto_err_code e"

text \<open>Writing back a mutable slice of a given length.\<close>

definition write_slice :: "'o obj_model \<Rightarrow> usize \<Rightarrow> nat \<Rightarrow> bytes \<Rightarrow> ('o memory \<times> 'h, unit) prog" where
  "write_slice M p n bs = (if n > 0 then write_bytes M p (take n bs) else ret ())"

subsection \<open>Checks on pointers, lengths and ranges\<close>

definition MAX_SLICE_LEN :: usize where
  "MAX_SLICE_LEN = 2 ^ 63 - 1"

definition MAX_APP_INFO_LEN :: usize where
  "MAX_APP_INFO_LEN = 2 ^ 32 - 1"

definition slice_len_valid :: "usize \<Rightarrow> bool" where
  "slice_len_valid len \<longleftrightarrow> len \<le> MAX_SLICE_LEN"

definition range_ok :: "usize \<Rightarrow> usize \<Rightarrow> bool" where
  "range_ok p len \<longleftrightarrow> slice_len_valid len \<and> (len = 0 \<or> checked_add p len \<noteq> None)"

definition packet_len_valid :: "usize \<Rightarrow> bool" where
  "packet_len_valid len \<longleftrightarrow> slice_len_valid len \<and> unat len \<le> CHACHA20_MAX_BYTES"

definition ranges_overlap :: "usize \<Rightarrow> usize \<Rightarrow> usize \<Rightarrow> usize \<Rightarrow> bool" where
  "ranges_overlap first first_len second second_len =
     (if first_len = 0 \<or> second_len = 0 then False
      else case checked_add first first_len of
        None \<Rightarrow> True
      | Some first_end \<Rightarrow>
          (case checked_add second second_len of
             None \<Rightarrow> True
           | Some second_end \<Rightarrow> first < second_end \<and> second < first_end))"

fun writable_regions_overlap :: "(usize \<times> usize \<times> bool) list \<Rightarrow> bool" where
  "writable_regions_overlap [] = False"
| "writable_regions_overlap ((first, first_len, first_mut) # rest) \<longleftrightarrow>
     list_ex (\<lambda>(second, second_len, second_mut).
       (first_mut \<or> second_mut) \<and> first_len > 0 \<and> second_len > 0 \<and>
       ranges_overlap first first_len second second_len) rest
     \<or> writable_regions_overlap rest"

definition session_encrypt_buffers_overlap ::
  "('ek, 'dk, 'vk, 'sk) crypto_layouts \<Rightarrow> usize \<Rightarrow> usize \<Rightarrow> usize \<Rightarrow> usize \<Rightarrow> usize \<Rightarrow> usize \<Rightarrow> usize \<Rightarrow> usize \<Rightarrow> bool" where
  "session_encrypt_buffers_overlap L manager aad aad_len plaintext ciphertext data_len out_nonce out_tag =
     (let manager_size = layout_size (l_session L) in
      ranges_overlap manager manager_size aad aad_len \<or>
      ranges_overlap manager manager_size plaintext data_len \<or>
      ranges_overlap manager manager_size ciphertext data_len \<or>
      ranges_overlap manager manager_size out_nonce 12 \<or>
      ranges_overlap manager manager_size out_tag 48 \<or>
      ranges_overlap ciphertext data_len aad aad_len \<or>
      ranges_overlap ciphertext data_len plaintext data_len \<or>
      ranges_overlap ciphertext data_len out_nonce 12 \<or>
      ranges_overlap ciphertext data_len out_tag 48 \<or>
      ranges_overlap out_nonce 12 aad aad_len \<or>
      ranges_overlap out_nonce 12 plaintext data_len \<or>
      ranges_overlap out_nonce 12 out_tag 48 \<or>
      ranges_overlap out_tag 48 aad aad_len \<or>
      ranges_overlap out_tag 48 plaintext data_len)"

definition session_decrypt_buffers_overlap ::
  "('ek, 'dk, 'vk, 'sk) crypto_layouts \<Rightarrow> usize \<Rightarrow> usize \<Rightarrow> usize \<Rightarrow> usize \<Rightarrow> usize \<Rightarrow> usize \<Rightarrow> usize \<Rightarrow> usize \<Rightarrow> bool" where
  "session_decrypt_buffers_overlap L manager aad aad_len ciphertext data_len nonce tag plaintext =
     (let manager_size = layout_size (l_session L) in
      ranges_overlap manager manager_size aad aad_len \<or>
      ranges_overlap manager manager_size ciphertext data_len \<or>
      ranges_overlap manager manager_size nonce 12 \<or>
      ranges_overlap manager manager_size tag 48 \<or>
      ranges_overlap manager manager_size plaintext data_len \<or>
      ranges_overlap plaintext data_len aad aad_len \<or>
      ranges_overlap plaintext data_len ciphertext data_len \<or>
      ranges_overlap plaintext data_len nonce 12 \<or>
      ranges_overlap plaintext data_len tag 48)"

subsection \<open>Session manager\<close>

definition shawncore_crypto_session_manager_init ::
  "('ek, 'dk, 'vk, 'sk) crypto_layouts \<Rightarrow> usize \<Rightarrow> ('ek, 'dk, 'vk, 'sk) crypto_ffi" where
  "shawncore_crypto_session_manager_init L manager =
     (if manager = 0
      then ret (crypto_err_code InvalidState)
      else if \<not> ptr_is_aligned (l_session L) manager
      then ret (crypto_err_code InvalidState)
      else seqP (write_obj (crypto_objs L) manager (ObjSession session_new))
           (ret CRYPTO_SUCCESS))"

definition shawncore_crypto_session_manager_destroy ::
  "('ek, 'dk, 'vk, 'sk) crypto_layouts \<Rightarrow> usize \<Rightarrow> ('ek, 'dk, 'vk, 'sk) crypto_ffi" where
  "shawncore_crypto_session_manager_destroy L manager =
     (if manager = 0
      then ret (crypto_err_code InvalidState)
      else if \<not> ptr_is_aligned (l_session L) manager
      then ret (crypto_err_code InvalidState)
      else seqP (on_obj (crypto_objs L) as_session ObjSession manager session_drop)
           (seqP (forget_obj manager)
           (ret CRYPTO_SUCCESS)))"

definition shawncore_crypto_session_manager_initiate_handshake ::
  "('ek, 'dk, 'vk, 'sk) prims \<Rightarrow> ('ek, 'dk, 'vk, 'sk) crypto_layouts \<Rightarrow> usize \<Rightarrow> usize \<Rightarrow> usize \<Rightarrow> usize \<Rightarrow> ('ek, 'dk, 'vk, 'sk) crypto_ffi" where
  "shawncore_crypto_session_manager_initiate_handshake P L manager entropy out_ml_kem_pk out_x25519_pk =
     (if manager = 0 \<or> entropy = 0 \<or> out_ml_kem_pk = 0 \<or> out_x25519_pk = 0
      then ret (crypto_err_code InvalidState)
      else if \<not> ptr_is_aligned (l_session L) manager \<or> \<not> ptr_is_aligned (l_kem_pk L) out_ml_kem_pk \<or>
         \<not> ptr_is_aligned (l_x_pub L) out_x25519_pk
      then ret (crypto_err_code InvalidState)
      else if ranges_overlap out_ml_kem_pk (layout_size (l_kem_pk L)) out_x25519_pk (layout_size (l_x_pub L)) \<or>
         ranges_overlap manager (layout_size (l_session L)) out_ml_kem_pk (layout_size (l_kem_pk L)) \<or>
         ranges_overlap manager (layout_size (l_session L)) out_x25519_pk (layout_size (l_x_pub L)) \<or>
         ranges_overlap manager (layout_size (l_session L)) entropy 96 \<or>
         ranges_overlap entropy 96 out_ml_kem_pk (layout_size (l_kem_pk L)) \<or>
         ranges_overlap entropy 96 out_x25519_pk (layout_size (l_x_pub L))
      then ret (crypto_err_code InvalidLength)
      else bindP (read_bytes entropy 96) (\<lambda>entropy_ref.
        bindP (on_obj (crypto_objs L) as_session ObjSession manager
          (initiate_handshake P entropy_ref)) (\<lambda>r.
        case r of
          Inr (ml_kem_pk, x25519_pk) \<Rightarrow> seqP (write_obj (crypto_objs L) out_ml_kem_pk (ObjKemPk ml_kem_pk))
           (seqP (write_obj (crypto_objs L) out_x25519_pk (ObjXPub x25519_pk))
           (ret CRYPTO_SUCCESS))
        | Inl e \<Rightarrow> ret (crypto_err_code e))))"

definition shawncore_crypto_session_manager_finalize_handshake ::
  "('ek, 'dk, 'vk, 'sk) prims \<Rightarrow> ('ek, 'dk, 'vk, 'sk) crypto_layouts \<Rightarrow> usize \<Rightarrow> usize \<Rightarrow> usize \<Rightarrow> usize \<Rightarrow> usize \<Rightarrow> usize \<Rightarrow> usize \<Rightarrow> ('ek, 'dk, 'vk, 'sk) crypto_ffi" where
  "shawncore_crypto_session_manager_finalize_handshake P L manager peer_x25519_pk ml_kem_ct salt salt_len info info_len =
     (if manager = 0 \<or> peer_x25519_pk = 0 \<or> ml_kem_ct = 0
      then ret (crypto_err_code InvalidState)
      else if \<not> ptr_is_aligned (l_session L) manager \<or> \<not> ptr_is_aligned (l_x_pub L) peer_x25519_pk \<or>
         \<not> ptr_is_aligned (l_kem_ct L) ml_kem_ct
      then ret (crypto_err_code InvalidState)
      else if (salt = 0 \<and> salt_len > 0) \<or> (info = 0 \<and> info_len > 0) \<or> \<not> range_ok salt salt_len \<or> \<not> range_ok info info_len
      then ret (crypto_err_code InvalidLength)
      else if ranges_overlap manager (layout_size (l_session L)) peer_x25519_pk (layout_size (l_x_pub L)) \<or>
         ranges_overlap manager (layout_size (l_session L)) ml_kem_ct (layout_size (l_kem_ct L)) \<or>
         ranges_overlap manager (layout_size (l_session L)) salt salt_len \<or>
         ranges_overlap manager (layout_size (l_session L)) info info_len
      then ret (crypto_err_code InvalidLength)
      else bindP (read_obj as_x_pub peer_x25519_pk) (\<lambda>peer_x25519_pk_ref.
        bindP (read_obj as_kem_ct ml_kem_ct) (\<lambda>ml_kem_ct_ref.
        bindP (slice_from_raw_parts salt salt_len) (\<lambda>salt_slice.
        bindP (slice_from_raw_parts info info_len) (\<lambda>info_slice.
        bindP (on_obj (crypto_objs L) as_session ObjSession manager
          (finalize_handshake P peer_x25519_pk_ref ml_kem_ct_ref salt_slice info_slice)) (\<lambda>r.
        ret (crypto_code r)))))))"

definition shawncore_crypto_session_manager_encapsulate_for_peer ::
  "('ek, 'dk, 'vk, 'sk) prims \<Rightarrow> ('ek, 'dk, 'vk, 'sk) crypto_layouts \<Rightarrow> usize \<Rightarrow> usize \<Rightarrow> usize \<Rightarrow> usize \<Rightarrow> usize \<Rightarrow> usize \<Rightarrow> usize \<Rightarrow> usize \<Rightarrow> usize \<Rightarrow> usize \<Rightarrow> ('ek, 'dk, 'vk, 'sk) crypto_ffi" where
  "shawncore_crypto_session_manager_encapsulate_for_peer P L manager peer_ml_kem_pk peer_x25519_pk entropy salt salt_len info info_len out_ct out_my_x25519_pk =
     (if manager = 0 \<or> peer_ml_kem_pk = 0 \<or> peer_x25519_pk = 0 \<or> entropy = 0 \<or> out_ct = 0 \<or>
         out_my_x25519_pk = 0
      then ret (crypto_err_code InvalidState)
      else if \<not> ptr_is_aligned (l_session L) manager \<or> \<not> ptr_is_aligned (l_kem_pk L) peer_ml_kem_pk \<or>
         \<not> ptr_is_aligned (l_x_pub L) peer_x25519_pk \<or> \<not> ptr_is_aligned (l_kem_ct L) out_ct \<or>
         \<not> ptr_is_aligned (l_x_pub L) out_my_x25519_pk
      then ret (crypto_err_code InvalidState)
      else if (salt = 0 \<and> salt_len > 0) \<or> (info = 0 \<and> info_len > 0) \<or> \<not> range_ok salt salt_len \<or> \<not> range_ok info info_len
      then ret (crypto_err_code InvalidLength)
      else if ranges_overlap out_ct (layout_size (l_kem_ct L)) out_my_x25519_pk (layout_size (l_x_pub L)) \<or>
         ranges_overlap out_ct (layout_size (l_kem_ct L)) peer_ml_kem_pk (layout_size (l_kem_pk L)) \<or>
         ranges_overlap out_ct (layout_size (l_kem_ct L)) peer_x25519_pk (layout_size (l_x_pub L)) \<or>
         ranges_overlap out_ct (layout_size (l_kem_ct L)) manager (layout_size (l_session L)) \<or>
         ranges_overlap out_ct (layout_size (l_kem_ct L)) entropy 64 \<or>
         ranges_overlap out_ct (layout_size (l_kem_ct L)) salt salt_len \<or>
         ranges_overlap out_ct (layout_size (l_kem_ct L)) info info_len \<or>
         ranges_overlap out_my_x25519_pk (layout_size (l_x_pub L)) peer_ml_kem_pk (layout_size (l_kem_pk L)) \<or>
         ranges_overlap out_my_x25519_pk (layout_size (l_x_pub L)) peer_x25519_pk (layout_size (l_x_pub L)) \<or>
         ranges_overlap out_my_x25519_pk (layout_size (l_x_pub L)) manager (layout_size (l_session L)) \<or>
         ranges_overlap out_my_x25519_pk (layout_size (l_x_pub L)) entropy 64 \<or>
         ranges_overlap out_my_x25519_pk (layout_size (l_x_pub L)) salt salt_len \<or>
         ranges_overlap out_my_x25519_pk (layout_size (l_x_pub L)) info info_len \<or>
         ranges_overlap manager (layout_size (l_session L)) peer_ml_kem_pk (layout_size (l_kem_pk L)) \<or>
         ranges_overlap manager (layout_size (l_session L)) peer_x25519_pk (layout_size (l_x_pub L)) \<or>
         ranges_overlap manager (layout_size (l_session L)) entropy 64 \<or>
         ranges_overlap manager (layout_size (l_session L)) salt salt_len \<or>
         ranges_overlap manager (layout_size (l_session L)) info info_len
      then ret (crypto_err_code InvalidLength)
      else bindP (read_obj as_kem_pk peer_ml_kem_pk) (\<lambda>peer_ml_kem_pk_ref.
        bindP (read_obj as_x_pub peer_x25519_pk) (\<lambda>peer_x25519_pk_ref.
        bindP (read_bytes entropy 64) (\<lambda>entropy_ref.
        bindP (slice_from_raw_parts salt salt_len) (\<lambda>salt_slice.
        bindP (slice_from_raw_parts info info_len) (\<lambda>info_slice.
        bindP (on_obj (crypto_objs L) as_session ObjSession manager
          (encapsulate_for_peer P peer_ml_kem_pk_ref peer_x25519_pk_ref entropy_ref salt_slice info_slice
            (zeros 1568) (zeros 32))) (\<lambda>(r, ct, my_pk).
        case r of
          Inr _ \<Rightarrow> seqP (write_obj (crypto_objs L) out_ct (ObjKemCt ct))
           (seqP (write_obj (crypto_objs L) out_my_x25519_pk (ObjXPub my_pk))
           (ret CRYPTO_SUCCESS))
        | Inl e \<Rightarrow> ret (crypto_err_code e))))))))"

definition shawncore_crypto_session_manager_encapsulate_authenticated_v2 ::
  "('ek, 'dk, 'vk, 'sk) prims \<Rightarrow> ('ek, 'dk, 'vk, 'sk) crypto_layouts \<Rightarrow> usize \<Rightarrow> usize \<Rightarrow> usize \<Rightarrow> usize \<Rightarrow> usize \<Rightarrow> usize \<Rightarrow> usize \<Rightarrow> usize \<Rightarrow> usize \<Rightarrow> usize \<Rightarrow> usize \<Rightarrow> usize \<Rightarrow> usize \<Rightarrow> usize \<Rightarrow> ('ek, 'dk, 'vk, 'sk) crypto_ffi" where
  "shawncore_crypto_session_manager_encapsulate_authenticated_v2 P L manager own_signing_key peer_verifying_key peer_ml_kem_pk peer_x25519_pk entropy salt salt_len app_info app_info_len out_ct out_my_x25519_pk out_signature out_confirmation =
     (if manager = 0 \<or> own_signing_key = 0 \<or> peer_verifying_key = 0 \<or> peer_ml_kem_pk = 0 \<or> peer_x25519_pk = 0 \<or>
         entropy = 0 \<or> out_ct = 0 \<or> out_my_x25519_pk = 0 \<or> out_signature = 0 \<or> out_confirmation = 0
      then ret (crypto_err_code InvalidState)
      else if \<not> ptr_is_aligned (l_session L) manager \<or> \<not> ptr_is_aligned (l_dsa_sk L) own_signing_key \<or>
         \<not> ptr_is_aligned (l_dsa_pk L) peer_verifying_key \<or> \<not> ptr_is_aligned (l_kem_pk L) peer_ml_kem_pk \<or>
         \<not> ptr_is_aligned (l_x_pub L) peer_x25519_pk \<or> \<not> ptr_is_aligned (l_kem_ct L) out_ct \<or>
         \<not> ptr_is_aligned (l_x_pub L) out_my_x25519_pk \<or> \<not> ptr_is_aligned (l_dsa_sig L) out_signature
      then ret (crypto_err_code InvalidState)
      else if (salt = 0 \<and> salt_len > 0) \<or> (app_info = 0 \<and> app_info_len > 0) \<or> \<not> range_ok salt salt_len \<or>
         app_info_len > MAX_APP_INFO_LEN \<or> \<not> range_ok app_info app_info_len
      then ret (crypto_err_code InvalidLength)
      else if writable_regions_overlap
          [(manager, layout_size (l_session L), True),
           (own_signing_key, layout_size (l_dsa_sk L), False),
           (peer_verifying_key, layout_size (l_dsa_pk L), False),
           (peer_ml_kem_pk, layout_size (l_kem_pk L), False),
           (peer_x25519_pk, layout_size (l_x_pub L), False),
           (entropy, 64, False),
           (salt, salt_len, False),
           (app_info, app_info_len, False),
           (out_ct, layout_size (l_kem_ct L), True),
           (out_my_x25519_pk, layout_size (l_x_pub L), True),
           (out_signature, layout_size (l_dsa_sig L), True),
           (out_confirmation, 48, True)]
      then ret (crypto_err_code InvalidLength)
      else bindP (read_bytes entropy 64) (\<lambda>entropy_ref.
        bindP (slice_from_raw_parts salt salt_len) (\<lambda>salt_slice.
        bindP (slice_from_raw_parts app_info app_info_len) (\<lambda>app_info_slice.
        bindP (read_obj as_dsa_sk own_signing_key) (\<lambda>own_signing_key_ref.
        bindP (read_obj as_dsa_pk peer_verifying_key) (\<lambda>peer_verifying_key_ref.
        bindP (read_obj as_kem_pk peer_ml_kem_pk) (\<lambda>peer_ml_kem_pk_ref.
        bindP (read_obj as_x_pub peer_x25519_pk) (\<lambda>peer_x25519_pk_ref.
        bindP (on_obj (crypto_objs L) as_session ObjSession manager
          (encapsulate_authenticated P own_signing_key_ref peer_verifying_key_ref peer_ml_kem_pk_ref
            peer_x25519_pk_ref entropy_ref salt_slice app_info_slice
            (zeros 1568) (zeros 32) (zeros 4627) (zeros 48))) (\<lambda>(r, ct, my_pk, signature, confirmation).
        case r of
          Inr _ \<Rightarrow> seqP (write_obj (crypto_objs L) out_ct (ObjKemCt ct))
           (seqP (write_obj (crypto_objs L) out_my_x25519_pk (ObjXPub my_pk))
           (seqP (write_obj (crypto_objs L) out_signature (ObjDsaSig signature))
           (seqP (write_slice (crypto_objs L) out_confirmation 48 confirmation)
           (ret CRYPTO_SUCCESS))))
        | Inl e \<Rightarrow> ret (crypto_err_code e))))))))))"

definition shawncore_crypto_session_manager_finalize_authenticated_v2 ::
  "('ek, 'dk, 'vk, 'sk) prims \<Rightarrow> ('ek, 'dk, 'vk, 'sk) crypto_layouts \<Rightarrow> usize \<Rightarrow> usize \<Rightarrow> usize \<Rightarrow> usize \<Rightarrow> usize \<Rightarrow> usize \<Rightarrow> usize \<Rightarrow> usize \<Rightarrow> usize \<Rightarrow> usize \<Rightarrow> usize \<Rightarrow> usize \<Rightarrow> usize \<Rightarrow> ('ek, 'dk, 'vk, 'sk) crypto_ffi" where
  "shawncore_crypto_session_manager_finalize_authenticated_v2 P L manager own_signing_key peer_verifying_key peer_x25519_pk ml_kem_ct peer_signature peer_confirmation salt salt_len app_info app_info_len out_signature out_confirmation =
     (if manager = 0 \<or> own_signing_key = 0 \<or> peer_verifying_key = 0 \<or> peer_x25519_pk = 0 \<or> ml_kem_ct = 0 \<or>
         peer_signature = 0 \<or> peer_confirmation = 0 \<or> out_signature = 0 \<or> out_confirmation = 0
      then ret (crypto_err_code InvalidState)
      else if \<not> ptr_is_aligned (l_session L) manager \<or> \<not> ptr_is_aligned (l_dsa_sk L) own_signing_key \<or>
         \<not> ptr_is_aligned (l_dsa_pk L) peer_verifying_key \<or> \<not> ptr_is_aligned (l_x_pub L) peer_x25519_pk \<or>
         \<not> ptr_is_aligned (l_kem_ct L) ml_kem_ct \<or> \<not> ptr_is_aligned (l_dsa_sig L) peer_signature \<or>
         \<not> ptr_is_aligned (l_dsa_sig L) out_signature
      then ret (crypto_err_code InvalidState)
      else if (salt = 0 \<and> salt_len > 0) \<or> (app_info = 0 \<and> app_info_len > 0) \<or> \<not> range_ok salt salt_len \<or>
         app_info_len > MAX_APP_INFO_LEN \<or> \<not> range_ok app_info app_info_len
      then ret (crypto_err_code InvalidLength)
      else if writable_regions_overlap
          [(manager, layout_size (l_session L), True),
           (own_signing_key, layout_size (l_dsa_sk L), False),
           (peer_verifying_key, layout_size (l_dsa_pk L), False),
           (peer_x25519_pk, layout_size (l_x_pub L), False),
           (ml_kem_ct, layout_size (l_kem_ct L), False),
           (peer_signature, layout_size (l_dsa_sig L), False),
           (salt, salt_len, False),
           (app_info, app_info_len, False),
           (peer_confirmation, 48, False),
           (out_signature, layout_size (l_dsa_sig L), True),
           (out_confirmation, 48, True)]
      then ret (crypto_err_code InvalidLength)
      else bindP (slice_from_raw_parts salt salt_len) (\<lambda>salt_slice.
        bindP (slice_from_raw_parts app_info app_info_len) (\<lambda>app_info_slice.
        bindP (read_obj as_dsa_sk own_signing_key) (\<lambda>own_signing_key_ref.
        bindP (read_obj as_dsa_pk peer_verifying_key) (\<lambda>peer_verifying_key_ref.
        bindP (read_obj as_x_pub peer_x25519_pk) (\<lambda>peer_x25519_pk_ref.
        bindP (read_obj as_kem_ct ml_kem_ct) (\<lambda>ml_kem_ct_ref.
        bindP (read_obj as_dsa_sig peer_signature) (\<lambda>peer_signature_ref.
        bindP (read_bytes peer_confirmation 48) (\<lambda>peer_confirmation_ref.
        bindP (on_obj (crypto_objs L) as_session ObjSession manager
          (finalize_authenticated P own_signing_key_ref peer_verifying_key_ref peer_x25519_pk_ref ml_kem_ct_ref
            peer_signature_ref peer_confirmation_ref salt_slice app_info_slice (zeros 4627) (zeros 48))) (\<lambda>(r, signature, confirmation).
        case r of
          Inr _ \<Rightarrow> seqP (write_obj (crypto_objs L) out_signature (ObjDsaSig signature))
           (seqP (write_slice (crypto_objs L) out_confirmation 48 confirmation)
           (ret CRYPTO_SUCCESS))
        | Inl e \<Rightarrow> ret (crypto_err_code e)))))))))))"

definition shawncore_crypto_session_manager_confirm_peer_v2 ::
  "('ek, 'dk, 'vk, 'sk) prims \<Rightarrow> ('ek, 'dk, 'vk, 'sk) crypto_layouts \<Rightarrow> usize \<Rightarrow> usize \<Rightarrow> usize \<Rightarrow> usize \<Rightarrow> ('ek, 'dk, 'vk, 'sk) crypto_ffi" where
  "shawncore_crypto_session_manager_confirm_peer_v2 P L manager peer_verifying_key peer_signature peer_confirmation =
     (if manager = 0 \<or> peer_verifying_key = 0 \<or> peer_signature = 0 \<or> peer_confirmation = 0
      then ret (crypto_err_code InvalidState)
      else if \<not> ptr_is_aligned (l_session L) manager \<or> \<not> ptr_is_aligned (l_dsa_pk L) peer_verifying_key \<or>
         \<not> ptr_is_aligned (l_dsa_sig L) peer_signature
      then ret (crypto_err_code InvalidState)
      else if writable_regions_overlap
          [(manager, layout_size (l_session L), True),
           (peer_verifying_key, layout_size (l_dsa_pk L), False),
           (peer_signature, layout_size (l_dsa_sig L), False),
           (peer_confirmation, 48, False)]
      then ret (crypto_err_code InvalidLength)
      else bindP (read_obj as_dsa_pk peer_verifying_key) (\<lambda>peer_verifying_key_ref.
        bindP (read_obj as_dsa_sig peer_signature) (\<lambda>peer_signature_ref.
        bindP (read_bytes peer_confirmation 48) (\<lambda>peer_confirmation_ref.
        bindP (on_obj (crypto_objs L) as_session ObjSession manager
          (confirm_peer P peer_verifying_key_ref peer_signature_ref peer_confirmation_ref)) (\<lambda>r.
        ret (crypto_code r))))))"

definition shawncore_crypto_session_manager_zeroize ::
  "('ek, 'dk, 'vk, 'sk) crypto_layouts \<Rightarrow> usize \<Rightarrow> ('ek, 'dk, 'vk, 'sk) crypto_ffi" where
  "shawncore_crypto_session_manager_zeroize L manager =
     (if manager = 0
      then ret (crypto_err_code InvalidState)
      else if \<not> ptr_is_aligned (l_session L) manager
      then ret (crypto_err_code InvalidState)
      else seqP (on_obj (crypto_objs L) as_session ObjSession manager zeroize_session)
           (ret CRYPTO_SUCCESS))"

definition shawncore_crypto_session_manager_encrypt_packet ::
  "('ek, 'dk, 'vk, 'sk) prims \<Rightarrow> ('ek, 'dk, 'vk, 'sk) crypto_layouts \<Rightarrow> usize \<Rightarrow> usize \<Rightarrow> usize \<Rightarrow> usize \<Rightarrow> usize \<Rightarrow> usize \<Rightarrow> usize \<Rightarrow> usize \<Rightarrow> ('ek, 'dk, 'vk, 'sk) crypto_ffi" where
  "shawncore_crypto_session_manager_encrypt_packet P L manager aad aad_len plaintext ciphertext data_len out_nonce out_tag =
     (if manager = 0 \<or> \<not> ptr_is_aligned (l_session L) manager \<or> (plaintext = 0 \<and> data_len > 0) \<or> (ciphertext = 0 \<and> data_len > 0) \<or>
         out_nonce = 0 \<or> out_tag = 0 \<or> (aad = 0 \<and> aad_len > 0) \<or> \<not> range_ok aad aad_len \<or>
         \<not> packet_len_valid data_len \<or> \<not> range_ok plaintext data_len \<or> \<not> range_ok ciphertext data_len \<or>
         session_encrypt_buffers_overlap L manager aad aad_len plaintext ciphertext data_len out_nonce out_tag
      then ret (crypto_err_code InvalidLength)
      else bindP (slice_from_raw_parts aad aad_len) (\<lambda>aad_slice.
        bindP (slice_from_raw_parts plaintext data_len) (\<lambda>plaintext_slice.
        bindP (slice_from_raw_parts ciphertext data_len) (\<lambda>ciphertext_slice.
        bindP (read_bytes out_nonce 12) (\<lambda>nonce.
        bindP (read_bytes out_tag 48) (\<lambda>tag.
        bindP (on_obj (crypto_objs L) as_session ObjSession manager
          (encrypt_packet P aad_slice plaintext_slice ciphertext_slice nonce tag)) (\<lambda>(r, ciphertext', nonce', tag').
        seqP (write_slice (crypto_objs L) ciphertext (unat data_len) ciphertext')
       (seqP (write_slice (crypto_objs L) out_nonce 12 nonce')
       (seqP (write_slice (crypto_objs L) out_tag 48 tag')
             (ret (crypto_code r)))))))))))"

definition shawncore_crypto_session_manager_decrypt_packet ::
  "('ek, 'dk, 'vk, 'sk) prims \<Rightarrow> ('ek, 'dk, 'vk, 'sk) crypto_layouts \<Rightarrow> usize \<Rightarrow> usize \<Rightarrow> usize \<Rightarrow> usize \<Rightarrow> usize \<Rightarrow> usize \<Rightarrow> usize \<Rightarrow> usize \<Rightarrow> ('ek, 'dk, 'vk, 'sk) crypto_ffi" where
  "shawncore_crypto_session_manager_decrypt_packet P L manager aad aad_len ciphertext data_len nonce tag plaintext =
     (if manager = 0 \<or> \<not> ptr_is_aligned (l_session L) manager \<or> (ciphertext = 0 \<and> data_len > 0) \<or> nonce = 0 \<or> tag = 0 \<or>
         (plaintext = 0 \<and> data_len > 0) \<or> (aad = 0 \<and> aad_len > 0) \<or> \<not> range_ok aad aad_len \<or>
         \<not> packet_len_valid data_len \<or> \<not> range_ok ciphertext data_len \<or> \<not> range_ok plaintext data_len \<or>
         session_decrypt_buffers_overlap L manager aad aad_len ciphertext data_len nonce tag plaintext
      then ret (crypto_err_code InvalidLength)
      else bindP (slice_from_raw_parts aad aad_len) (\<lambda>aad_slice.
        bindP (slice_from_raw_parts ciphertext data_len) (\<lambda>ciphertext_slice.
        bindP (read_bytes nonce 12) (\<lambda>nonce_ref.
        bindP (read_bytes tag 48) (\<lambda>tag_ref.
        bindP (slice_from_raw_parts plaintext data_len) (\<lambda>plaintext_slice.
        bindP (on_obj (crypto_objs L) as_session ObjSession manager
          (decrypt_packet P aad_slice ciphertext_slice nonce_ref tag_ref plaintext_slice)) (\<lambda>(r, plaintext').
        seqP (write_slice (crypto_objs L) plaintext (unat data_len) plaintext')
             (ret (crypto_code r)))))))))"

end
