(* ===== verification/Entropy_Queue.thy ===== *)
theory Entropy_Queue
  imports Crypto_Host Bounded_Fifo
begin

text \<open>
  The entropy queue (entropy_queue.rs): a fixed ring of 64 chunks with free-running indices.  A
  popped slot is overwritten with zeros before its index is released.
\<close>

definition ENTROPY_CHUNK_SIZE :: nat where
  "ENTROPY_CHUNK_SIZE = 32"

definition ENTROPY_QUEUE_SIZE :: nat where
  "ENTROPY_QUEUE_SIZE = 64"

record entropy_queue =
  eq_buffer :: "bytes list"
  eq_head :: usize
  eq_tail :: usize

definition entropy_queue_new :: entropy_queue where
  "entropy_queue_new = \<lparr>eq_buffer = replicate ENTROPY_QUEUE_SIZE (zeros ENTROPY_CHUNK_SIZE),
     eq_head = 0, eq_tail = 0\<rparr>"

definition entropy_queue_push :: "bytes \<Rightarrow> (entropy_queue, crypto_error + unit) prog" where
  "entropy_queue_push item q =
     (let hd_ix = eq_head q; tl_ix = eq_tail q in
      if ENTROPY_QUEUE_SIZE \<le> unat (hd_ix - tl_ix) then Ret (Err InvalidState) q
      else
        let index = slot_index ENTROPY_QUEUE_SIZE hd_ix in
        Ret (Ok ()) (q\<lparr>eq_buffer := (eq_buffer q)[index := item], eq_head := hd_ix + 1\<rparr>))"

definition entropy_queue_pop :: "(entropy_queue, bytes option) prog" where
  "entropy_queue_pop q =
     (let tl_ix = eq_tail q; hd_ix = eq_head q in
      if hd_ix = tl_ix then Ret None q
      else
        let index = slot_index ENTROPY_QUEUE_SIZE tl_ix; item = eq_buffer q ! index in
        Ret (Some item) (q\<lparr>eq_buffer := (eq_buffer q)[index := secure_zeroize item], eq_tail := tl_ix + 1\<rparr>))"

subsection \<open>Invariant and contents\<close>

definition eq_live :: "entropy_queue \<Rightarrow> nat list" where
  "eq_live q = live 64 (eq_tail q) (eq_head q)"

definition eq_contents :: "entropy_queue \<Rightarrow> bytes list" where
  "eq_contents q = map (\<lambda>i. eq_buffer q ! i) (eq_live q)"

text \<open>At most 64 chunks are queued, and every slot that holds none is zero.\<close>

definition eq_inv :: "entropy_queue \<Rightarrow> bool" where
  "eq_inv q \<longleftrightarrow> length (eq_buffer q) = 64 \<and> unat (eq_head q - eq_tail q) \<le> 64 \<and>
     (\<forall>i < 64. i \<notin> set (eq_live q) \<longrightarrow> set (eq_buffer q ! i) \<subseteq> {0})"

lemma eq_inv_new: "eq_inv entropy_queue_new" "eq_contents entropy_queue_new = []"
  by (simp_all add: eq_inv_def eq_contents_def eq_live_def entropy_queue_new_def ENTROPY_QUEUE_SIZE_def zeros_def
      set_replicate_conv_if)

lemma length_eq_contents [simp]: "length (eq_contents q) = unat (eq_head q - eq_tail q)"
  by (simp add: eq_contents_def eq_live_def)

lemma dvd_64: "(64 :: nat) dvd 2 ^ 64"
  by simp

lemma slot_64 [simp]: "slot_index 64 w < 64"
  by (simp add: slot_index_less)

lemma entropy_push_room:
  assumes "eq_inv q" "unat (eq_head q - eq_tail q) < 64"
  shows "\<exists>q'. entropy_queue_push x q = Ret (Ok ()) q' \<and> eq_inv q' \<and> eq_contents q' = eq_contents q @ [x]"
proof -
  have lt: "unat (eq_head q - eq_tail q) < 2 ^ 64 - 1" using assms(2) by simp
  note lv = live_push [OF lt, of 64]
  have nl: "slot_index 64 (eq_head q) \<notin> set (live 64 (eq_tail q) (eq_head q))"
    using assms(2) by (intro head_not_live dvd_64) simp_all
  show ?thesis
    using assms nl unat_sub_Suc [OF lt]
    by (auto simp: entropy_queue_push_def Let_def ENTROPY_QUEUE_SIZE_def eq_inv_def eq_contents_def eq_live_def
        lv nth_list_update)
qed

lemma entropy_pop_next:
  assumes "eq_inv q" "eq_contents q = x # xs"
  shows "\<exists>q'. entropy_queue_pop q = Ret (Some x) q' \<and> eq_inv q' \<and> eq_contents q' = xs"
proof -
  have ne: "eq_head q \<noteq> eq_tail q" using assms(2) by (auto simp: eq_contents_def eq_live_def)
  note lv = live_pop [OF ne, of 64]
  have nl: "slot_index 64 (eq_tail q) \<notin> set (live 64 (eq_tail q + 1) (eq_head q))"
    using assms(1) ne by (intro tail_not_live dvd_64) (simp_all add: eq_inv_def)
  show ?thesis
    using assms ne nl unat_sub_pos [OF ne]
    by (auto simp: entropy_queue_pop_def Let_def ENTROPY_QUEUE_SIZE_def eq_inv_def eq_contents_def eq_live_def
        lv nth_list_update secure_zeroize_def zeros_def)
qed

lemma entropy_pop_empty: "eq_contents q = [] \<Longrightarrow> entropy_queue_pop q = Ret None q"
  by (auto simp: entropy_queue_pop_def eq_contents_def eq_live_def live_def unat_eq_0)

interpretation entropy_fifo: bounded_fifo entropy_queue_push entropy_queue_pop eq_inv eq_contents 64 InvalidState
proof (unfold_locales, goal_cases)
  case (1 s x)
  then show ?case by (intro entropy_push_room) simp_all
next
  case (2 s x)
  then show ?case by (simp add: entropy_queue_push_def ENTROPY_QUEUE_SIZE_def)
next
  case (3 s)
  then show ?case by (simp add: entropy_pop_empty)
next
  case (4 s x xs)
  then show ?case by (rule entropy_pop_next)
qed

subsection \<open>Properties\<close>

text \<open>
  C38: The entropy queue is a bounded first-in first-out queue and keeps no consumed secret.  From a
  new queue, any sequence of pushes and pops returns what the same operations on a list of at most
  64 chunks return, and at the end every slot that is not occupied contains only zero bytes.
\<close>

theorem entropy_queue_fifo_and_wiped:
  "\<exists>q. run_fifo entropy_queue_push entropy_queue_pop ops entropy_queue_new =
     Ret (fst (spec_fifo 64 InvalidState ops [])) q \<and>
   eq_contents q = snd (spec_fifo 64 InvalidState ops []) \<and>
   list_all (\<lambda>i. i \<in> set (eq_live q) \<or> set (eq_buffer q ! i) \<subseteq> {0}) [0..<64]"
proof -
  obtain q where "run_fifo entropy_queue_push entropy_queue_pop ops entropy_queue_new =
      Ret (fst (spec_fifo 64 InvalidState ops [])) q" "eq_inv q"
    "eq_contents q = snd (spec_fifo 64 InvalidState ops [])"
    using entropy_fifo.run_refines [OF eq_inv_new(1), of ops] by (auto simp: eq_inv_new(2))
  moreover from this have "list_all (\<lambda>i. i \<in> set (eq_live q) \<or> set (eq_buffer q ! i) \<subseteq> {0}) [0..<64]"
    unfolding list_all_iff eq_inv_def by (metis atLeastLessThan_iff set_upt)
  ultimately show ?thesis by blast
qed

end
