(* ===== verification/Entropy_Pool.thy ===== *)
theory Entropy_Pool
  imports Entropy_Queue Crypto_Prims
begin

text \<open>
  The entropy pool (entropy_pool.rs) with its interrupt-safe lock, its operation gate, the global
  queue and the global consumer gate.  Operations run one at a time here; a lock that another owner
  holds makes the caller spin, which is the outcome \<open>Running\<close>.
\<close>

definition MAX_MIX_CHUNKS_PER_CALL :: nat where
  "MAX_MIX_CHUNKS_PER_CALL = 8"

record entropy_state =
  entropy_q :: entropy_queue
  consumer_gate :: bool
  pool_locked :: bool
  pool_data :: bytes
  reseed_count :: u64
  mixing :: bool

type_synonym 'a entropy_prog = "(entropy_state \<times> crypto_host, 'a) prog"

definition entropy_state_new :: entropy_state where
  "entropy_state_new = \<lparr>entropy_q = entropy_queue_new, consumer_gate = False, pool_locked = False,
     pool_data = zeros 48, reseed_count = 0, mixing = False\<rparr>"

definition crypto_spinlock_lock :: "usize entropy_prog" where
  "crypto_spinlock_lock =
     bindP (hostP crypto_disable_and_save) (\<lambda>saved_flags.
     bindP getP (\<lambda>e.
       if pool_locked e then (\<lambda>s. Running s)
       else seqP (modP (\<lambda>e. e\<lparr>pool_locked := True\<rparr>)) (ret saved_flags)))"

definition crypto_spinlock_drop :: "usize \<Rightarrow> unit entropy_prog" where
  "crypto_spinlock_drop saved_flags =
     seqP (modP (\<lambda>e. e\<lparr>pool_locked := False\<rparr>)) (hostP (crypto_restore saved_flags))"

definition global_pop :: "bytes option entropy_prog" where
  "global_pop = (\<lambda>(e, h). case entropy_queue_pop (entropy_q e) of
       Ret r q \<Rightarrow> Ret r (e\<lparr>entropy_q := q\<rparr>, h)
     | Halt q \<Rightarrow> Halt (e\<lparr>entropy_q := q\<rparr>, h)
     | Panic q \<Rightarrow> Panic (e\<lparr>entropy_q := q\<rparr>, h)
     | Running q \<Rightarrow> Running (e\<lparr>entropy_q := q\<rparr>, h)
     | Undef \<Rightarrow> Undef)"

text \<open>The bounded loop over the queue: the bytes hashed so far and whether any chunk was mixed.\<close>

primrec mix_loop :: "nat \<Rightarrow> bytes \<Rightarrow> bool \<Rightarrow> (bytes \<times> bool) entropy_prog" where
  "mix_loop 0 hashed mixed = ret (hashed, mixed)"
| "mix_loop (Suc n) hashed mixed =
     bindP global_pop (\<lambda>r. case r of
       None \<Rightarrow> ret (hashed, mixed)
     | Some chunk \<Rightarrow> mix_loop n (hashed @ chunk) True)"

definition mix_entropy_under_gate :: "('ek, 'dk, 'vk, 'sk) prims \<Rightarrow> unit entropy_prog" where
  "mix_entropy_under_gate P =
     bindP getP (\<lambda>e.
       if consumer_gate e then ret ()
       else
         seqP (modP (\<lambda>e. e\<lparr>consumer_gate := True\<rparr>))
        (bindP (mix_loop MAX_MIX_CHUNKS_PER_CALL [] False) (\<lambda>(hashed, mixed).
           seqP
             (if \<not> mixed then ret ()
              else
                let queue_digest = sha384_digest P hashed in
                bindP crypto_spinlock_lock (\<lambda>saved_flags.
                seqP (modP (\<lambda>e. e\<lparr>pool_data := sha384_digest P (pool_data e @ queue_digest)\<rparr>))
               (seqP (crypto_spinlock_drop saved_flags)
               (bindP getP (\<lambda>e.
                seqP (hostP (secure_cache_flush_raw (pool_data e)))
                     (modP (\<lambda>e. e\<lparr>reseed_count := reseed_count e + 1\<rparr>)))))))
             (modP (\<lambda>e. e\<lparr>consumer_gate := False\<rparr>)))))"

definition mix_entropy :: "('ek, 'dk, 'vk, 'sk) prims \<Rightarrow> unit entropy_prog" where
  "mix_entropy P =
     bindP getP (\<lambda>e.
       if mixing e then ret ()
       else
         seqP (modP (\<lambda>e. e\<lparr>mixing := True\<rparr>))
        (seqP (mix_entropy_under_gate P)
              (modP (\<lambda>e. e\<lparr>mixing := False\<rparr>))))"

text \<open>The extraction loop; the argument is the number of output bytes still to be written.\<close>

function extract_loop :: "('ek, 'dk, 'vk, 'sk) prims \<Rightarrow> nat \<Rightarrow> bytes entropy_prog" where
  "extract_loop P n =
     (if n = 0 then ret []
      else
        bindP crypto_spinlock_lock (\<lambda>flags.
        bindP getP (\<lambda>e.
        let state_snapshot = pool_data e in
        seqP (crypto_spinlock_drop flags)
       (let out_result = sha384_digest P (0 # state_snapshot);
            state_result = sha384_digest P (1 # state_snapshot);
            copy_len = min 48 n
        in bindP crypto_spinlock_lock (\<lambda>flags.
           seqP (modP (\<lambda>e. e\<lparr>pool_data := state_result\<rparr>))
          (seqP (crypto_spinlock_drop flags)
          (bindP (extract_loop P (n - copy_len)) (\<lambda>rest.
             ret (take copy_len out_result @ rest)))))))))"
  by pat_completeness auto

termination extract_loop
  by (relation "measure snd") auto

declare extract_loop.simps [simp del]

definition extract_entropy ::
  "('ek, 'dk, 'vk, 'sk) prims \<Rightarrow> bytes \<Rightarrow> ((crypto_error + unit) \<times> bytes) entropy_prog" where
  "extract_entropy P out =
     bindP getP (\<lambda>e.
       if mixing e then ret (Err EntropyBusy, out)
       else
         seqP (modP (\<lambda>e. e\<lparr>mixing := True\<rparr>))
        (seqP (mix_entropy_under_gate P)
        (bindP getP (\<lambda>e.
         bindP
           (if reseed_count e = 0 then ret (Err EntropyStarvation, out)
            else
              bindP (extract_loop P (length out)) (\<lambda>out'.
              bindP getP (\<lambda>e.
              seqP (hostP (secure_cache_flush_raw (pool_data e)))
                   (ret (Ok (), out')))))
           (\<lambda>result. seqP (modP (\<lambda>e. e\<lparr>mixing := False\<rparr>)) (ret result))))))"

subsection \<open>Evaluation\<close>

definition entropy_host :: "crypto_host \<Rightarrow> bool" where
  "entropy_host h \<longleftrightarrow> crypto_disable_cb h \<noteq> 0 \<and> crypto_restore_cb h \<noteq> 0 \<and> crypto_flush_cb h \<noteq> 0"

text \<open>
  What one critical section does to the host: interrupts are disabled, and restored with exactly
  the flags that disabling returned.
\<close>

definition masked :: "crypto_host \<Rightarrow> crypto_host" where
  "masked h =
     (let h1 = crypto_log (crypto_disable_cb h) CryptoDisableInterrupts h in
      crypto_log (crypto_restore_cb h) (CryptoRestoreInterrupts (crypto_reply h (crypto_calls h1))) h1)"

lemma entropy_host_simps [simp]:
  "entropy_host (masked h) = entropy_host h" "entropy_host (flushed bs h) = entropy_host h"
  by (simp_all add: entropy_host_def masked_def Let_def)

lemma entropy_host_masked_pow [simp]: "entropy_host ((masked ^^ n) h) = entropy_host h"
  by (induction n) simp_all

lemma flush_raw_eval [simp]: "entropy_host h \<Longrightarrow> secure_cache_flush_raw bs h = Ret () (flushed bs h)"
  using secure_cache_flush_set [of h bs] by (simp add: entropy_host_def secure_cache_flush_def)

lemmas entropy_progs = getP_def modP_def hostP_def ret_def

lemma lock_eval:
  assumes "entropy_host h" "\<not> pool_locked e"
  shows "crypto_spinlock_lock (e, h) =
    (let h1 = crypto_log (crypto_disable_cb h) CryptoDisableInterrupts h in
     Ret (crypto_reply h (crypto_calls h1)) (e\<lparr>pool_locked := True\<rparr>, h1))"
  using assms
  by (simp add: crypto_spinlock_lock_def crypto_disable_and_save_def crypto_call_host_def entropy_host_def
      entropy_progs Let_def)

lemma section_eval:
  assumes "entropy_host h" "\<not> pool_locked e"
  shows "bindP crypto_spinlock_lock (\<lambda>flags. seqP (modP f) (seqP (crypto_spinlock_drop flags) m)) (e, h) =
    m ((f (e\<lparr>pool_locked := True\<rparr>))\<lparr>pool_locked := False\<rparr>, masked h)"
    and "bindP crypto_spinlock_lock (\<lambda>flags. bindP getP (\<lambda>e. seqP (crypto_spinlock_drop flags) (k e))) (e, h) =
    k (e\<lparr>pool_locked := True\<rparr>) (e\<lparr>pool_locked := False\<rparr>, masked h)"
  using assms
  by (simp_all add: lock_eval [OF assms] Let_def crypto_spinlock_drop_def crypto_restore_def
      crypto_call_host_def entropy_progs entropy_host_def masked_def)

lemma mix_loop_eval:
  assumes "eq_inv (entropy_q e)"
  shows "\<exists>q. mix_loop n hashed mixed (e, h) =
      Ret (hashed @ concat (take n (eq_contents (entropy_q e))), mixed \<or> take n (eq_contents (entropy_q e)) \<noteq> [])
        (e\<lparr>entropy_q := q\<rparr>, h) \<and>
    eq_inv q \<and> eq_contents q = drop n (eq_contents (entropy_q e))"
  using assms
proof (induction n arbitrary: e hashed mixed)
  case 0
  then show ?case by (auto simp: ret_def intro: exI [of _ "entropy_q e"])
next
  case (Suc n)
  show ?case
  proof (cases "eq_contents (entropy_q e)")
    case Nil
    then show ?thesis
      using Suc.prems entropy_fifo.pop_empty [OF Suc.prems Nil]
      by (auto simp: global_pop_def ret_def intro: exI [of _ "entropy_q e"])
  next
    case (Cons x xs)
    obtain q1 where q1: "entropy_queue_pop (entropy_q e) = Ret (Some x) q1" "eq_inv q1" "eq_contents q1 = xs"
      using entropy_fifo.pop_next [OF Suc.prems Cons] by blast
    from Suc.IH [of "e\<lparr>entropy_q := q1\<rparr>" "hashed @ x" True] show ?thesis
      using q1 by (auto simp: Cons global_pop_def)
  qed
qed

text \<open>The new pool contents after mixing a list of chunks.\<close>

definition mixed_pool :: "('ek, 'dk, 'vk, 'sk) prims \<Rightarrow> bytes \<Rightarrow> bytes list \<Rightarrow> bytes" where
  "mixed_pool P st cs =
     (if cs = [] then st else sha384_digest P (st @ sha384_digest P (concat cs)))"

definition mix_host :: "bytes \<Rightarrow> bytes list \<Rightarrow> crypto_host \<Rightarrow> crypto_host" where
  "mix_host st cs h = (if cs = [] then h else flushed st (masked h))"

text \<open>The chunks one call consumes: none while another owner holds the consumer gate.\<close>

definition mixable :: "entropy_state \<Rightarrow> bytes list" where
  "mixable e = (if consumer_gate e then [] else take 8 (eq_contents (entropy_q e)))"

lemma mix_under_gate_eval:
  assumes "eq_inv (entropy_q e)" "\<not> pool_locked e" "entropy_host h"
  shows "\<exists>q. mix_entropy_under_gate P (e, h) =
      Ret () (e\<lparr>entropy_q := q, pool_data := mixed_pool P (pool_data e) (mixable e),
          reseed_count := reseed_count e + (if mixable e = [] then 0 else 1)\<rparr>,
        mix_host (mixed_pool P (pool_data e) (mixable e)) (mixable e) h) \<and>
    eq_inv q \<and> eq_contents q = drop (length (mixable e)) (eq_contents (entropy_q e))"
proof (cases "consumer_gate e")
  case True
  then show ?thesis using assms(1)
    by (auto simp: mix_entropy_under_gate_def mixable_def mixed_pool_def mix_host_def entropy_progs
        intro: exI [of _ "entropy_q e"])
next
  case False
  let ?cs = "take 8 (eq_contents (entropy_q e))"
  obtain q where q: "mix_loop 8 [] False (e\<lparr>consumer_gate := True\<rparr>, h) =
      Ret (concat ?cs, ?cs \<noteq> []) (e\<lparr>consumer_gate := True, entropy_q := q\<rparr>, h)"
    "eq_inv q" "eq_contents q = drop 8 (eq_contents (entropy_q e))"
    using mix_loop_eval [of "e\<lparr>consumer_gate := True\<rparr>" 8 "[]" False h] assms(1) by auto
  have "drop (length ?cs) (eq_contents (entropy_q e)) = drop 8 (eq_contents (entropy_q e))"
    by (simp add: min_def)
  moreover have "mix_entropy_under_gate P (e, h) =
      Ret () (e\<lparr>entropy_q := q, pool_data := mixed_pool P (pool_data e) ?cs,
          reseed_count := reseed_count e + (if ?cs = [] then 0 else 1)\<rparr>,
        mix_host (mixed_pool P (pool_data e) ?cs) ?cs h)"
    using False q(1) assms(2,3)
    by (cases e) (simp add: mix_entropy_under_gate_def MAX_MIX_CHUNKS_PER_CALL_def section_eval(1) Let_def
        mixed_pool_def mix_host_def)
  ultimately show ?thesis using q(2,3) False unfolding mixable_def by auto
qed

subsection \<open>The output stream\<close>

definition ratchet :: "('ek, 'dk, 'vk, 'sk) prims \<Rightarrow> bytes \<Rightarrow> bytes" where
  "ratchet P st = sha384_digest P (1 # st)"

definition blocks :: "nat \<Rightarrow> nat" where
  "blocks n = (n + 47) div 48"

text \<open>The first bytes of the stream that a pool state determines, block by block.\<close>

definition stream_bytes :: "('ek, 'dk, 'vk, 'sk) prims \<Rightarrow> bytes \<Rightarrow> nat \<Rightarrow> bytes" where
  "stream_bytes P st n =
     take n (concat (map (\<lambda>i. sha384_digest P (0 # (ratchet P ^^ i) st)) [0..<blocks n]))"

lemma blocks_Suc: "n \<noteq> 0 \<Longrightarrow> blocks n = Suc (blocks (n - min 48 n))"
proof -
  assume n: "n \<noteq> 0"
  then have "(n + 47) div 48 = Suc ((n - 1) div 48)" by (subst le_div_geq) simp_all
  then show ?thesis using n by (cases "n \<le> 48") (simp_all add: blocks_def)
qed

lemma blocks_0 [simp]: "blocks 0 = 0"
  by (simp add: blocks_def)

lemma stream_bytes_0 [simp]: "stream_bytes P st 0 = []"
  by (simp add: stream_bytes_def)

lemma stream_bytes_step:
  assumes "hash_ok P" "n \<noteq> 0"
  shows "stream_bytes P st n =
    take (min 48 n) (sha384_digest P (0 # st)) @ stream_bytes P (ratchet P st) (n - min 48 n)"
proof -
  let ?f = "\<lambda>i. sha384_digest P (0 # (ratchet P ^^ i) st)" and ?m = "n - min 48 n"
  have len: "length (sha384_digest P x) = 48" for x using assms(1) by (simp add: hash_ok_def)
  have "map ?f [0..<blocks n] = ?f 0 # map (\<lambda>i. ?f (Suc i)) [0..<blocks ?m]"
    using blocks_Suc [OF assms(2)]
    by (simp add: upt_conv_Cons map_Suc_upt [symmetric] o_def del: upt_Suc funpow.simps)
  moreover have "?f (Suc i) = sha384_digest P (0 # (ratchet P ^^ i) (ratchet P st))" for i
    by (simp add: funpow_swap1)
  ultimately show ?thesis
    by (cases "n \<le> 48") (simp_all add: stream_bytes_def len min_def)
qed

lemma extract_loop_eval:
  assumes "hash_ok P" "entropy_host h" "\<not> pool_locked e"
  shows "extract_loop P n (e, h) =
    Ret (stream_bytes P (pool_data e) n)
        (e\<lparr>pool_data := (ratchet P ^^ blocks n) (pool_data e)\<rparr>, (masked ^^ (2 * blocks n)) h)"
  using assms(2,3)
proof (induction n arbitrary: e h rule: less_induct)
  case (less n)
  show ?case
  proof (cases "n = 0")
    case True
    then show ?thesis by (simp add: extract_loop.simps)
  next
    case False
    let ?e = "e\<lparr>pool_data := ratchet P (pool_data e)\<rparr>" and ?h = "masked (masked h)" and ?m = "n - min 48 n"
    have "extract_loop P n (e, h) = bindP (extract_loop P ?m) (\<lambda>rest.
        ret (take (min 48 n) (sha384_digest P (0 # pool_data e)) @ rest)) (?e, ?h)"
      using False less.prems
      by (subst extract_loop.simps) (cases e, simp add: section_eval Let_def ratchet_def)
    also have "\<dots> = Ret (stream_bytes P (pool_data e) n)
        (?e\<lparr>pool_data := (ratchet P ^^ blocks ?m) (ratchet P (pool_data e))\<rparr>, (masked ^^ (2 * blocks ?m)) ?h)"
      using less.IH [of ?m ?h ?e] False less.prems
      by (simp add: stream_bytes_step [OF assms(1) False])
    also have "(masked ^^ (2 * blocks ?m)) ?h = (masked ^^ (2 * blocks n)) h"
      by (simp add: blocks_Suc [OF False] funpow_swap1)
    finally show ?thesis
      by (simp add: blocks_Suc [OF False] funpow_swap1)
  qed
qed

subsection \<open>Properties\<close>

text \<open>
  C37: One call of \<open>mix_entropy\<close> absorbs at most eight chunks.  With nobody else using the pool it
  removes exactly the oldest chunks of the queue, eight or fewer, replaces the pool by the hash of
  the old pool and their digest, counts one reseed and flushes the new pool; interrupts are masked
  for one critical section only and the flags returned by disabling are the ones restored.  With an
  empty queue nothing at all happens.  All gates are free again afterwards.
\<close>

theorem mix_entropy_bounded:
  assumes "eq_inv (entropy_q e)" "\<not> pool_locked e" "\<not> mixing e" "\<not> consumer_gate e" "entropy_host h"
  shows "let cs = take 8 (eq_contents (entropy_q e)) in
    \<exists>q. mix_entropy P (e, h) =
      (if cs = [] then Ret () (e\<lparr>entropy_q := q\<rparr>, h)
       else let st = sha384_digest P (pool_data e @ sha384_digest P (concat cs)) in
         Ret () (e\<lparr>entropy_q := q, pool_data := st, reseed_count := reseed_count e + 1\<rparr>,
                 flushed st (masked h))) \<and>
    eq_inv q \<and> eq_contents q = drop 8 (eq_contents (entropy_q e))"
proof -
  let ?e = "e\<lparr>mixing := True\<rparr>" and ?cs = "take 8 (eq_contents (entropy_q e))"
  have cs: "mixable ?e = ?cs" using assms(4) by (simp add: mixable_def)
  obtain q where q: "mix_entropy_under_gate P (?e, h) =
      Ret () (?e\<lparr>entropy_q := q, pool_data := mixed_pool P (pool_data e) ?cs,
          reseed_count := reseed_count e + (if ?cs = [] then 0 else 1)\<rparr>,
        mix_host (mixed_pool P (pool_data e) ?cs) ?cs h)"
    "eq_inv q" "eq_contents q = drop 8 (eq_contents (entropy_q e))"
    using mix_under_gate_eval [of ?e h P] assms cs by (auto simp: min_def split: if_splits)
  then show ?thesis
    using assms(3) by (cases e) (auto simp: mix_entropy_def mixed_pool_def mix_host_def Let_def)
qed

theorem mix_entropy_bounded_witness:
  "let cs = take 8 (eq_contents (entropy_q entropy_state_new)) in
    \<exists>q. mix_entropy toy (entropy_state_new, demo_crypto_host) =
      (if cs = [] then Ret () (entropy_state_new\<lparr>entropy_q := q\<rparr>, demo_crypto_host)
       else let st = sha384_digest toy (pool_data entropy_state_new @ sha384_digest toy (concat cs)) in
         Ret () (entropy_state_new\<lparr>entropy_q := q, pool_data := st,
                 reseed_count := reseed_count entropy_state_new + 1\<rparr>,
                 flushed st (masked demo_crypto_host))) \<and>
    eq_inv q \<and> eq_contents q = drop 8 (eq_contents (entropy_q entropy_state_new))"
  by (rule mix_entropy_bounded)
     (simp_all add: entropy_state_new_def eq_inv_new entropy_host_def demo_crypto_host_def)

text \<open>
  C22: What \<open>extract_entropy\<close> returns.  While another operation holds the pool it returns
  \<open>EntropyBusy\<close> and changes nothing.  Otherwise it first absorbs up to eight queued chunks (none while
  the consumer gate is held elsewhere); a pool that was never seeded gives \<open>EntropyStarvation\<close> and
  leaves the output untouched; a seeded pool fills the whole output with the stream of its state
  and the state moves forward by one step of the one-way update per 48-byte block.
\<close>

theorem extract_entropy_correct:
  assumes "hash_ok P" "eq_inv (entropy_q e)" "\<not> pool_locked e" "entropy_host h"
  shows "\<exists>r out' e' h'. extract_entropy P out (e, h) = Ret (r, out') (e', h') \<and>
    (if mixing e then r = Err EntropyBusy \<and> out' = out \<and> e' = e \<and> h' = h
     else
       (let st = mixed_pool P (pool_data e) (mixable e);
            seeded = reseed_count e + (if mixable e = [] then 0 else 1) \<noteq> 0
        in eq_contents (entropy_q e') = drop (length (mixable e)) (eq_contents (entropy_q e)) \<and>
           \<not> mixing e' \<and> \<not> pool_locked e' \<and> consumer_gate e' = consumer_gate e \<and>
           (if seeded
            then r = Ok () \<and> out' = stream_bytes P st (length out) \<and>
              pool_data e' = (ratchet P ^^ blocks (length out)) st
            else r = Err EntropyStarvation \<and> out' = out \<and> pool_data e' = st)))"
proof (cases "mixing e")
  case True
  then show ?thesis by (simp add: extract_entropy_def)
next
  case False
  let ?e = "e\<lparr>mixing := True\<rparr>" and ?cs = "mixable e"
  define st where "st = mixed_pool P (pool_data e) ?cs"
  define n where "n = reseed_count e + (if ?cs = [] then 0 else 1)"
  define h1 where "h1 = mix_host st ?cs h"
  have h1: "entropy_host h1" using assms(4) by (simp add: h1_def mix_host_def)
  have "mixable ?e = ?cs" by (simp add: mixable_def)
  then obtain q where q: "mix_entropy_under_gate P (?e, h) = Ret () (?e\<lparr>entropy_q := q, pool_data := st, reseed_count := n\<rparr>, h1)"
    "eq_contents q = drop (length ?cs) (eq_contents (entropy_q e))"
    using mix_under_gate_eval [of ?e h P] assms(2-4) by (auto simp: st_def n_def h1_def)
  have "extract_entropy P out (e, h) =
      (if n = 0 then Ret (Err EntropyStarvation, out) (e\<lparr>entropy_q := q, pool_data := st, reseed_count := n\<rparr>, h1)
       else let st' = (ratchet P ^^ blocks (length out)) st in
         Ret (Ok (), stream_bytes P st (length out))
          (e\<lparr>entropy_q := q, pool_data := st', reseed_count := n\<rparr>,
           flushed st' ((masked ^^ (2 * blocks (length out))) h1)))"
    using False q(1) assms(3) h1
    by (cases e) (simp add: extract_entropy_def extract_loop_eval [OF assms(1)] Let_def)
  then show ?thesis
    using False q(2) assms(3) unfolding Let_def st_def [symmetric] n_def [symmetric] by auto
qed

theorem extract_entropy_correct_witness:
  "\<exists>r out' e' h'. extract_entropy toy [7, 7] (entropy_state_new\<lparr>reseed_count := 1\<rparr>, demo_crypto_host) = Ret (r, out') (e', h') \<and>
    (if mixing (entropy_state_new\<lparr>reseed_count := 1\<rparr>)
     then r = Err EntropyBusy \<and> out' = [7, 7] \<and> e' = entropy_state_new\<lparr>reseed_count := 1\<rparr> \<and> h' = demo_crypto_host
     else
       (let st = mixed_pool toy (pool_data (entropy_state_new\<lparr>reseed_count := 1\<rparr>)) (mixable (entropy_state_new\<lparr>reseed_count := 1\<rparr>));
            seeded = reseed_count (entropy_state_new\<lparr>reseed_count := 1\<rparr>) +
              (if mixable (entropy_state_new\<lparr>reseed_count := 1\<rparr>) = [] then 0 else 1) \<noteq> 0
        in eq_contents (entropy_q e') = drop (length (mixable (entropy_state_new\<lparr>reseed_count := 1\<rparr>)))
             (eq_contents (entropy_q (entropy_state_new\<lparr>reseed_count := 1\<rparr>))) \<and>
           \<not> mixing e' \<and> \<not> pool_locked e' \<and> consumer_gate e' = consumer_gate (entropy_state_new\<lparr>reseed_count := 1\<rparr>) \<and>
           (if seeded
            then r = Ok () \<and> out' = stream_bytes toy st (length [7 :: u8, 7]) \<and>
              pool_data e' = (ratchet toy ^^ blocks (length [7 :: u8, 7])) st
            else r = Err EntropyStarvation \<and> out' = [7, 7] \<and> pool_data e' = st)))"
  by (rule extract_entropy_correct [OF toy_ok(1)])
     (simp_all add: entropy_state_new_def eq_inv_new entropy_host_def demo_crypto_host_def)

end
