(* ===== verification/Crypto_Ffi_Keys.thy ===== *)
theory Crypto_Ffi_Keys
  imports Crypto_Ffi Entropy_Pool
begin

text \<open>
  The C boundary of the crypto crate (shawncore-pq-crypto/src/ffi.rs), second part: the functions on
  keys and shared secrets of ML-KEM, ML-DSA and X25519, the wire codecs, the symmetric primitives,
  the entropy functions and the self test.
\<close>

subsection \<open>ML-KEM\<close>

text \<open>
  Dropping a shared key or an X25519 secret overwrites its 32 bytes with zeros.  The
  decapsulation and signing keys are wiped by the packages that provide them.
\<close>

definition drop_array :: "'o obj_model \<Rightarrow> ('o \<Rightarrow> bytes option) \<Rightarrow> usize \<Rightarrow> ('o memory \<times> 'h, unit) prog" where
  "drop_array M sel p =
     bindP (read_obj sel p) (\<lambda>_. seqP (write_bytes M p (zeros 32)) (forget_obj p))"

definition shawncore_crypto_ml_kem_keygen ::
  "('ek, 'dk, 'vk, 'sk) prims \<Rightarrow> ('ek, 'dk, 'vk, 'sk) crypto_layouts \<Rightarrow> usize \<Rightarrow> usize \<Rightarrow> usize \<Rightarrow> ('ek, 'dk, 'vk, 'sk) crypto_ffi" where
  "shawncore_crypto_ml_kem_keygen P L entropy out_pk out_dk =
     (if entropy = 0 \<or> out_pk = 0 \<or> out_dk = 0
      then ret (crypto_err_code InvalidState)
      else if \<not> ptr_is_aligned (l_kem_pk L) out_pk \<or> \<not> ptr_is_aligned (l_kem_dk L) out_dk
      then ret (crypto_err_code InvalidState)
      else if ranges_overlap out_pk (layout_size (l_kem_pk L)) out_dk (layout_size (l_kem_dk L)) \<or>
         ranges_overlap entropy 64 out_pk (layout_size (l_kem_pk L)) \<or>
         ranges_overlap entropy 64 out_dk (layout_size (l_kem_dk L))
      then ret (crypto_err_code InvalidLength)
      else bindP (read_bytes entropy 64) (\<lambda>entropy_ref.
        case ml_kem_keygen P entropy_ref of
          Inr (pk, dk) \<Rightarrow> seqP (write_obj (crypto_objs L) out_pk (ObjKemPk pk))
           (seqP (write_obj (crypto_objs L) out_dk (ObjKemDk dk))
           (ret CRYPTO_SUCCESS))
        | Inl e \<Rightarrow> ret (crypto_err_code e)))"

definition shawncore_crypto_ml_kem_decapskey_destroy ::
  "('ek, 'dk, 'vk, 'sk) crypto_layouts \<Rightarrow> usize \<Rightarrow> ('ek, 'dk, 'vk, 'sk) crypto_ffi" where
  "shawncore_crypto_ml_kem_decapskey_destroy L dk =
     (if dk = 0
      then ret (crypto_err_code InvalidState)
      else if \<not> ptr_is_aligned (l_kem_dk L) dk
      then ret (crypto_err_code InvalidState)
      else bindP (read_obj as_kem_dk dk) (\<lambda>_. seqP (forget_obj dk) (ret CRYPTO_SUCCESS)))"

definition shawncore_crypto_ml_kem_encapsulate ::
  "('ek, 'dk, 'vk, 'sk) prims \<Rightarrow> ('ek, 'dk, 'vk, 'sk) crypto_layouts \<Rightarrow> usize \<Rightarrow> usize \<Rightarrow> usize \<Rightarrow> usize \<Rightarrow> ('ek, 'dk, 'vk, 'sk) crypto_ffi" where
  "shawncore_crypto_ml_kem_encapsulate P L pk entropy out_shared out_ct =
     (if pk = 0 \<or> entropy = 0 \<or> out_shared = 0 \<or> out_ct = 0
      then ret (crypto_err_code InvalidState)
      else if \<not> ptr_is_aligned (l_kem_pk L) pk \<or> \<not> ptr_is_aligned (l_kem_shared L) out_shared \<or>
         \<not> ptr_is_aligned (l_kem_ct L) out_ct
      then ret (crypto_err_code InvalidState)
      else if ranges_overlap out_shared (layout_size (l_kem_shared L)) out_ct (layout_size (l_kem_ct L)) \<or>
         ranges_overlap out_shared (layout_size (l_kem_shared L)) pk (layout_size (l_kem_pk L)) \<or>
         ranges_overlap out_ct (layout_size (l_kem_ct L)) pk (layout_size (l_kem_pk L)) \<or>
         ranges_overlap out_shared (layout_size (l_kem_shared L)) entropy 32 \<or>
         ranges_overlap out_ct (layout_size (l_kem_ct L)) entropy 32
      then ret (crypto_err_code InvalidLength)
      else bindP (read_obj as_kem_pk pk) (\<lambda>pk_ref.
        bindP (read_bytes entropy 32) (\<lambda>entropy_ref.
        bindP (hostP (ml_kem_encapsulate P pk_ref entropy_ref)) (\<lambda>r.
        case r of
          Inr (shared, ct) \<Rightarrow> seqP (write_obj (crypto_objs L) out_shared (ObjKemShared shared))
           (seqP (write_obj (crypto_objs L) out_ct (ObjKemCt ct))
           (ret CRYPTO_SUCCESS))
        | Inl e \<Rightarrow> ret (crypto_err_code e)))))"

definition shawncore_crypto_ml_kem_decapsulate ::
  "('ek, 'dk, 'vk, 'sk) prims \<Rightarrow> ('ek, 'dk, 'vk, 'sk) crypto_layouts \<Rightarrow> usize \<Rightarrow> usize \<Rightarrow> usize \<Rightarrow> ('ek, 'dk, 'vk, 'sk) crypto_ffi" where
  "shawncore_crypto_ml_kem_decapsulate P L dk ct out_shared =
     (if dk = 0 \<or> ct = 0 \<or> out_shared = 0
      then ret (crypto_err_code InvalidState)
      else if \<not> ptr_is_aligned (l_kem_dk L) dk \<or> \<not> ptr_is_aligned (l_kem_ct L) ct \<or>
         \<not> ptr_is_aligned (l_kem_shared L) out_shared
      then ret (crypto_err_code InvalidState)
      else if ranges_overlap out_shared (layout_size (l_kem_shared L)) dk (layout_size (l_kem_dk L)) \<or>
         ranges_overlap out_shared (layout_size (l_kem_shared L)) ct (layout_size (l_kem_ct L))
      then ret (crypto_err_code InvalidLength)
      else bindP (read_obj as_kem_dk dk) (\<lambda>dk_ref.
        bindP (read_obj as_kem_ct ct) (\<lambda>ct_ref.
        bindP (hostP (ml_kem_decapsulate P dk_ref ct_ref)) (\<lambda>r.
        case r of
          Inr shared \<Rightarrow> seqP (write_obj (crypto_objs L) out_shared (ObjKemShared shared))
           (ret CRYPTO_SUCCESS)
        | Inl e \<Rightarrow> ret (crypto_err_code e)))))"

definition shawncore_crypto_ml_kem_sharedkey_destroy ::
  "('ek, 'dk, 'vk, 'sk) crypto_layouts \<Rightarrow> usize \<Rightarrow> ('ek, 'dk, 'vk, 'sk) crypto_ffi" where
  "shawncore_crypto_ml_kem_sharedkey_destroy L sk =
     (if sk = 0
      then ret (crypto_err_code InvalidState)
      else if \<not> ptr_is_aligned (l_kem_shared L) sk
      then ret (crypto_err_code InvalidState)
      else seqP (drop_array (crypto_objs L) as_kem_shared sk) (ret CRYPTO_SUCCESS))"

subsection \<open>ML-DSA\<close>

definition shawncore_crypto_ml_dsa_keygen ::
  "('ek, 'dk, 'vk, 'sk) prims \<Rightarrow> ('ek, 'dk, 'vk, 'sk) crypto_layouts \<Rightarrow> usize \<Rightarrow> usize \<Rightarrow> usize \<Rightarrow> ('ek, 'dk, 'vk, 'sk) crypto_ffi" where
  "shawncore_crypto_ml_dsa_keygen P L seed out_pk out_sk =
     (if seed = 0 \<or> out_pk = 0 \<or> out_sk = 0
      then ret (crypto_err_code InvalidState)
      else if \<not> ptr_is_aligned (l_dsa_pk L) out_pk \<or> \<not> ptr_is_aligned (l_dsa_sk L) out_sk
      then ret (crypto_err_code InvalidState)
      else if ranges_overlap out_pk (layout_size (l_dsa_pk L)) out_sk (layout_size (l_dsa_sk L)) \<or>
         ranges_overlap seed 32 out_pk (layout_size (l_dsa_pk L)) \<or>
         ranges_overlap seed 32 out_sk (layout_size (l_dsa_sk L))
      then ret (crypto_err_code InvalidLength)
      else bindP (read_bytes seed 32) (\<lambda>seed_ref.
        case ml_dsa_keygen P seed_ref of
          Inr (pk, sk) \<Rightarrow> seqP (write_obj (crypto_objs L) out_pk (ObjDsaPk pk))
           (seqP (write_obj (crypto_objs L) out_sk (ObjDsaSk sk))
           (ret CRYPTO_SUCCESS))
        | Inl e \<Rightarrow> ret (crypto_err_code e)))"

definition shawncore_crypto_ml_dsa_signingkey_destroy ::
  "('ek, 'dk, 'vk, 'sk) crypto_layouts \<Rightarrow> usize \<Rightarrow> ('ek, 'dk, 'vk, 'sk) crypto_ffi" where
  "shawncore_crypto_ml_dsa_signingkey_destroy L sk =
     (if sk = 0
      then ret (crypto_err_code InvalidState)
      else if \<not> ptr_is_aligned (l_dsa_sk L) sk
      then ret (crypto_err_code InvalidState)
      else bindP (read_obj as_dsa_sk sk) (\<lambda>_. seqP (forget_obj sk) (ret CRYPTO_SUCCESS)))"

definition shawncore_crypto_ml_dsa_sign ::
  "('ek, 'dk, 'vk, 'sk) prims \<Rightarrow> ('ek, 'dk, 'vk, 'sk) crypto_layouts \<Rightarrow> usize \<Rightarrow> usize \<Rightarrow> usize \<Rightarrow> usize \<Rightarrow> ('ek, 'dk, 'vk, 'sk) crypto_ffi" where
  "shawncore_crypto_ml_dsa_sign P L sk msg msg_len out_sig =
     (if sk = 0 \<or> (msg = 0 \<and> msg_len > 0) \<or> out_sig = 0
      then ret (crypto_err_code InvalidState)
      else if \<not> range_ok msg msg_len
      then ret (crypto_err_code InvalidLength)
      else if \<not> ptr_is_aligned (l_dsa_sk L) sk \<or> \<not> ptr_is_aligned (l_dsa_sig L) out_sig
      then ret (crypto_err_code InvalidState)
      else if ranges_overlap out_sig (layout_size (l_dsa_sig L)) sk (layout_size (l_dsa_sk L)) \<or>
         ranges_overlap out_sig (layout_size (l_dsa_sig L)) msg msg_len
      then ret (crypto_err_code InvalidLength)
      else bindP (read_obj as_dsa_sk sk) (\<lambda>sk_ref.
        bindP (slice_from_raw_parts msg msg_len) (\<lambda>msg_slice.
        bindP (hostP (ml_dsa_sign P sk_ref msg_slice)) (\<lambda>r.
        case r of
          Inr sig \<Rightarrow> seqP (write_obj (crypto_objs L) out_sig (ObjDsaSig sig))
           (ret CRYPTO_SUCCESS)
        | Inl e \<Rightarrow> ret (crypto_err_code e)))))"

definition shawncore_crypto_ml_dsa_verify ::
  "('ek, 'dk, 'vk, 'sk) prims \<Rightarrow> ('ek, 'dk, 'vk, 'sk) crypto_layouts \<Rightarrow> usize \<Rightarrow> usize \<Rightarrow> usize \<Rightarrow> usize \<Rightarrow> ('ek, 'dk, 'vk, 'sk) crypto_ffi" where
  "shawncore_crypto_ml_dsa_verify P L pk msg msg_len sig =
     (if pk = 0 \<or> (msg = 0 \<and> msg_len > 0) \<or> sig = 0
      then ret (crypto_err_code InvalidState)
      else if \<not> range_ok msg msg_len
      then ret (crypto_err_code InvalidLength)
      else if \<not> ptr_is_aligned (l_dsa_pk L) pk \<or> \<not> ptr_is_aligned (l_dsa_sig L) sig
      then ret (crypto_err_code InvalidState)
      else bindP (read_obj as_dsa_pk pk) (\<lambda>pk_ref.
        bindP (read_obj as_dsa_sig sig) (\<lambda>sig_ref.
        bindP (slice_from_raw_parts msg msg_len) (\<lambda>msg_slice.
        ret (crypto_code (ml_dsa_verify P pk_ref msg_slice sig_ref))))))"

subsection \<open>X25519\<close>

definition shawncore_crypto_x25519_keygen ::
  "('ek, 'dk, 'vk, 'sk) prims \<Rightarrow> ('ek, 'dk, 'vk, 'sk) crypto_layouts \<Rightarrow> usize \<Rightarrow> usize \<Rightarrow> usize \<Rightarrow> ('ek, 'dk, 'vk, 'sk) crypto_ffi" where
  "shawncore_crypto_x25519_keygen P L entropy out_pk out_sk =
     (if entropy = 0 \<or> out_pk = 0 \<or> out_sk = 0
      then ret (crypto_err_code InvalidState)
      else if \<not> ptr_is_aligned (l_x_pub L) out_pk \<or> \<not> ptr_is_aligned (l_x_sec L) out_sk
      then ret (crypto_err_code InvalidState)
      else if ranges_overlap out_pk (layout_size (l_x_pub L)) out_sk (layout_size (l_x_sec L)) \<or>
         ranges_overlap entropy 32 out_pk (layout_size (l_x_pub L)) \<or>
         ranges_overlap entropy 32 out_sk (layout_size (l_x_sec L))
      then ret (crypto_err_code InvalidLength)
      else bindP (read_bytes entropy 32) (\<lambda>entropy_ref.
        case x25519_keygen P entropy_ref of (pk, sk) \<Rightarrow>
          seqP (write_obj (crypto_objs L) out_pk (ObjXPub pk))
           (seqP (write_obj (crypto_objs L) out_sk (ObjXSec sk))
           (ret CRYPTO_SUCCESS))))"

definition shawncore_crypto_x25519_secret_destroy ::
  "('ek, 'dk, 'vk, 'sk) crypto_layouts \<Rightarrow> usize \<Rightarrow> ('ek, 'dk, 'vk, 'sk) crypto_ffi" where
  "shawncore_crypto_x25519_secret_destroy L sk =
     (if sk = 0
      then ret (crypto_err_code InvalidState)
      else if \<not> ptr_is_aligned (l_x_sec L) sk
      then ret (crypto_err_code InvalidState)
      else seqP (drop_array (crypto_objs L) as_x_sec sk) (ret CRYPTO_SUCCESS))"

definition shawncore_crypto_x25519_diffie_hellman ::
  "('ek, 'dk, 'vk, 'sk) prims \<Rightarrow> ('ek, 'dk, 'vk, 'sk) crypto_layouts \<Rightarrow> usize \<Rightarrow> usize \<Rightarrow> usize \<Rightarrow> ('ek, 'dk, 'vk, 'sk) crypto_ffi" where
  "shawncore_crypto_x25519_diffie_hellman P L sk peer_pk out_shared =
     (if sk = 0 \<or> peer_pk = 0 \<or> out_shared = 0
      then ret (crypto_err_code InvalidState)
      else if \<not> ptr_is_aligned (l_x_sec L) sk \<or> \<not> ptr_is_aligned (l_x_pub L) peer_pk \<or>
         \<not> ptr_is_aligned (l_x_shared L) out_shared
      then ret (crypto_err_code InvalidState)
      else if ranges_overlap out_shared (layout_size (l_x_shared L)) sk (layout_size (l_x_sec L)) \<or>
         ranges_overlap out_shared (layout_size (l_x_shared L)) peer_pk (layout_size (l_x_pub L))
      then ret (crypto_err_code InvalidLength)
      else bindP (read_obj as_x_sec sk) (\<lambda>sk_ref.
        bindP (read_obj as_x_pub peer_pk) (\<lambda>peer_pk_ref.
        bindP (hostP (x25519_diffie_hellman P sk_ref peer_pk_ref)) (\<lambda>r.
        case r of
          Inr shared \<Rightarrow> seqP (write_obj (crypto_objs L) out_shared (ObjXShared shared))
           (ret CRYPTO_SUCCESS)
        | Inl e \<Rightarrow> ret (crypto_err_code e)))))"

definition shawncore_crypto_x25519_sharedsecret_destroy ::
  "('ek, 'dk, 'vk, 'sk) crypto_layouts \<Rightarrow> usize \<Rightarrow> ('ek, 'dk, 'vk, 'sk) crypto_ffi" where
  "shawncore_crypto_x25519_sharedsecret_destroy L ss =
     (if ss = 0
      then ret (crypto_err_code InvalidState)
      else if \<not> ptr_is_aligned (l_x_shared L) ss
      then ret (crypto_err_code InvalidState)
      else seqP (drop_array (crypto_objs L) as_x_shared ss) (ret CRYPTO_SUCCESS))"

subsection \<open>Wire codecs\<close>

definition ml_kem_ciphertext_encode :: "bytes \<Rightarrow> bytes" where
  "ml_kem_ciphertext_encode v = v"

definition ml_kem_ciphertext_decode :: "bytes \<Rightarrow> crypto_error + bytes" where
  "ml_kem_ciphertext_decode bs = Ok bs"

definition x25519_publickey_encode :: "bytes \<Rightarrow> bytes" where
  "x25519_publickey_encode v = v"

definition x25519_publickey_decode :: "bytes \<Rightarrow> crypto_error + bytes" where
  "x25519_publickey_decode bs = Ok bs"

definition ml_dsa_signature_encode :: "bytes \<Rightarrow> bytes" where
  "ml_dsa_signature_encode v = v"

definition ml_dsa_signature_decode :: "bytes \<Rightarrow> crypto_error + bytes" where
  "ml_dsa_signature_decode bs = Ok bs"

text \<open>
  The two functions the macro \<open>wire_codec\<close> generates for a type: its layout \<open>T\<close>, its wire length
  \<open>n\<close>, its encoding and its decoding are the parameters.
\<close>

definition wire_to_bytes ::
  "('ek, 'dk, 'vk, 'sk) crypto_layouts \<Rightarrow> type_layout \<Rightarrow> nat \<Rightarrow> (('ek, 'dk, 'vk, 'sk) crypto_obj \<Rightarrow> 'a option) \<Rightarrow>
   ('a \<Rightarrow> bytes) \<Rightarrow> usize \<Rightarrow> usize \<Rightarrow> usize \<Rightarrow> ('ek, 'dk, 'vk, 'sk) crypto_ffi" where
  "wire_to_bytes L T n sel encode v out out_len =
     (if v = 0 \<or> out = 0
      then ret (crypto_err_code InvalidState)
      else if \<not> ptr_is_aligned T v
      then ret (crypto_err_code InvalidState)
      else if out_len \<noteq> of_nat n
      then ret (crypto_err_code InvalidLength)
      else if ranges_overlap v (layout_size T) out out_len
      then ret (crypto_err_code InvalidLength)
      else bindP (read_obj sel v) (\<lambda>v_ref.
        seqP (write_slice (crypto_objs L) out n (encode v_ref))
             (ret CRYPTO_SUCCESS)))"

definition wire_from_bytes ::
  "('ek, 'dk, 'vk, 'sk) crypto_layouts \<Rightarrow> type_layout \<Rightarrow> nat \<Rightarrow> ('a \<Rightarrow> ('ek, 'dk, 'vk, 'sk) crypto_obj) \<Rightarrow>
   (bytes \<Rightarrow> crypto_error + 'a) \<Rightarrow> usize \<Rightarrow> usize \<Rightarrow> usize \<Rightarrow> ('ek, 'dk, 'vk, 'sk) crypto_ffi" where
  "wire_from_bytes L T n con decode bs len out =
     (if bs = 0 \<or> out = 0
      then ret (crypto_err_code InvalidState)
      else if \<not> ptr_is_aligned T out
      then ret (crypto_err_code InvalidState)
      else if len \<noteq> of_nat n
      then ret (crypto_err_code InvalidLength)
      else if ranges_overlap bs len out (layout_size T)
      then ret (crypto_err_code InvalidLength)
      else bindP (read_bytes bs n) (\<lambda>input. case decode input of
          Inr v \<Rightarrow> seqP (write_obj (crypto_objs L) out (con v)) (ret CRYPTO_SUCCESS)
        | Inl e \<Rightarrow> ret (crypto_err_code e)))"

definition shawncore_crypto_ml_kem_publickey_to_bytes ::
  "('ek, 'dk, 'vk, 'sk) prims \<Rightarrow> ('ek, 'dk, 'vk, 'sk) crypto_layouts \<Rightarrow> usize \<Rightarrow> usize \<Rightarrow> usize \<Rightarrow> ('ek, 'dk, 'vk, 'sk) crypto_ffi" where
  "shawncore_crypto_ml_kem_publickey_to_bytes P L = wire_to_bytes L (l_kem_pk L) ML_KEM_PUBLICKEY_BYTES as_kem_pk (ml_kem_pk_to_bytes P)"

definition shawncore_crypto_ml_kem_publickey_from_bytes ::
  "('ek, 'dk, 'vk, 'sk) prims \<Rightarrow> ('ek, 'dk, 'vk, 'sk) crypto_layouts \<Rightarrow> usize \<Rightarrow> usize \<Rightarrow> usize \<Rightarrow> ('ek, 'dk, 'vk, 'sk) crypto_ffi" where
  "shawncore_crypto_ml_kem_publickey_from_bytes P L = wire_from_bytes L (l_kem_pk L) ML_KEM_PUBLICKEY_BYTES ObjKemPk (ml_kem_pk_from_bytes P)"

definition shawncore_crypto_ml_kem_ciphertext_to_bytes ::
  "('ek, 'dk, 'vk, 'sk) crypto_layouts \<Rightarrow> usize \<Rightarrow> usize \<Rightarrow> usize \<Rightarrow> ('ek, 'dk, 'vk, 'sk) crypto_ffi" where
  "shawncore_crypto_ml_kem_ciphertext_to_bytes L = wire_to_bytes L (l_kem_ct L) 1568 as_kem_ct ml_kem_ciphertext_encode"

definition shawncore_crypto_ml_kem_ciphertext_from_bytes ::
  "('ek, 'dk, 'vk, 'sk) crypto_layouts \<Rightarrow> usize \<Rightarrow> usize \<Rightarrow> usize \<Rightarrow> ('ek, 'dk, 'vk, 'sk) crypto_ffi" where
  "shawncore_crypto_ml_kem_ciphertext_from_bytes L = wire_from_bytes L (l_kem_ct L) 1568 ObjKemCt ml_kem_ciphertext_decode"

definition shawncore_crypto_x25519_publickey_to_bytes ::
  "('ek, 'dk, 'vk, 'sk) crypto_layouts \<Rightarrow> usize \<Rightarrow> usize \<Rightarrow> usize \<Rightarrow> ('ek, 'dk, 'vk, 'sk) crypto_ffi" where
  "shawncore_crypto_x25519_publickey_to_bytes L = wire_to_bytes L (l_x_pub L) 32 as_x_pub x25519_publickey_encode"

definition shawncore_crypto_x25519_publickey_from_bytes ::
  "('ek, 'dk, 'vk, 'sk) crypto_layouts \<Rightarrow> usize \<Rightarrow> usize \<Rightarrow> usize \<Rightarrow> ('ek, 'dk, 'vk, 'sk) crypto_ffi" where
  "shawncore_crypto_x25519_publickey_from_bytes L = wire_from_bytes L (l_x_pub L) 32 ObjXPub x25519_publickey_decode"

definition shawncore_crypto_ml_dsa_publickey_to_bytes ::
  "('ek, 'dk, 'vk, 'sk) prims \<Rightarrow> ('ek, 'dk, 'vk, 'sk) crypto_layouts \<Rightarrow> usize \<Rightarrow> usize \<Rightarrow> usize \<Rightarrow> ('ek, 'dk, 'vk, 'sk) crypto_ffi" where
  "shawncore_crypto_ml_dsa_publickey_to_bytes P L = wire_to_bytes L (l_dsa_pk L) ML_DSA_PUBLICKEY_BYTES as_dsa_pk (ml_dsa_pk_to_bytes P)"

definition shawncore_crypto_ml_dsa_publickey_from_bytes ::
  "('ek, 'dk, 'vk, 'sk) prims \<Rightarrow> ('ek, 'dk, 'vk, 'sk) crypto_layouts \<Rightarrow> usize \<Rightarrow> usize \<Rightarrow> usize \<Rightarrow> ('ek, 'dk, 'vk, 'sk) crypto_ffi" where
  "shawncore_crypto_ml_dsa_publickey_from_bytes P L = wire_from_bytes L (l_dsa_pk L) ML_DSA_PUBLICKEY_BYTES ObjDsaPk (ml_dsa_pk_from_bytes P)"

definition shawncore_crypto_ml_dsa_signature_to_bytes ::
  "('ek, 'dk, 'vk, 'sk) crypto_layouts \<Rightarrow> usize \<Rightarrow> usize \<Rightarrow> usize \<Rightarrow> ('ek, 'dk, 'vk, 'sk) crypto_ffi" where
  "shawncore_crypto_ml_dsa_signature_to_bytes L = wire_to_bytes L (l_dsa_sig L) ML_DSA_SIGNATURE_BYTES as_dsa_sig ml_dsa_signature_encode"

definition shawncore_crypto_ml_dsa_signature_from_bytes ::
  "('ek, 'dk, 'vk, 'sk) crypto_layouts \<Rightarrow> usize \<Rightarrow> usize \<Rightarrow> usize \<Rightarrow> ('ek, 'dk, 'vk, 'sk) crypto_ffi" where
  "shawncore_crypto_ml_dsa_signature_from_bytes L = wire_from_bytes L (l_dsa_sig L) ML_DSA_SIGNATURE_BYTES ObjDsaSig ml_dsa_signature_decode"

subsection \<open>Symmetric primitives\<close>

definition aead_encrypt_buffers_overlap ::
  "usize \<Rightarrow> usize \<Rightarrow> usize \<Rightarrow> usize \<Rightarrow> usize \<Rightarrow> usize \<Rightarrow> usize \<Rightarrow> usize \<Rightarrow> usize \<Rightarrow> bool" where
  "aead_encrypt_buffers_overlap enc_key_ptr mac_key_ptr nonce aad aad_len plaintext ciphertext out_mac data_len \<longleftrightarrow>
     ranges_overlap ciphertext data_len enc_key_ptr 32 \<or>
     ranges_overlap ciphertext data_len mac_key_ptr 32 \<or>
     ranges_overlap ciphertext data_len nonce 12 \<or>
     ranges_overlap ciphertext data_len aad aad_len \<or>
     ranges_overlap ciphertext data_len plaintext data_len \<or>
     ranges_overlap out_mac 48 enc_key_ptr 32 \<or>
     ranges_overlap out_mac 48 mac_key_ptr 32 \<or>
     ranges_overlap out_mac 48 nonce 12 \<or>
     ranges_overlap out_mac 48 aad aad_len \<or>
     ranges_overlap out_mac 48 plaintext data_len \<or>
     ranges_overlap out_mac 48 ciphertext data_len"

definition aead_decrypt_buffers_overlap ::
  "usize \<Rightarrow> usize \<Rightarrow> usize \<Rightarrow> usize \<Rightarrow> usize \<Rightarrow> usize \<Rightarrow> usize \<Rightarrow> usize \<Rightarrow> usize \<Rightarrow> bool" where
  "aead_decrypt_buffers_overlap enc_key_ptr mac_key_ptr nonce aad aad_len ciphertext mac plaintext data_len \<longleftrightarrow>
     ranges_overlap plaintext data_len enc_key_ptr 32 \<or>
     ranges_overlap plaintext data_len mac_key_ptr 32 \<or>
     ranges_overlap plaintext data_len nonce 12 \<or>
     ranges_overlap plaintext data_len aad aad_len \<or>
     ranges_overlap plaintext data_len ciphertext data_len \<or>
     ranges_overlap plaintext data_len mac 48"

definition shawncore_crypto_hmac_sha384 ::
  "('ek, 'dk, 'vk, 'sk) prims \<Rightarrow> ('ek, 'dk, 'vk, 'sk) crypto_layouts \<Rightarrow> usize \<Rightarrow> usize \<Rightarrow> usize \<Rightarrow> usize \<Rightarrow> ('ek, 'dk, 'vk, 'sk) crypto_ffi" where
  "shawncore_crypto_hmac_sha384 P L key data data_len out_mac =
     (if key = 0 \<or> (data = 0 \<and> data_len > 0) \<or> out_mac = 0
      then ret (crypto_err_code InvalidState)
      else if \<not> range_ok data data_len
      then ret (crypto_err_code InvalidLength)
      else if ranges_overlap out_mac 48 key 32 \<or>
         ranges_overlap out_mac 48 data data_len
      then ret (crypto_err_code InvalidLength)
      else bindP (read_bytes key 32) (\<lambda>key_slice.
        bindP (slice_from_raw_parts data data_len) (\<lambda>data_slice.
        bindP (hostP (hmac_sha384 P key_slice data_slice)) (\<lambda>r.
        case r of
          Inr mac \<Rightarrow> seqP (write_slice (crypto_objs L) out_mac 48 mac)
           (ret CRYPTO_SUCCESS)
        | Inl e \<Rightarrow> ret (crypto_err_code e)))))"

definition shawncore_crypto_hkdf_expand_sha384 ::
  "('ek, 'dk, 'vk, 'sk) prims \<Rightarrow> ('ek, 'dk, 'vk, 'sk) crypto_layouts \<Rightarrow> usize \<Rightarrow> usize \<Rightarrow> usize \<Rightarrow> usize \<Rightarrow> usize \<Rightarrow> ('ek, 'dk, 'vk, 'sk) crypto_ffi" where
  "shawncore_crypto_hkdf_expand_sha384 P L prk info info_len out out_len =
     (if prk = 0 \<or> (info = 0 \<and> info_len > 0) \<or> (out = 0 \<and> out_len > 0)
      then ret (crypto_err_code InvalidState)
      else if \<not> range_ok info info_len \<or> \<not> range_ok out out_len
      then ret (crypto_err_code InvalidLength)
      else if ranges_overlap out out_len prk 48 \<or>
         ranges_overlap out out_len info info_len
      then ret (crypto_err_code InvalidLength)
      else bindP (read_bytes prk 48) (\<lambda>prk_slice.
        bindP (slice_from_raw_parts info info_len) (\<lambda>info_slice.
        bindP (slice_from_raw_parts out out_len) (\<lambda>out_slice.
        bindP (hostP (hkdf_expand_sha384 P prk_slice info_slice out_slice)) (\<lambda>(r, out').
        seqP (write_slice (crypto_objs L) out (unat out_len) out')
             (ret (crypto_code r)))))))"

definition shawncore_crypto_aead_encrypt ::
  "('ek, 'dk, 'vk, 'sk) prims \<Rightarrow> ('ek, 'dk, 'vk, 'sk) crypto_layouts \<Rightarrow> usize \<Rightarrow> usize \<Rightarrow> usize \<Rightarrow> usize \<Rightarrow> usize \<Rightarrow> usize \<Rightarrow> usize \<Rightarrow> usize \<Rightarrow> usize \<Rightarrow> ('ek, 'dk, 'vk, 'sk) crypto_ffi" where
  "shawncore_crypto_aead_encrypt P L enc_key_ptr mac_key_ptr nonce aad aad_len plaintext ciphertext data_len out_mac =
     (if enc_key_ptr = 0 \<or> mac_key_ptr = 0 \<or> nonce = 0 \<or> (plaintext = 0 \<and> data_len > 0) \<or> (ciphertext = 0 \<and> data_len > 0) \<or> out_mac = 0
      then ret (crypto_err_code InvalidState)
      else if (aad = 0 \<and> aad_len > 0) \<or> \<not> range_ok aad aad_len \<or> \<not> packet_len_valid data_len \<or>
         \<not> range_ok plaintext data_len \<or> \<not> range_ok ciphertext data_len
      then ret (crypto_err_code InvalidLength)
      else if aead_encrypt_buffers_overlap enc_key_ptr mac_key_ptr nonce aad aad_len plaintext ciphertext out_mac data_len
      then ret (crypto_err_code InvalidLength)
      else bindP (read_bytes enc_key_ptr 32) (\<lambda>enc_key_ref.
        bindP (read_bytes mac_key_ptr 32) (\<lambda>mac_key_ref.
        bindP (read_bytes nonce 12) (\<lambda>nonce_ref.
        bindP (slice_from_raw_parts aad aad_len) (\<lambda>aad_slice.
        bindP (slice_from_raw_parts plaintext data_len) (\<lambda>pt_slice.
        bindP (slice_from_raw_parts ciphertext data_len) (\<lambda>ct_slice.
        bindP (read_bytes out_mac 48) (\<lambda>out_mac_ref.
        bindP (hostP (aead_encrypt P enc_key_ref mac_key_ref nonce_ref aad_slice pt_slice ct_slice out_mac_ref)) (\<lambda>(r, ct', mac').
        seqP (write_slice (crypto_objs L) ciphertext (unat data_len) ct')
       (seqP (write_slice (crypto_objs L) out_mac 48 mac')
             (ret (crypto_code r))))))))))))"

definition shawncore_crypto_aead_decrypt ::
  "('ek, 'dk, 'vk, 'sk) prims \<Rightarrow> ('ek, 'dk, 'vk, 'sk) crypto_layouts \<Rightarrow> usize \<Rightarrow> usize \<Rightarrow> usize \<Rightarrow> usize \<Rightarrow> usize \<Rightarrow> usize \<Rightarrow> usize \<Rightarrow> usize \<Rightarrow> usize \<Rightarrow> ('ek, 'dk, 'vk, 'sk) crypto_ffi" where
  "shawncore_crypto_aead_decrypt P L enc_key_ptr mac_key_ptr nonce aad aad_len ciphertext mac plaintext data_len =
     (if enc_key_ptr = 0 \<or> mac_key_ptr = 0 \<or> nonce = 0 \<or> (ciphertext = 0 \<and> data_len > 0) \<or> mac = 0 \<or> (plaintext = 0 \<and> data_len > 0)
      then ret (crypto_err_code InvalidState)
      else if (aad = 0 \<and> aad_len > 0) \<or> \<not> range_ok aad aad_len \<or> \<not> packet_len_valid data_len \<or>
         \<not> range_ok ciphertext data_len \<or> \<not> range_ok plaintext data_len
      then ret (crypto_err_code InvalidLength)
      else if aead_decrypt_buffers_overlap enc_key_ptr mac_key_ptr nonce aad aad_len ciphertext mac plaintext data_len
      then ret (crypto_err_code InvalidLength)
      else bindP (read_bytes enc_key_ptr 32) (\<lambda>enc_key_ref.
        bindP (read_bytes mac_key_ptr 32) (\<lambda>mac_key_ref.
        bindP (read_bytes nonce 12) (\<lambda>nonce_ref.
        bindP (slice_from_raw_parts aad aad_len) (\<lambda>aad_slice.
        bindP (slice_from_raw_parts ciphertext data_len) (\<lambda>ct_slice.
        bindP (read_bytes mac 48) (\<lambda>mac_ref.
        bindP (slice_from_raw_parts plaintext data_len) (\<lambda>pt_slice.
        bindP (hostP (aead_decrypt P enc_key_ref mac_key_ref nonce_ref aad_slice ct_slice mac_ref pt_slice)) (\<lambda>(r, pt').
        seqP (write_slice (crypto_objs L) plaintext (unat data_len) pt')
             (ret (crypto_code r)))))))))))"

subsection \<open>Entropy\<close>

text \<open>These run on the memory, the global entropy state and the host.\<close>

definition global_push :: "bytes \<Rightarrow> (crypto_error + unit) entropy_prog" where
  "global_push chunk = (\<lambda>(e, h). case entropy_queue_push chunk (entropy_q e) of
       Ret r q \<Rightarrow> Ret r (e\<lparr>entropy_q := q\<rparr>, h)
     | Halt q \<Rightarrow> Halt (e\<lparr>entropy_q := q\<rparr>, h)
     | Panic q \<Rightarrow> Panic (e\<lparr>entropy_q := q\<rparr>, h)
     | Running q \<Rightarrow> Running (e\<lparr>entropy_q := q\<rparr>, h)
     | Undef \<Rightarrow> Undef)"

definition shawncore_crypto_entropy_push ::
  "usize \<Rightarrow> ('o memory \<times> (entropy_state \<times> crypto_host), nat) prog" where
  "shawncore_crypto_entropy_push chunk =
     (if chunk = 0 then ret (crypto_err_code InvalidState)
      else bindP (read_bytes chunk 32) (\<lambda>chunk_ref.
        if list_all (\<lambda>byte. byte = 0) chunk_ref \<or> list_all (\<lambda>byte. byte = 0xFF) chunk_ref
        then ret (crypto_err_code InvalidState)
        else bindP (hostP (global_push chunk_ref)) (\<lambda>r. ret (crypto_code r))))"

definition shawncore_crypto_entropy_mix ::
  "('ek, 'dk, 'vk, 'sk) prims \<Rightarrow> ('o memory \<times> (entropy_state \<times> crypto_host), nat) prog" where
  "shawncore_crypto_entropy_mix P = seqP (hostP (mix_entropy P)) (ret CRYPTO_SUCCESS)"

subsection \<open>Self test\<close>

definition sha_expected :: bytes where
  "sha_expected =
     [0xcb, 0x00, 0x75, 0x3f, 0x45, 0xa3, 0x5e, 0x8b, 0xb5, 0xa0, 0x3d, 0x69, 0x9a, 0xc6, 0x50, 0x07,
      0x27, 0x2c, 0x32, 0xab, 0x0e, 0xde, 0xd1, 0x63, 0x1a, 0x8b, 0x60, 0x5a, 0x43, 0xff, 0x5b, 0xed,
      0x80, 0x86, 0x07, 0x2b, 0xa1, 0xe7, 0xcc, 0x23, 0x58, 0xba, 0xec, 0xa1, 0x34, 0xc8, 0x25, 0xa7]"

definition hmac_expected :: bytes where
  "hmac_expected =
     [0xc3, 0xf1, 0x61, 0x59, 0x43, 0xd1, 0xdd, 0x07, 0xa8, 0x3b, 0xb6, 0x44, 0xb9, 0x7f, 0xb3, 0xdc,
      0x2b, 0x8a, 0x93, 0x6a, 0xa5, 0x38, 0x9d, 0xe2, 0xa3, 0xe9, 0xdd, 0x91, 0xbc, 0x3b, 0xae, 0x0d,
      0x0c, 0x30, 0x33, 0x4a, 0x30, 0x17, 0x33, 0xaa, 0x54, 0xed, 0x5e, 0x1f, 0x07, 0x69, 0xe8, 0x68]"

definition hkdf_expected :: bytes where
  "hkdf_expected =
     [0xaf, 0x5e, 0x50, 0x8e, 0xb4, 0xbb, 0xde, 0x0b, 0xc4, 0xef, 0xeb, 0x3b, 0x15, 0x31, 0xe9, 0x5b,
      0x93, 0x34, 0x7f, 0x29, 0x2d, 0x76, 0xc1, 0x57, 0x4e, 0x6c, 0x42, 0xad, 0x47, 0xc0, 0x17, 0x88]"

definition x25519_expected :: bytes where
  "x25519_expected =
     [0x07, 0x91, 0x1f, 0xea, 0x37, 0x85, 0xe6, 0xcd, 0x67, 0x63, 0xe1, 0xfd, 0x5d, 0xab, 0x46, 0x1f,
      0xc0, 0x8a, 0x68, 0x41, 0xaf, 0x21, 0xdb, 0x4a, 0x8a, 0xc7, 0xb7, 0xf9, 0x9b, 0x64, 0x10, 0x3a]"

definition chacha_expected :: bytes where
  "chacha_expected =
     [0x76, 0xb8, 0xe0, 0xad, 0xa0, 0xf1, 0x3d, 0x90, 0x40, 0x5d, 0x6a, 0xe5, 0x53, 0x86, 0xbd, 0x28,
      0xbd, 0xd2, 0x19, 0xb8, 0xa0, 0x8d, 0xed, 0x1a, 0xa8, 0x36, 0xef, 0xcc, 0x8b, 0x77, 0x0d, 0xc7,
      0xda, 0x41, 0x59, 0x7c, 0x51, 0x57, 0x48, 0x8d, 0x77, 0x24, 0xe0, 0x3f, 0xb8, 0xd8, 0x4a, 0x37,
      0x6a, 0x43, 0xb8, 0xf4, 0x15, 0x18, 0xa1, 0x1c, 0xc3, 0x87, 0xb6, 0x69, 0xb2, 0xee, 0x65, 0x86]"

definition shawncore_crypto_self_test :: "('ek, 'dk, 'vk, 'sk) prims \<Rightarrow> (crypto_host, nat) prog" where
  "shawncore_crypto_self_test P =
     (let failed = ret (crypto_err_code VerificationFailed) in
      if sha384_digest P (ascii ''abc'') \<noteq> sha_expected then failed
      else bindP (hmac_sha384 P (replicate 32 0x0b) (ascii ''Hi There'')) (\<lambda>r. case r of
        Inl _ \<Rightarrow> failed
      | Inr hmac_result \<Rightarrow>
        if hmac_result \<noteq> hmac_expected then failed
        else bindP (hkdf_expand_sha384 P (replicate 48 0x0b) (ascii ''test'') (zeros 32)) (\<lambda>(r, hkdf_output).
        if \<not> is_ok r then failed
        else if hkdf_output \<noteq> hkdf_expected then failed
        else case x25519_keygen P (replicate 32 0x42) of (alice_public, alice_secret) \<Rightarrow>
             case x25519_keygen P (replicate 32 0x24) of (bob_public, _) \<Rightarrow>
        bindP (x25519_diffie_hellman P alice_secret bob_public) (\<lambda>r. case r of
          Inl _ \<Rightarrow> failed
        | Inr x25519_result \<Rightarrow>
          if x25519_result \<noteq> x25519_expected then failed
          else bindP (aead_encrypt P (zeros 32) (zeros 32) (zeros 12) [] (zeros 64) (zeros 64) (zeros 48))
            (\<lambda>(r, keystream, unused_tag).
              if \<not> is_ok r \<or> keystream \<noteq> chacha_expected then failed
              else ret CRYPTO_SUCCESS)))))"

subsection \<open>Shared facts\<close>

lemma obj_size_crypto [simp]: "obj_size (crypto_objs L) x = layout_size (crypto_obj_layout L x)"
  by (simp add: crypto_objs_def)

lemma written_Nil [simp]: "written M p [] m = m"
  by (simp add: written_def put_bytes_def clobber_def option.case_eq_if fun_eq_iff if_distrib cong: if_cong)

lemma write_slice_eval [simp]: "write_slice M p n bs (m, h) = Ret () (written M p (take n bs) m, h)"
  by (simp add: write_slice_def)

lemma unat_less_word: "unat (n :: usize) < 18446744073709551616"
  using unsigned_less [of n, where ?'a = nat] by simp

end
