(* ===== verification/Boundary_Packets.thy ===== *)
theory Boundary_Packets
  imports Crypto_Ffi_Keys
begin

text \<open>
  What the checks of the crypto boundary guarantee.  The overlap tests are exact: a pair of ranges is
  refused if and only if it shares an address or wraps.  Hence outputs, inputs and the session of an
  accepted call are apart, and a packet that one session encrypts through the boundary is decrypted
  by its peer through the boundary to the plaintext that was in memory.
\<close>

subsection \<open>Overlap tests\<close>

lemma ranges_overlap_iff:
  "ranges_overlap a n b m \<longleftrightarrow> n \<noteq> 0 \<and> m \<noteq> 0 \<and>
     (2 ^ 64 \<le> unat a + unat n \<or> 2 ^ 64 \<le> unat b + unat m \<or> regions_meet (a, n) (b, m))"
proof (cases "n \<noteq> 0 \<and> m \<noteq> 0 \<and> unat a + unat n < 2 ^ 64 \<and> unat b + unat m < 2 ^ 64")
  case True
  then have e: "checked_add a n = Some (a + n)" "checked_add b m = Some (b + m)"
    by (simp_all add: checked_add_def)
  show ?thesis
    using True regions_meet_intervals [of n m a b]
    by (simp add: ranges_overlap_def e word_less_nat_alt unat_checked_add [OF e(1)] unat_checked_add [OF e(2)]
        del: regions_meet.simps)
next
  case False
  then show ?thesis by (auto simp: ranges_overlap_def checked_add_def)
qed

lemma overlap_apart:
  assumes "\<not> ranges_overlap a n b m"
  shows "\<not> regions_meet (a, n) (b, m)" "\<not> regions_meet (b, m) (a, n)"
proof -
  show "\<not> regions_meet (a, n) (b, m)"
    using assms by (auto simp: ranges_overlap_iff)
  then show "\<not> regions_meet (b, m) (a, n)" using regions_meet_sym by blast
qed

text \<open>The loop over pairs looks at every two of the regions.\<close>

definition conflict :: "usize \<times> usize \<times> bool \<Rightarrow> usize \<times> usize \<times> bool \<Rightarrow> bool" where
  "conflict x y \<longleftrightarrow> (snd (snd x) \<or> snd (snd y)) \<and>
     ranges_overlap (fst x) (fst (snd x)) (fst y) (fst (snd y))"

lemma ranges_overlap_nonempty: "ranges_overlap a n b m \<Longrightarrow> 0 < n \<and> 0 < m"
  by (simp add: ranges_overlap_def word_gt_0 split: if_splits)

lemma writable_regions_overlap_iff:
  "writable_regions_overlap rs \<longleftrightarrow> (\<exists>i j. i < j \<and> j < length rs \<and> conflict (rs ! i) (rs ! j))"
proof -
  have pair: "(case y of (second, second_len, second_mut) \<Rightarrow>
      (first_mut \<or> second_mut) \<and> first_len > 0 \<and> second_len > 0 \<and>
      ranges_overlap first first_len second second_len) \<longleftrightarrow> conflict (first, first_len, first_mut) y"
    for first first_len first_mut y
    using ranges_overlap_nonempty [of first first_len] by (cases y) (auto simp: conflict_def)
  have "\<not> writable_regions_overlap rs \<longleftrightarrow> sorted_wrt (\<lambda>x y. \<not> conflict x y) rs"
    by (induction rs rule: writable_regions_overlap.induct) (simp_all add: list_ex_iff pair)
  then show ?thesis unfolding sorted_wrt_iff_nth_less by blast
qed

subsection \<open>Memory after a packet call\<close>

lemma as_session_Some [simp]: "as_session y = Some s \<longleftrightarrow> y = ObjSession s"
  by (cases y) simp_all

text \<open>
  The memory after an accepted encryption: the session with its counter advanced, then the
  ciphertext, the nonce and the tag.
\<close>

definition sealed_memory ::
  "('ek, 'dk, 'vk, 'sk) crypto_layouts \<Rightarrow> usize \<Rightarrow> 'dk session_manager \<Rightarrow> usize \<Rightarrow> bytes \<Rightarrow> usize \<Rightarrow> usize \<Rightarrow>
   bytes \<Rightarrow> ('ek, 'dk, 'vk, 'sk) crypto_obj memory \<Rightarrow> ('ek, 'dk, 'vk, 'sk) crypto_obj memory" where
  "sealed_memory L ma a ct c nonce tag t m =
     written (crypto_objs L) tag t (written (crypto_objs L) nonce (tx_nonce (tx_counter a))
       (written (crypto_objs L) ct c
         (put_obj (crypto_objs L) ma (ObjSession (a\<lparr>tx_counter := tx_counter a + 1\<rparr>)) m)))"

text \<open>The arguments the two packet functions accept: the negation of their first conditional.\<close>

definition encrypt_arguments_ok ::
  "('ek, 'dk, 'vk, 'sk) crypto_layouts \<Rightarrow> usize \<Rightarrow> usize \<Rightarrow> usize \<Rightarrow> usize \<Rightarrow> usize \<Rightarrow> usize \<Rightarrow> usize \<Rightarrow> usize \<Rightarrow> bool" where
  "encrypt_arguments_ok L ma aad aad_len pt ct n nonce tag \<longleftrightarrow>
     ma \<noteq> 0 \<and> ptr_is_aligned (l_session L) ma \<and> (n > 0 \<longrightarrow> pt \<noteq> 0 \<and> ct \<noteq> 0) \<and> nonce \<noteq> 0 \<and> tag \<noteq> 0 \<and>
     (aad_len > 0 \<longrightarrow> aad \<noteq> 0) \<and> range_ok aad aad_len \<and> packet_len_valid n \<and> range_ok pt n \<and> range_ok ct n \<and>
     \<not> session_encrypt_buffers_overlap L ma aad aad_len pt ct n nonce tag"

definition decrypt_arguments_ok ::
  "('ek, 'dk, 'vk, 'sk) crypto_layouts \<Rightarrow> usize \<Rightarrow> usize \<Rightarrow> usize \<Rightarrow> usize \<Rightarrow> usize \<Rightarrow> usize \<Rightarrow> usize \<Rightarrow> usize \<Rightarrow> bool" where
  "decrypt_arguments_ok L mb aad aad_len ct n nonce tag out \<longleftrightarrow>
     mb \<noteq> 0 \<and> ptr_is_aligned (l_session L) mb \<and> (n > 0 \<longrightarrow> ct \<noteq> 0 \<and> out \<noteq> 0) \<and> nonce \<noteq> 0 \<and> tag \<noteq> 0 \<and>
     (aad_len > 0 \<longrightarrow> aad \<noteq> 0) \<and> range_ok aad aad_len \<and> packet_len_valid n \<and> range_ok ct n \<and> range_ok out n \<and>
     \<not> session_decrypt_buffers_overlap L mb aad aad_len ct n nonce tag out"

lemma encrypt_boundary_cases:
  assumes ok: "chacha_ok P" "hmac_ok P" "crypto_flush_cb h \<noteq> 0" "length k = 64"
    and a: "is_established a" "pending_auth a = None" "tx_key a = Some k" "tx_counter a \<noteq> - 1"
    and obj: "mem_objs m ma = Some (ObjSession a)"
    and seal: "seal P (take 32 k) (drop 32 k) (tx_nonce (tx_counter a)) (bytes_at m aad (unat aad_len))
        (bytes_at m pt (unat n)) = (c, t)"
  obtains "shawncore_crypto_session_manager_encrypt_packet P L ma aad aad_len pt ct n nonce tag (m, h) =
      Ret (crypto_err_code InvalidLength) (m, h)"
    "\<not> encrypt_arguments_ok L ma aad aad_len pt ct n nonce tag"
  | "shawncore_crypto_session_manager_encrypt_packet P L ma aad aad_len pt ct n nonce tag (m, h) =
      Ret 0 (sealed_memory L ma a ct c nonce tag t m, flushed t (flushed c h))"
    "unat n \<le> CHACHA20_MAX_BYTES" "length c = unat n" "length t = 48"
    "encrypt_arguments_ok L ma aad aad_len pt ct n nonce tag"
proof (cases "encrypt_arguments_ok L ma aad aad_len pt ct n nonce tag")
  case False
  then show ?thesis
    by (intro that(1)) (auto simp: encrypt_arguments_ok_def shawncore_crypto_session_manager_encrypt_packet_def)
next
  case True
  then have len: "unat n \<le> CHACHA20_MAX_BYTES" by (simp add: encrypt_arguments_ok_def packet_len_valid_def)
  then have lens: "length (bytes_at m pt (unat n)) \<le> CHACHA20_MAX_BYTES"
    "length (bytes_at m ct (unat n)) = length (bytes_at m pt (unat n))"
    by simp_all
  note enc = encrypt_packet_seals [OF ok a lens seal]
  have "on_obj (crypto_objs L) as_session ObjSession ma
      (encrypt_packet P (bytes_at m aad (unat aad_len)) (bytes_at m pt (unat n)) (bytes_at m ct (unat n))
        (bytes_at m nonce 12) (bytes_at m tag 48)) (m, h) =
    Ret (Ok (), c, tx_nonce (tx_counter a), t)
      (put_obj (crypto_objs L) ma (ObjSession (a\<lparr>tx_counter := tx_counter a + 1\<rparr>)) m, flushed t (flushed c h))"
    by (rule on_obj_eval [OF obj], simp, rule enc(1))
  then have "shawncore_crypto_session_manager_encrypt_packet P L ma aad aad_len pt ct n nonce tag (m, h) =
      Ret 0 (sealed_memory L ma a ct c nonce tag t m, flushed t (flushed c h))"
    using True enc(2,3)
    by (simp add: sealed_memory_def encrypt_arguments_ok_def
        shawncore_crypto_session_manager_encrypt_packet_def) blast
  then show ?thesis using that(2) len enc(2,3) True by simp
qed

text \<open>What the receiver finds in that memory.\<close>

lemma sealed_memory_contents:
  assumes len: "length c = unat n" "length t = 48"
    and ok: "encrypt_arguments_ok L ma aad aad_len pt ct n nonce tag"
  shows "bytes_at (sealed_memory L ma a ct c nonce tag t m) ct (unat n) = c" "bytes_at (sealed_memory L ma a ct c nonce tag t m) nonce 12 = tx_nonce (tx_counter a)" "bytes_at (sealed_memory L ma a ct c nonce tag t m) tag 48 = t"
    "bytes_at (sealed_memory L ma a ct c nonce tag t m) aad (unat aad_len) = bytes_at m aad (unat aad_len)"
proof -
  have lt: "unat n < 18446744073709551616" "unat aad_len < 18446744073709551616"
    by (rule unat_less_word)+
  have apart: "\<not> regions_meet (ma, layout_size (l_session L)) (aad, aad_len)"
    "\<not> regions_meet (ct, n) (aad, aad_len)" "\<not> regions_meet (nonce, 12) (aad, aad_len)"
    "\<not> regions_meet (tag, 48) (aad, aad_len)" "\<not> regions_meet (nonce, 12) (ct, n)"
    "\<not> regions_meet (tag, 48) (ct, n)" "\<not> regions_meet (tag, 48) (nonce, 12)"
    using ok by (simp_all add: encrypt_arguments_ok_def session_encrypt_buffers_overlap_def Let_def overlap_apart del: regions_meet.simps)
  note simps = sealed_memory_def bytes_at_written bytes_at_written_apart bytes_at_put_obj_apart
    apart len lt
  show "bytes_at (sealed_memory L ma a ct c nonce tag t m) ct (unat n) = c" "bytes_at (sealed_memory L ma a ct c nonce tag t m) nonce 12 = tx_nonce (tx_counter a)" "bytes_at (sealed_memory L ma a ct c nonce tag t m) tag 48 = t"
    "bytes_at (sealed_memory L ma a ct c nonce tag t m) aad (unat aad_len) = bytes_at m aad (unat aad_len)"
    by (simp_all add: simps del: regions_meet.simps)
qed

lemma sealed_memory_objects:
  assumes "length c = unat n" "length t = 48" "mem_objs m mb = Some x" "mb \<noteq> ma"
    and "list_all (\<lambda>r. \<not> regions_meet (mb, obj_size (crypto_objs L) x) r)
      [(ma, layout_size (l_session L)), (ct, n), (nonce, 12), (tag, 48)]"
  shows "mem_objs (sealed_memory L ma a ct c nonce tag t m) mb = Some x"
  using assms by (simp add: sealed_memory_def written_lookup put_obj_lookup clobber_apart del: regions_meet.simps)

lemma decrypt_boundary_cases:
  assumes ok: "chacha_ok P" "hmac_ok P" "crypto_flush_cb h \<noteq> 0" "length k = 64"
    and b: "is_established b" "pending_auth b = None" "rx_key b = Some k"
    and obj: "mem_objs m mb = Some (ObjSession b)"
    and chk: "check_rx_nonce b (bytes_at m nonce 12) = Ok ()"
    and seal: "seal P (take 32 k) (drop 32 k) (bytes_at m nonce 12) (bytes_at m aad (unat aad_len)) p =
        (bytes_at m ct (unat n), bytes_at m tag 48)" "length p = unat n" "unat n \<le> CHACHA20_MAX_BYTES"
  obtains "shawncore_crypto_session_manager_decrypt_packet P L mb aad aad_len ct n nonce tag out (m, h) =
      Ret (crypto_err_code InvalidLength) (m, h)"
    "\<not> decrypt_arguments_ok L mb aad aad_len ct n nonce tag out"
  | "shawncore_crypto_session_manager_decrypt_packet P L mb aad aad_len ct n nonce tag out (m, h) =
      Ret 0 (written (crypto_objs L) out p
        (put_obj (crypto_objs L) mb (ObjSession (commit_rx_nonce b (bytes_at m nonce 12))) m), flushed p h)"
    "decrypt_arguments_ok L mb aad aad_len ct n nonce tag out"
proof (cases "decrypt_arguments_ok L mb aad aad_len ct n nonce tag out")
  case False
  then show ?thesis
    by (intro that(1)) (auto simp: decrypt_arguments_ok_def shawncore_crypto_session_manager_decrypt_packet_def)
next
  case True
  have lens: "length p \<le> CHACHA20_MAX_BYTES" "length (bytes_at m out (unat n)) = length p"
    using seal by simp_all
  have "on_obj (crypto_objs L) as_session ObjSession mb
      (decrypt_packet P (bytes_at m aad (unat aad_len)) (bytes_at m ct (unat n)) (bytes_at m nonce 12)
        (bytes_at m tag 48) (bytes_at m out (unat n))) (m, h) =
    Ret (Ok (), p) (put_obj (crypto_objs L) mb (ObjSession (commit_rx_nonce b (bytes_at m nonce 12))) m, flushed p h)"
    by (rule on_obj_eval [OF obj], simp,
        rule decrypt_packet_opens [OF ok b chk length_bytes_at lens seal(1)])
  then have "shawncore_crypto_session_manager_decrypt_packet P L mb aad aad_len ct n nonce tag out (m, h) =
      Ret 0 (written (crypto_objs L) out p
        (put_obj (crypto_objs L) mb (ObjSession (commit_rx_nonce b (bytes_at m nonce 12))) m), flushed p h)"
    using True seal(2) by (simp add: decrypt_arguments_ok_def
        shawncore_crypto_session_manager_decrypt_packet_def) blast
  then show ?thesis using that(2) True by simp
qed

subsection \<open>Properties\<close>

text \<open>
  C17: A packet crosses the boundary.  Let the primitives behave as documented and the cache flush be
  registered.  Let both sessions be established with no confirmation pending, let the 64-byte transmit
  key of the session stored at \<open>ma\<close> be the receive key of the session at \<open>mb\<close>, which lies apart from
  the other session and the three outputs, and let the sender's counter be unexhausted and fresh for
  the receiver.  The encryption call returns;
  unless it refuses its arguments and leaves memory as it was, the decryption call on the addresses
  it wrote returns as well, and unless that one refuses its arguments it leaves the original
  plaintext at \<open>out\<close> and the receiver with the nonce recorded.  No overlap of buffers that the
  checks let through can spoil this.
\<close>

theorem packet_crosses_boundary:
  assumes "chacha_ok P" "hmac_ok P" "crypto_flush_cb h \<noteq> 0" "length k = 64"
    and "is_established a" "pending_auth a = None" "tx_key a = Some k" "tx_counter a \<noteq> - 1"
    and "is_established b" "pending_auth b = None" "rx_key b = Some k"
    and "check_rx_nonce b (tx_nonce (tx_counter a)) = Ok ()"
    and "mem_objs m ma = Some (ObjSession a)" "mem_objs m mb = Some (ObjSession b)" "mb \<noteq> ma"
    and "list_all (\<lambda>r. \<not> regions_meet (mb, layout_size (l_session L)) r)
      [(ma, layout_size (l_session L)), (ct, n), (nonce, 12), (tag, 48)]"
  shows "\<exists>r m1 h1.
    shawncore_crypto_session_manager_encrypt_packet P L ma aad aad_len pt ct n nonce tag (m, h) = Ret r (m1, h1) \<and>
    (r = crypto_err_code InvalidLength \<and> m1 = m \<and> \<not> encrypt_arguments_ok L ma aad aad_len pt ct n nonce tag \<or>
     r = 0 \<and> (\<exists>r2 m2 h2.
       shawncore_crypto_session_manager_decrypt_packet P L mb aad aad_len ct n nonce tag out (m1, h1) = Ret r2 (m2, h2) \<and>
       (r2 = crypto_err_code InvalidLength \<and> m2 = m1 \<and> \<not> decrypt_arguments_ok L mb aad aad_len ct n nonce tag out \<or>
        r2 = 0 \<and> bytes_at m2 out (unat n) = bytes_at m pt (unat n) \<and>
        mem_objs m2 mb = Some (ObjSession (commit_rx_nonce b (tx_nonce (tx_counter a)))))))"
proof -
  obtain c t where s: "seal P (take 32 k) (drop 32 k) (tx_nonce (tx_counter a)) (bytes_at m aad (unat aad_len))
      (bytes_at m pt (unat n)) = (c, t)" by fastforce
  consider "shawncore_crypto_session_manager_encrypt_packet P L ma aad aad_len pt ct n nonce tag (m, h) =
      Ret (crypto_err_code InvalidLength) (m, h)"
      "\<not> encrypt_arguments_ok L ma aad aad_len pt ct n nonce tag"
  | (enc) "shawncore_crypto_session_manager_encrypt_packet P L ma aad aad_len pt ct n nonce tag (m, h) =
      Ret 0 (sealed_memory L ma a ct c nonce tag t m, flushed t (flushed c h))"
    "unat n \<le> CHACHA20_MAX_BYTES" "length c = unat n" "length t = 48"
    "encrypt_arguments_ok L ma aad aad_len pt ct n nonce tag"
    by (rule encrypt_boundary_cases [OF assms(1-8,13) s])
  then show ?thesis
  proof cases
    case enc
    let ?m = "sealed_memory L ma a ct c nonce tag t m" and ?h = "flushed t (flushed c h)"
    note mem = sealed_memory_contents [OF enc(3-5), of a m]
    have obj: "mem_objs ?m mb = Some (ObjSession b)"
      by (rule sealed_memory_objects [OF enc(3,4) assms(14,15)]) (use assms(16) in simp)
    consider "shawncore_crypto_session_manager_decrypt_packet P L mb aad aad_len ct n nonce tag out (?m, ?h) =
        Ret (crypto_err_code InvalidLength) (?m, ?h)"
      "\<not> decrypt_arguments_ok L mb aad aad_len ct n nonce tag out"
    | "shawncore_crypto_session_manager_decrypt_packet P L mb aad aad_len ct n nonce tag out (?m, ?h) =
        Ret 0 (written (crypto_objs L) out (bytes_at m pt (unat n)) (put_obj (crypto_objs L) mb
          (ObjSession (commit_rx_nonce b (tx_nonce (tx_counter a)))) ?m), flushed (bytes_at m pt (unat n)) ?h)"
      "\<not> regions_meet (mb, layout_size (l_session L)) (out, n)"
      using decrypt_boundary_cases [OF assms(1,2) _ assms(4,9-11) obj, where h = ?h and nonce = nonce and aad = aad
          and aad_len = aad_len and p = "bytes_at m pt (unat n)" and ct = ct and n = n and tag = tag
          and out = out and L = L and thesis = thesis]
        assms(3,12) enc(2) s
      by (simp add: mem decrypt_arguments_ok_def session_decrypt_buffers_overlap_def Let_def overlap_apart del: regions_meet.simps)
    then show ?thesis
      by cases (simp_all add: enc(1) unat_less_word bytes_at_written written_lookup put_obj_lookup clobber_apart
          del: regions_meet.simps)
  qed simp
qed

definition demo_crypto_layouts :: "(bytes, bytes, bytes, bytes) crypto_layouts" where
  "demo_crypto_layouts = (let T = \<lparr>layout_size = 512, layout_align = 8\<rparr> in
     \<lparr>l_session = T, l_kem_pk = T, l_kem_dk = T, l_kem_shared = T, l_kem_ct = T, l_dsa_pk = T, l_dsa_sk = T,
      l_dsa_sig = T, l_x_pub = T, l_x_sec = T, l_x_shared = T, l_crypto_repr = \<lambda>_ _. 0\<rparr>)"

definition demo_crypto_memory :: "(bytes, bytes, bytes, bytes) crypto_obj memory" where
  "demo_crypto_memory = \<lparr>mem_bytes = (\<lambda>x. if x = 0x3000 then 42 else 7),
     mem_objs = [0x1000 \<mapsto> ObjSession demo_session, 0x2000 \<mapsto> ObjSession demo_session]\<rparr>"

lemma demo_packet_arguments:
  "encrypt_arguments_ok demo_crypto_layouts 0x1000 0 0 0x3000 0x4000 2 0x5000 0x6000"
  "decrypt_arguments_ok demo_crypto_layouts 0x2000 0 0 0x4000 2 0x5000 0x6000 0x7000"
  by (simp_all add: encrypt_arguments_ok_def decrypt_arguments_ok_def demo_crypto_layouts_def Let_def
      ptr_is_aligned_def is_multiple_of_def range_ok_def packet_len_valid_def CHACHA20_MAX_BYTES_def
      slice_len_valid_def MAX_SLICE_LEN_def session_encrypt_buffers_overlap_def session_decrypt_buffers_overlap_def ranges_overlap_def
      checked_add_def)

theorem packet_crosses_boundary_witness:
  "\<exists>m1 h1 m2 h2.
    shawncore_crypto_session_manager_encrypt_packet toy demo_crypto_layouts 0x1000 0 0 0x3000 0x4000 2 0x5000 0x6000
      (demo_crypto_memory, demo_crypto_host) = Ret 0 (m1, h1) \<and>
    shawncore_crypto_session_manager_decrypt_packet toy demo_crypto_layouts 0x2000 0 0 0x4000 2 0x5000 0x6000 0x7000
      (m1, h1) = Ret 0 (m2, h2) \<and> bytes_at m2 0x7000 2 = [42, 7]"
proof -
  have s: "is_established demo_session" "pending_auth demo_session = None" "tx_key demo_session = Some (zeros 64)"
    "tx_counter demo_session \<noteq> - 1" "rx_key demo_session = Some (zeros 64)"
    "check_rx_nonce demo_session (tx_nonce (tx_counter demo_session)) = Ok ()"
    by (simp_all add: demo_session_def session_new_def rx_check_iff [of _ "{}"] fresh_seq_def)
  have m: "mem_objs demo_crypto_memory 0x1000 = Some (ObjSession demo_session)"
    "mem_objs demo_crypto_memory 0x2000 = Some (ObjSession demo_session)"
    "(0x2000 :: usize) \<noteq> 0x1000"
    by (simp_all add: demo_crypto_memory_def)
  have pt: "bytes_at demo_crypto_memory 0x3000 2 = [42, 7]"
    by (simp add: demo_crypto_memory_def bytes_at_def upt_rec [of _ 2] upt_rec [of _ 2])
  have "list_all (\<lambda>r. \<not> regions_meet (0x2000, layout_size (l_session demo_crypto_layouts)) r)
      [(0x1000, layout_size (l_session demo_crypto_layouts)), (0x4000, 2), (0x5000, 12), (0x6000, 48)]"
    by (simp add: demo_crypto_layouts_def Let_def)
  from packet_crosses_boundary [OF toy_ok(4) toy_ok(2) demo_crypto_flush length_zeros s(1-4,1,2,5,6) m(1-3) this,
      of 0 0 "0x3000" "0x7000"]
  show ?thesis using demo_packet_arguments pt by auto
qed

end
