(* ===== verification/Boundary_Codecs.thy ===== *)
theory Boundary_Codecs
  imports Boundary_Packets
begin

text \<open>
  Values that cross the crypto boundary as bytes.  What a wire codec needs to be faithful is a
  locale; the codecs of the crate are its instances, so that a value encoded through the boundary
  and decoded through the boundary is the same value.  The known-answer self test is here too: it
  passes exactly when the primitives give the five known answers.
\<close>

subsection \<open>Wire codecs\<close>

text \<open>
  An encoded and decoded value: the encoding call at \<open>v\<close> returns; unless it refuses its arguments
  and leaves memory as it was, the encoding is at \<open>buf\<close>, the value is still at \<open>v\<close>, and the
  decoding call returns and, unless it refuses its arguments, leaves the value at \<open>w\<close>.
\<close>

definition codec_round_trips ::
  "(usize \<Rightarrow> usize \<Rightarrow> usize \<Rightarrow> ('ek, 'dk, 'vk, 'sk) crypto_ffi) \<Rightarrow>
   (usize \<Rightarrow> usize \<Rightarrow> usize \<Rightarrow> ('ek, 'dk, 'vk, 'sk) crypto_ffi) \<Rightarrow> ('ek, 'dk, 'vk, 'sk) crypto_obj \<Rightarrow> bytes \<Rightarrow>
   ('ek, 'dk, 'vk, 'sk) crypto_obj memory \<Rightarrow> usize \<Rightarrow> usize \<Rightarrow> usize \<Rightarrow> usize \<Rightarrow> crypto_host \<Rightarrow> bool" where
  "codec_round_trips to_bytes from_bytes x bs m v buf len w h \<longleftrightarrow>
     (\<exists>r m1. to_bytes v buf len (m, h) = Ret r (m1, h) \<and>
       (r \<in> {crypto_err_code InvalidState, crypto_err_code InvalidLength} \<and> m1 = m \<or>
        r = 0 \<and> bytes_at m1 buf (length bs) = bs \<and> mem_objs m1 v = Some x \<and>
        (\<exists>r2 m2. from_bytes buf len w (m1, h) = Ret r2 (m2, h) \<and>
          (r2 \<in> {crypto_err_code InvalidState, crypto_err_code InvalidLength} \<and> m2 = m1 \<or>
           r2 = 0 \<and> mem_objs m2 w = Some x))))"

locale wire_codec =
  fixes T :: "('ek, 'dk, 'vk, 'sk) crypto_layouts \<Rightarrow> type_layout" and n :: nat
    and sel :: "('ek, 'dk, 'vk, 'sk) crypto_obj \<Rightarrow> 'a option" and con :: "'a \<Rightarrow> ('ek, 'dk, 'vk, 'sk) crypto_obj"
    and encode :: "'a \<Rightarrow> bytes" and decode :: "bytes \<Rightarrow> crypto_error + 'a" and valid :: "'a \<Rightarrow> bool"
  assumes sel_con: "sel (con x) = Some x"
    and con_layout: "crypto_obj_layout L (con x) = T L"
    and size_fits: "n < 2 ^ 64"
    and encode_length: "valid x \<Longrightarrow> length (encode x) = n"
    and decode_encode: "valid x \<Longrightarrow> decode (encode x) = Ok x"
begin

lemma encoded:
  assumes "valid x" "mem_objs m v = Some (con x)"
  obtains r where "wire_to_bytes L (T L) n sel encode v buf len (m, h) = Ret r (m, h)"
    "r \<in> {crypto_err_code InvalidState, crypto_err_code InvalidLength}"
  | "wire_to_bytes L (T L) n sel encode v buf len (m, h) =
      Ret 0 (written (crypto_objs L) buf (encode x) m, h)"
    "mem_objs (written (crypto_objs L) buf (encode x) m) v = Some (con x)"
proof (cases "v = 0 \<or> buf = 0 \<or> \<not> ptr_is_aligned (T L) v \<or> len \<noteq> of_nat n \<or>
    ranges_overlap v (layout_size (T L)) buf len")
  case True
  then show ?thesis
    by (intro that(1) [of "if v = 0 \<or> buf = 0 \<or> \<not> ptr_is_aligned (T L) v then crypto_err_code InvalidState
          else crypto_err_code InvalidLength"]) (auto simp: wire_to_bytes_def)
next
  case False
  then have "\<not> regions_meet (v, obj_size (crypto_objs L) (con x)) (buf, of_nat n)"
    using overlap_apart(1) by (auto simp: con_layout simp del: regions_meet.simps)
  then have "mem_objs (written (crypto_objs L) buf (encode x) m) v = Some (con x)"
    using assms by (simp add: written_lookup clobber_apart encode_length del: regions_meet.simps obj_size_crypto)
  moreover have "wire_to_bytes L (T L) n sel encode v buf len (m, h) =
      Ret 0 (written (crypto_objs L) buf (encode x) m, h)"
    using False assms
    by (simp add: wire_to_bytes_def read_obj_eval [where sel = sel, OF assms(2) sel_con] encode_length)
  ultimately show ?thesis by (rule that(2) [rotated])
qed

lemma decoded:
  assumes "valid x" "bytes_at m buf n = encode x"
  obtains r where "wire_from_bytes L (T L) n con decode buf len w (m, h) = Ret r (m, h)"
    "r \<in> {crypto_err_code InvalidState, crypto_err_code InvalidLength}"
  | "wire_from_bytes L (T L) n con decode buf len w (m, h) = Ret 0 (put_obj (crypto_objs L) w (con x) m, h)"
proof (cases "buf = 0 \<or> w = 0 \<or> \<not> ptr_is_aligned (T L) w \<or> len \<noteq> of_nat n \<or>
    ranges_overlap buf len w (layout_size (T L))")
  case True
  then show ?thesis
    by (intro that(1) [of "if buf = 0 \<or> w = 0 \<or> \<not> ptr_is_aligned (T L) w then crypto_err_code InvalidState
          else crypto_err_code InvalidLength"]) (auto simp: wire_from_bytes_def)
next
  case False
  then show ?thesis
    by (intro that(2)) (simp add: wire_from_bytes_def assms decode_encode)
qed

lemma round_trip:
  assumes x: "valid x" "mem_objs m v = Some (con x)"
  shows "codec_round_trips (wire_to_bytes L (T L) n sel encode) (wire_from_bytes L (T L) n con decode)
    (con x) (encode x) m v buf len w h"
proof -
  let ?m = "written (crypto_objs L) buf (encode x) m"
  have bs: "bytes_at ?m buf n = encode x"
    using x size_fits by (simp add: bytes_at_written encode_length)
  show ?thesis
  proof (cases rule: encoded [OF x, of L buf len h])
    case 2
    then show ?thesis
      by (cases rule: decoded [OF x(1) bs, of L len w h])
        (auto simp: codec_round_trips_def bs encode_length [OF x(1)] put_obj_lookup)
  qed (auto simp: codec_round_trips_def)
qed

end

interpretation kem_pk: wire_codec l_kem_pk ML_KEM_PUBLICKEY_BYTES as_kem_pk ObjKemPk "ml_kem_pk_to_bytes P"
  "ml_kem_pk_from_bytes P" "\<lambda>ek. length (kem_ek_to_bytes P ek) = 1568 \<and> kem_ek_new P (kem_ek_to_bytes P ek) = Some ek"
  for P
  by unfold_locales
    (simp_all add: ml_kem_pk_to_bytes_def ml_kem_pk_from_bytes_def ML_KEM_PUBLICKEY_BYTES_def)

interpretation dsa_pk: wire_codec l_dsa_pk ML_DSA_PUBLICKEY_BYTES as_dsa_pk ObjDsaPk "ml_dsa_pk_to_bytes P"
  "ml_dsa_pk_from_bytes P" "\<lambda>vk. length (dsa_vk_encode P vk) = 2592 \<and> dsa_vk_decode P (dsa_vk_encode P vk) = vk"
  for P
  by unfold_locales
    (simp_all add: ml_dsa_pk_to_bytes_def ml_dsa_pk_from_bytes_def ML_DSA_PUBLICKEY_BYTES_def)

interpretation kem_ct: wire_codec l_kem_ct 1568 as_kem_ct ObjKemCt ml_kem_ciphertext_encode ml_kem_ciphertext_decode
  "\<lambda>ct. length ct = 1568"
  by unfold_locales (simp_all add: ml_kem_ciphertext_encode_def ml_kem_ciphertext_decode_def)

interpretation x_pub: wire_codec l_x_pub 32 as_x_pub ObjXPub x25519_publickey_encode x25519_publickey_decode
  "\<lambda>pk. length pk = 32"
  by unfold_locales (simp_all add: x25519_publickey_encode_def x25519_publickey_decode_def)

interpretation dsa_sig: wire_codec l_dsa_sig ML_DSA_SIGNATURE_BYTES as_dsa_sig ObjDsaSig ml_dsa_signature_encode
  ml_dsa_signature_decode "\<lambda>s. length s = ML_DSA_SIGNATURE_BYTES"
  by unfold_locales
    (simp_all add: ml_dsa_signature_encode_def ml_dsa_signature_decode_def ML_DSA_SIGNATURE_BYTES_def)

subsection \<open>Self test\<close>

text \<open>The five known answers, and that no primitive refuses the inputs of the test.\<close>

definition known_answers :: "('ek, 'dk, 'vk, 'sk) prims \<Rightarrow> bool" where
  "known_answers P \<longleftrightarrow>
     sha384_digest P (ascii ''abc'') = sha_expected \<and>
     hmac_new P (replicate 32 0x0b) \<and> hmac_finalize P (replicate 32 0x0b) (ascii ''Hi There'') = hmac_expected \<and>
     hkdf_from_prk P (replicate 48 0x0b) \<and> hkdf_expand P (replicate 48 0x0b) (ascii ''test'') 32 = Some hkdf_expected \<and>
     dh_admissible P (x_secret_bytes P (replicate 32 0x42)) (x_public P (replicate 32 0x24)) \<and>
     x_dh P (x_secret_bytes P (replicate 32 0x42)) (x_public P (replicate 32 0x24)) = x25519_expected \<and>
     chacha_new P (zeros 32) (zeros 12) \<and> chacha_apply P (zeros 32) (zeros 12) (zeros 64) = Some chacha_expected \<and>
     hmac_new P (zeros 32)"

subsection \<open>Properties\<close>

text \<open>
  C25: Keys, ciphertexts and signatures survive the wire format.  For each of the five codecs of the
  boundary, when the encoding of a value has the documented length and the library decodes what it
  encoded, a value stored at \<open>v\<close> and encoded into \<open>buf\<close> is decoded from there to the same
  value at \<open>w\<close>; a call that refuses its arguments changes nothing.
\<close>

theorem wire_codecs_round_trip:
  assumes "length (kem_ek_to_bytes P ek) = 1568" "kem_ek_new P (kem_ek_to_bytes P ek) = Some ek"
    and "length (dsa_vk_encode P vk) = 2592" "dsa_vk_decode P (dsa_vk_encode P vk) = vk"
    and "length ct = 1568" "length pk = 32" "length sig = 4627"
    and "mem_objs m v1 = Some (ObjKemPk ek)" "mem_objs m v2 = Some (ObjKemCt ct)" "mem_objs m v3 = Some (ObjXPub pk)"
    and "mem_objs m v4 = Some (ObjDsaPk vk)" "mem_objs m v5 = Some (ObjDsaSig sig)"
  shows "codec_round_trips (shawncore_crypto_ml_kem_publickey_to_bytes P L)
      (shawncore_crypto_ml_kem_publickey_from_bytes P L) (ObjKemPk ek) (kem_ek_to_bytes P ek) m v1 buf len w h \<and>
    codec_round_trips (shawncore_crypto_ml_kem_ciphertext_to_bytes L)
      (shawncore_crypto_ml_kem_ciphertext_from_bytes L) (ObjKemCt ct) ct m v2 buf len w h \<and>
    codec_round_trips (shawncore_crypto_x25519_publickey_to_bytes L)
      (shawncore_crypto_x25519_publickey_from_bytes L) (ObjXPub pk) pk m v3 buf len w h \<and>
    codec_round_trips (shawncore_crypto_ml_dsa_publickey_to_bytes P L)
      (shawncore_crypto_ml_dsa_publickey_from_bytes P L) (ObjDsaPk vk) (dsa_vk_encode P vk) m v4 buf len w h \<and>
    codec_round_trips (shawncore_crypto_ml_dsa_signature_to_bytes L)
      (shawncore_crypto_ml_dsa_signature_from_bytes L) (ObjDsaSig sig) sig m v5 buf len w h"
proof (intro conjI)
  note defs = ml_kem_pk_to_bytes_def ml_dsa_pk_to_bytes_def ml_kem_ciphertext_encode_def x25519_publickey_encode_def
    ml_dsa_signature_encode_def ML_DSA_SIGNATURE_BYTES_def
  show "codec_round_trips (shawncore_crypto_ml_kem_publickey_to_bytes P L)
      (shawncore_crypto_ml_kem_publickey_from_bytes P L) (ObjKemPk ek) (kem_ek_to_bytes P ek) m v1 buf len w h"
    using kem_pk.round_trip [OF _ assms(8), of P L buf len w h] assms(1,2)
    by (simp add: shawncore_crypto_ml_kem_publickey_to_bytes_def shawncore_crypto_ml_kem_publickey_from_bytes_def defs)
  show "codec_round_trips (shawncore_crypto_ml_kem_ciphertext_to_bytes L)
      (shawncore_crypto_ml_kem_ciphertext_from_bytes L) (ObjKemCt ct) ct m v2 buf len w h"
    using kem_ct.round_trip [OF assms(5,9), of L buf len w h]
    by (simp add: shawncore_crypto_ml_kem_ciphertext_to_bytes_def shawncore_crypto_ml_kem_ciphertext_from_bytes_def defs)
  show "codec_round_trips (shawncore_crypto_x25519_publickey_to_bytes L)
      (shawncore_crypto_x25519_publickey_from_bytes L) (ObjXPub pk) pk m v3 buf len w h"
    using x_pub.round_trip [OF assms(6,10), of L buf len w h]
    by (simp add: shawncore_crypto_x25519_publickey_to_bytes_def shawncore_crypto_x25519_publickey_from_bytes_def defs)
  show "codec_round_trips (shawncore_crypto_ml_dsa_publickey_to_bytes P L)
      (shawncore_crypto_ml_dsa_publickey_from_bytes P L) (ObjDsaPk vk) (dsa_vk_encode P vk) m v4 buf len w h"
    using dsa_pk.round_trip [OF _ assms(11), of P L buf len w h] assms(3,4)
    by (simp add: shawncore_crypto_ml_dsa_publickey_to_bytes_def shawncore_crypto_ml_dsa_publickey_from_bytes_def defs)
  show "codec_round_trips (shawncore_crypto_ml_dsa_signature_to_bytes L)
      (shawncore_crypto_ml_dsa_signature_from_bytes L) (ObjDsaSig sig) sig m v5 buf len w h"
    using dsa_sig.round_trip [OF _ assms(12), of L buf len w h] assms(7)
    by (simp add: shawncore_crypto_ml_dsa_signature_to_bytes_def shawncore_crypto_ml_dsa_signature_from_bytes_def defs)
qed

definition demo_values :: "(bytes, bytes, bytes, bytes) crypto_obj memory" where
  "demo_values = \<lparr>mem_bytes = (\<lambda>_. 0), mem_objs = [0x1000 \<mapsto> ObjKemPk (zeros 1568), 0x2000 \<mapsto> ObjKemCt (zeros 1568),
     0x3000 \<mapsto> ObjXPub (replicate 32 9), 0x4000 \<mapsto> ObjDsaPk (zeros 2592), 0x5000 \<mapsto> ObjDsaSig (zeros 4627)]\<rparr>"

theorem wire_codecs_round_trip_witness:
  "codec_round_trips (shawncore_crypto_x25519_publickey_to_bytes demo_crypto_layouts)
      (shawncore_crypto_x25519_publickey_from_bytes demo_crypto_layouts) (ObjXPub (replicate 32 9)) (replicate 32 9)
      demo_values 0x3000 0x8000 32 0x9000 demo_crypto_host"
proof -
  have pad: "pad_to n (zeros n) = zeros n" for n by (simp add: pad_to_def)
  have k: "length (kem_ek_to_bytes toy (zeros 1568)) = 1568"
    "kem_ek_new toy (kem_ek_to_bytes toy (zeros 1568)) = Some (zeros 1568)"
    "length (dsa_vk_encode toy (zeros 2592)) = 2592"
    "dsa_vk_decode toy (dsa_vk_encode toy (zeros 2592)) = zeros 2592"
    by (simp_all add: toy_def pad)
  have m: "mem_objs demo_values 0x1000 = Some (ObjKemPk (zeros 1568))"
    "mem_objs demo_values 0x2000 = Some (ObjKemCt (zeros 1568))"
    "mem_objs demo_values 0x3000 = Some (ObjXPub (replicate 32 9))"
    "mem_objs demo_values 0x4000 = Some (ObjDsaPk (zeros 2592))"
    "mem_objs demo_values 0x5000 = Some (ObjDsaSig (zeros 4627))"
    by (simp_all add: demo_values_def)
  from wire_codecs_round_trip [OF k length_zeros length_replicate length_zeros m] show ?thesis by simp
qed

text \<open>
  The self test decides the known answers.  With a flush callback installed the self
  test returns whatever the primitives do: success if they accept the test inputs and give
  the SHA-384, HMAC, HKDF, X25519 and ChaCha20 answers, the verification error otherwise.
\<close>

theorem self_test_decides_known_answers:
  assumes "crypto_flush_cb h \<noteq> 0"
  shows "\<exists>h'. shawncore_crypto_self_test P h =
    Ret (if known_answers P then 0 else crypto_err_code VerificationFailed) h'"
  using assms
  by (cases "hkdf_expand P (replicate 48 0x0b) (ascii ''test'') 32";
      cases "chacha_apply P (zeros 32) (zeros 12) (zeros 64)")
    (auto simp: shawncore_crypto_self_test_def known_answers_def hmac_sha384_def hkdf_expand_sha384_def
      x25519_keygen_def x25519_diffie_hellman_def dh_admissible_def aead_encrypt_def Let_def CHACHA20_MAX_BYTES_def)

text \<open>Primitives that know the answers and nothing else.\<close>

definition known_answer_prims :: "(bytes, bytes, bytes, bytes) prims" where
  "known_answer_prims = toy\<lparr>sha384_digest := \<lambda>_. sha_expected, hmac_finalize := \<lambda>_ _. hmac_expected,
     hkdf_expand := \<lambda>_ _ _. Some hkdf_expected, x_dh := \<lambda>_ _. x25519_expected,
     chacha_apply := \<lambda>_ _ _. Some chacha_expected\<rparr>"

theorem self_test_decides_known_answers_witness:
  "\<exists>h'. shawncore_crypto_self_test known_answer_prims demo_crypto_host = Ret 0 h'"
proof -
  have "known_answers known_answer_prims"
    by (simp add: known_answers_def known_answer_prims_def toy_def dh_admissible_def pad_to_def list_all_iff)
  then show ?thesis
    using self_test_decides_known_answers [OF demo_crypto_flush, of known_answer_prims] by simp
qed

end
