(* ===== verification/Crypto_Boundary.thy ===== *)
theory Crypto_Boundary
  imports Crypto_Ffi_Keys
begin

text \<open>
  The boundary of the crypto crate as a whole: every exported function with arbitrary arguments is
  a call, and a call writes only the storage its object and output pointers name.
\<close>

subsection \<open>Calls\<close>

datatype session_call =
    SessionInit usize
  | SessionDestroy usize
  | SessionInitiate usize usize usize usize
  | SessionFinalize usize usize usize usize usize usize usize
  | SessionEncapsulate usize usize usize usize usize usize usize usize usize usize
  | SessionEncapsulateAuth usize usize usize usize usize usize usize usize usize usize usize usize usize usize
  | SessionFinalizeAuth usize usize usize usize usize usize usize usize usize usize usize usize usize
  | SessionConfirm usize usize usize usize
  | SessionZeroize usize
  | SessionEncrypt usize usize usize usize usize usize usize usize
  | SessionDecrypt usize usize usize usize usize usize usize usize

fun run_session_call ::
  "('ek, 'dk, 'vk, 'sk) prims \<Rightarrow> ('ek, 'dk, 'vk, 'sk) crypto_layouts \<Rightarrow> session_call \<Rightarrow> ('ek, 'dk, 'vk, 'sk) crypto_ffi" where
  "run_session_call P L (SessionInit manager) = shawncore_crypto_session_manager_init L manager"
| "run_session_call P L (SessionDestroy manager) = shawncore_crypto_session_manager_destroy L manager"
| "run_session_call P L (SessionInitiate manager entropy out_pk out_xpk) = shawncore_crypto_session_manager_initiate_handshake P L manager entropy out_pk out_xpk"
| "run_session_call P L (SessionFinalize manager xpk ct salt salt_len info info_len) = shawncore_crypto_session_manager_finalize_handshake P L manager xpk ct salt salt_len info info_len"
| "run_session_call P L (SessionEncapsulate manager pk xpk entropy salt salt_len info info_len out_ct out_xpk) = shawncore_crypto_session_manager_encapsulate_for_peer P L manager pk xpk entropy salt salt_len info info_len out_ct out_xpk"
| "run_session_call P L (SessionEncapsulateAuth manager sk vk pk xpk entropy salt salt_len app app_len out_ct out_xpk out_sig out_conf) = shawncore_crypto_session_manager_encapsulate_authenticated_v2 P L manager sk vk pk xpk entropy salt salt_len app app_len out_ct out_xpk out_sig out_conf"
| "run_session_call P L (SessionFinalizeAuth manager sk vk xpk ct sig conf salt salt_len app app_len out_sig out_conf) = shawncore_crypto_session_manager_finalize_authenticated_v2 P L manager sk vk xpk ct sig conf salt salt_len app app_len out_sig out_conf"
| "run_session_call P L (SessionConfirm manager vk sig conf) = shawncore_crypto_session_manager_confirm_peer_v2 P L manager vk sig conf"
| "run_session_call P L (SessionZeroize manager) = shawncore_crypto_session_manager_zeroize L manager"
| "run_session_call P L (SessionEncrypt manager aad aad_len pt ct n out_nonce out_tag) = shawncore_crypto_session_manager_encrypt_packet P L manager aad aad_len pt ct n out_nonce out_tag"
| "run_session_call P L (SessionDecrypt manager aad aad_len ct n nonce tag pt) = shawncore_crypto_session_manager_decrypt_packet P L manager aad aad_len ct n nonce tag pt"

fun session_writes :: "('ek, 'dk, 'vk, 'sk) crypto_layouts \<Rightarrow> session_call \<Rightarrow> region list" where
  "session_writes L (SessionInit manager) = [(manager, layout_size (l_session L))]"
| "session_writes L (SessionDestroy manager) = [(manager, layout_size (l_session L))]"
| "session_writes L (SessionInitiate manager _ out_pk out_xpk) = [(manager, layout_size (l_session L)), (out_pk, layout_size (l_kem_pk L)), (out_xpk, layout_size (l_x_pub L))]"
| "session_writes L (SessionFinalize manager _ _ _ _ _ _) = [(manager, layout_size (l_session L))]"
| "session_writes L (SessionEncapsulate manager _ _ _ _ _ _ _ out_ct out_xpk) = [(manager, layout_size (l_session L)), (out_ct, layout_size (l_kem_ct L)), (out_xpk, layout_size (l_x_pub L))]"
| "session_writes L (SessionEncapsulateAuth manager _ _ _ _ _ _ _ _ _ out_ct out_xpk out_sig out_conf) = [(manager, layout_size (l_session L)), (out_ct, layout_size (l_kem_ct L)), (out_xpk, layout_size (l_x_pub L)), (out_sig, layout_size (l_dsa_sig L)), (out_conf, 48)]"
| "session_writes L (SessionFinalizeAuth manager _ _ _ _ _ _ _ _ _ _ out_sig out_conf) = [(manager, layout_size (l_session L)), (out_sig, layout_size (l_dsa_sig L)), (out_conf, 48)]"
| "session_writes L (SessionConfirm manager _ _ _) = [(manager, layout_size (l_session L))]"
| "session_writes L (SessionZeroize manager) = [(manager, layout_size (l_session L))]"
| "session_writes L (SessionEncrypt manager _ _ _ ct n out_nonce out_tag) = [(manager, layout_size (l_session L)), (ct, n), (out_nonce, 12), (out_tag, 48)]"
| "session_writes L (SessionDecrypt manager _ _ _ n _ _ pt) = [(manager, layout_size (l_session L)), (pt, n)]"

datatype key_call =
    KemKeygen usize usize usize
  | KemDkDestroy usize
  | KemEncapsulate usize usize usize usize
  | KemDecapsulate usize usize usize
  | KemSharedDestroy usize
  | DsaKeygen usize usize usize
  | DsaSkDestroy usize
  | DsaSign usize usize usize usize
  | DsaVerify usize usize usize usize
  | XKeygen usize usize usize
  | XSecretDestroy usize
  | XDiffieHellman usize usize usize
  | XSharedDestroy usize

fun run_key_call ::
  "('ek, 'dk, 'vk, 'sk) prims \<Rightarrow> ('ek, 'dk, 'vk, 'sk) crypto_layouts \<Rightarrow> key_call \<Rightarrow> ('ek, 'dk, 'vk, 'sk) crypto_ffi" where
  "run_key_call P L (KemKeygen entropy out_pk out_dk) = shawncore_crypto_ml_kem_keygen P L entropy out_pk out_dk"
| "run_key_call P L (KemDkDestroy dk) = shawncore_crypto_ml_kem_decapskey_destroy L dk"
| "run_key_call P L (KemEncapsulate pk entropy out_ss out_ct) = shawncore_crypto_ml_kem_encapsulate P L pk entropy out_ss out_ct"
| "run_key_call P L (KemDecapsulate dk ct out_ss) = shawncore_crypto_ml_kem_decapsulate P L dk ct out_ss"
| "run_key_call P L (KemSharedDestroy ss) = shawncore_crypto_ml_kem_sharedkey_destroy L ss"
| "run_key_call P L (DsaKeygen seed out_pk out_sk) = shawncore_crypto_ml_dsa_keygen P L seed out_pk out_sk"
| "run_key_call P L (DsaSkDestroy sk) = shawncore_crypto_ml_dsa_signingkey_destroy L sk"
| "run_key_call P L (DsaSign sk msg msg_len out_sig) = shawncore_crypto_ml_dsa_sign P L sk msg msg_len out_sig"
| "run_key_call P L (DsaVerify pk msg msg_len sig) = shawncore_crypto_ml_dsa_verify P L pk msg msg_len sig"
| "run_key_call P L (XKeygen entropy out_pk out_sk) = shawncore_crypto_x25519_keygen P L entropy out_pk out_sk"
| "run_key_call P L (XSecretDestroy sk) = shawncore_crypto_x25519_secret_destroy L sk"
| "run_key_call P L (XDiffieHellman sk pk out_ss) = shawncore_crypto_x25519_diffie_hellman P L sk pk out_ss"
| "run_key_call P L (XSharedDestroy ss) = shawncore_crypto_x25519_sharedsecret_destroy L ss"

fun key_writes :: "('ek, 'dk, 'vk, 'sk) crypto_layouts \<Rightarrow> key_call \<Rightarrow> region list" where
  "key_writes L (KemKeygen _ out_pk out_dk) = [(out_pk, layout_size (l_kem_pk L)), (out_dk, layout_size (l_kem_dk L))]"
| "key_writes L (KemDkDestroy dk) = [(dk, layout_size (l_kem_dk L))]"
| "key_writes L (KemEncapsulate _ _ out_ss out_ct) = [(out_ss, layout_size (l_kem_shared L)), (out_ct, layout_size (l_kem_ct L))]"
| "key_writes L (KemDecapsulate _ _ out_ss) = [(out_ss, layout_size (l_kem_shared L))]"
| "key_writes L (KemSharedDestroy ss) = [(ss, layout_size (l_kem_shared L)), (ss, 32)]"
| "key_writes L (DsaKeygen _ out_pk out_sk) = [(out_pk, layout_size (l_dsa_pk L)), (out_sk, layout_size (l_dsa_sk L))]"
| "key_writes L (DsaSkDestroy sk) = [(sk, layout_size (l_dsa_sk L))]"
| "key_writes L (DsaSign _ _ _ out_sig) = [(out_sig, layout_size (l_dsa_sig L))]"
| "key_writes L (DsaVerify _ _ _ _) = []"
| "key_writes L (XKeygen _ out_pk out_sk) = [(out_pk, layout_size (l_x_pub L)), (out_sk, layout_size (l_x_sec L))]"
| "key_writes L (XSecretDestroy sk) = [(sk, layout_size (l_x_sec L)), (sk, 32)]"
| "key_writes L (XDiffieHellman _ _ out_ss) = [(out_ss, layout_size (l_x_shared L))]"
| "key_writes L (XSharedDestroy ss) = [(ss, layout_size (l_x_shared L)), (ss, 32)]"

datatype codec_call =
    KemPkToBytes usize usize usize
  | KemPkFromBytes usize usize usize
  | KemCtToBytes usize usize usize
  | KemCtFromBytes usize usize usize
  | XPubToBytes usize usize usize
  | XPubFromBytes usize usize usize
  | DsaPkToBytes usize usize usize
  | DsaPkFromBytes usize usize usize
  | DsaSigToBytes usize usize usize
  | DsaSigFromBytes usize usize usize

fun run_codec_call ::
  "('ek, 'dk, 'vk, 'sk) prims \<Rightarrow> ('ek, 'dk, 'vk, 'sk) crypto_layouts \<Rightarrow> codec_call \<Rightarrow> ('ek, 'dk, 'vk, 'sk) crypto_ffi" where
  "run_codec_call P L (KemPkToBytes v out len) = shawncore_crypto_ml_kem_publickey_to_bytes P L v out len"
| "run_codec_call P L (KemPkFromBytes bs len out) = shawncore_crypto_ml_kem_publickey_from_bytes P L bs len out"
| "run_codec_call P L (KemCtToBytes v out len) = shawncore_crypto_ml_kem_ciphertext_to_bytes L v out len"
| "run_codec_call P L (KemCtFromBytes bs len out) = shawncore_crypto_ml_kem_ciphertext_from_bytes L bs len out"
| "run_codec_call P L (XPubToBytes v out len) = shawncore_crypto_x25519_publickey_to_bytes L v out len"
| "run_codec_call P L (XPubFromBytes bs len out) = shawncore_crypto_x25519_publickey_from_bytes L bs len out"
| "run_codec_call P L (DsaPkToBytes v out len) = shawncore_crypto_ml_dsa_publickey_to_bytes P L v out len"
| "run_codec_call P L (DsaPkFromBytes bs len out) = shawncore_crypto_ml_dsa_publickey_from_bytes P L bs len out"
| "run_codec_call P L (DsaSigToBytes v out len) = shawncore_crypto_ml_dsa_signature_to_bytes L v out len"
| "run_codec_call P L (DsaSigFromBytes bs len out) = shawncore_crypto_ml_dsa_signature_from_bytes L bs len out"

fun codec_writes :: "('ek, 'dk, 'vk, 'sk) crypto_layouts \<Rightarrow> codec_call \<Rightarrow> region list" where
  "codec_writes L (KemPkToBytes _ out len) = [(out, len)]"
| "codec_writes L (KemPkFromBytes _ _ out) = [(out, layout_size (l_kem_pk L))]"
| "codec_writes L (KemCtToBytes _ out len) = [(out, len)]"
| "codec_writes L (KemCtFromBytes _ _ out) = [(out, layout_size (l_kem_ct L))]"
| "codec_writes L (XPubToBytes _ out len) = [(out, len)]"
| "codec_writes L (XPubFromBytes _ _ out) = [(out, layout_size (l_x_pub L))]"
| "codec_writes L (DsaPkToBytes _ out len) = [(out, len)]"
| "codec_writes L (DsaPkFromBytes _ _ out) = [(out, layout_size (l_dsa_pk L))]"
| "codec_writes L (DsaSigToBytes _ out len) = [(out, len)]"
| "codec_writes L (DsaSigFromBytes _ _ out) = [(out, layout_size (l_dsa_sig L))]"

datatype symmetric_call =
    Hmac usize usize usize usize
  | Hkdf usize usize usize usize usize
  | AeadEncrypt usize usize usize usize usize usize usize usize usize
  | AeadDecrypt usize usize usize usize usize usize usize usize usize

fun run_symmetric_call ::
  "('ek, 'dk, 'vk, 'sk) prims \<Rightarrow> ('ek, 'dk, 'vk, 'sk) crypto_layouts \<Rightarrow> symmetric_call \<Rightarrow> ('ek, 'dk, 'vk, 'sk) crypto_ffi" where
  "run_symmetric_call P L (Hmac key data n out) = shawncore_crypto_hmac_sha384 P L key data n out"
| "run_symmetric_call P L (Hkdf prk info info_len out n) = shawncore_crypto_hkdf_expand_sha384 P L prk info info_len out n"
| "run_symmetric_call P L (AeadEncrypt ek mk nonce aad aad_len pt ct n out_mac) = shawncore_crypto_aead_encrypt P L ek mk nonce aad aad_len pt ct n out_mac"
| "run_symmetric_call P L (AeadDecrypt ek mk nonce aad aad_len ct mac pt n) = shawncore_crypto_aead_decrypt P L ek mk nonce aad aad_len ct mac pt n"

fun symmetric_writes :: "('ek, 'dk, 'vk, 'sk) crypto_layouts \<Rightarrow> symmetric_call \<Rightarrow> region list" where
  "symmetric_writes L (Hmac _ _ _ out) = [(out, 48)]"
| "symmetric_writes L (Hkdf _ _ _ out n) = [(out, n)]"
| "symmetric_writes L (AeadEncrypt _ _ _ _ _ _ ct n out_mac) = [(ct, n), (out_mac, 48)]"
| "symmetric_writes L (AeadDecrypt _ _ _ _ _ _ _ pt n) = [(pt, n)]"

datatype crypto_boundary_call =
    SessionCall session_call
  | KeyCall key_call
  | CodecCall codec_call
  | SymmetricCall symmetric_call

fun crypto_boundary ::
  "('ek, 'dk, 'vk, 'sk) prims \<Rightarrow> ('ek, 'dk, 'vk, 'sk) crypto_layouts \<Rightarrow> crypto_boundary_call \<Rightarrow> ('ek, 'dk, 'vk, 'sk) crypto_ffi" where
  "crypto_boundary P L (SessionCall c) = run_session_call P L c"
| "crypto_boundary P L (KeyCall c) = run_key_call P L c"
| "crypto_boundary P L (CodecCall c) = run_codec_call P L c"
| "crypto_boundary P L (SymmetricCall c) = run_symmetric_call P L c"

fun crypto_writes :: "('ek, 'dk, 'vk, 'sk) crypto_layouts \<Rightarrow> crypto_boundary_call \<Rightarrow> region list" where
  "crypto_writes L (SessionCall c) = session_writes L c"
| "crypto_writes L (KeyCall c) = key_writes L c"
| "crypto_writes L (CodecCall c) = codec_writes L c"
| "crypto_writes L (SymmetricCall c) = symmetric_writes L c"

lemmas session_ffi_defs =
  shawncore_crypto_session_manager_init_def
  shawncore_crypto_session_manager_destroy_def
  shawncore_crypto_session_manager_initiate_handshake_def
  shawncore_crypto_session_manager_finalize_handshake_def
  shawncore_crypto_session_manager_encapsulate_for_peer_def
  shawncore_crypto_session_manager_encapsulate_authenticated_v2_def
  shawncore_crypto_session_manager_finalize_authenticated_v2_def
  shawncore_crypto_session_manager_confirm_peer_v2_def
  shawncore_crypto_session_manager_zeroize_def
  shawncore_crypto_session_manager_encrypt_packet_def
  shawncore_crypto_session_manager_decrypt_packet_def

lemmas key_ffi_defs =
  shawncore_crypto_ml_kem_keygen_def
  shawncore_crypto_ml_kem_decapskey_destroy_def
  shawncore_crypto_ml_kem_encapsulate_def
  shawncore_crypto_ml_kem_decapsulate_def
  shawncore_crypto_ml_kem_sharedkey_destroy_def
  shawncore_crypto_ml_dsa_keygen_def
  shawncore_crypto_ml_dsa_signingkey_destroy_def
  shawncore_crypto_ml_dsa_sign_def
  shawncore_crypto_ml_dsa_verify_def
  shawncore_crypto_x25519_keygen_def
  shawncore_crypto_x25519_secret_destroy_def
  shawncore_crypto_x25519_diffie_hellman_def
  shawncore_crypto_x25519_sharedsecret_destroy_def

lemmas codec_ffi_defs =
  shawncore_crypto_ml_kem_publickey_to_bytes_def
  shawncore_crypto_ml_kem_publickey_from_bytes_def
  shawncore_crypto_ml_kem_ciphertext_to_bytes_def
  shawncore_crypto_ml_kem_ciphertext_from_bytes_def
  shawncore_crypto_x25519_publickey_to_bytes_def
  shawncore_crypto_x25519_publickey_from_bytes_def
  shawncore_crypto_ml_dsa_publickey_to_bytes_def
  shawncore_crypto_ml_dsa_publickey_from_bytes_def
  shawncore_crypto_ml_dsa_signature_to_bytes_def
  shawncore_crypto_ml_dsa_signature_from_bytes_def

lemmas symmetric_ffi_defs =
  shawncore_crypto_hmac_sha384_def
  shawncore_crypto_hkdf_expand_sha384_def
  shawncore_crypto_aead_encrypt_def
  shawncore_crypto_aead_decrypt_def
subsection \<open>Calls write only the storage they are given\<close>

lemma frames_write_slice [frame_intros]:
  "(p, of_nat n) \<in> set W \<Longrightarrow> n < 2 ^ 64 \<Longrightarrow> frames M W (write_slice M p n bs)"
  by (auto simp: frames_def write_slice_def unat_of_nat intro!: untouched_written)

lemma frames_drop_array [frame_intros]:
  "(p, 32) \<in> set W \<Longrightarrow> frames M W (drop_array M sel p)"
  unfolding drop_array_def by (intro frame_intros) simp_all

lemma session_call_frames: "frames (crypto_objs L) (session_writes L c) (run_session_call P L c)"
  by (cases c; simp only: run_session_call.simps session_writes.simps session_ffi_defs;
      intro frame_intros; simp add: unat_less_word)

lemma key_call_frames: "frames (crypto_objs L) (key_writes L c) (run_key_call P L c)"
  by (cases c; simp only: run_key_call.simps key_writes.simps key_ffi_defs; intro frame_intros; simp)

lemma frames_wire_to_bytes [frame_intros]:
  assumes "(out, len) \<in> set W" "n < 2 ^ 64"
  shows "frames (crypto_objs L) W (wire_to_bytes L T n sel encode v out len)"
proof (cases "len = of_nat n")
  case True
  then show ?thesis unfolding wire_to_bytes_def using assms by (intro frame_intros) simp_all
next
  case False
  then show ?thesis unfolding wire_to_bytes_def by (simp add: frame_intros)
qed

lemma codec_call_frames: "frames (crypto_objs L) (codec_writes L c) (run_codec_call P L c)"
  by (cases c; simp only: run_codec_call.simps codec_writes.simps codec_ffi_defs wire_from_bytes_def;
      intro frame_intros;
      simp add: ML_KEM_PUBLICKEY_BYTES_def ML_DSA_PUBLICKEY_BYTES_def ML_DSA_SIGNATURE_BYTES_def)

lemma symmetric_call_frames: "frames (crypto_objs L) (symmetric_writes L c) (run_symmetric_call P L c)"
  by (cases c; simp only: run_symmetric_call.simps symmetric_writes.simps symmetric_ffi_defs;
      intro frame_intros; simp add: unat_less_word)

lemma crypto_boundary_frames: "frames (crypto_objs L) (crypto_writes L c) (crypto_boundary P L c)"
  by (cases c) (simp_all add: session_call_frames key_call_frames codec_call_frames symmetric_call_frames)

subsection \<open>Properties\<close>

text \<open>
  C20: A call of the crypto boundary writes only what its pointers name.  Whichever function the
  host calls, with whatever arguments and primitives, and however the call ends, every byte outside
  the session or key it works on and its output parameters is as before, and so is every object
  whose storage lies outside.
\<close>

theorem crypto_boundary_writes_only_outputs:
  "ends_with (\<lambda>s. untouched (crypto_objs L) (crypto_writes L c) m (fst s)) (crypto_boundary P L c (m, h))"
  using crypto_boundary_frames [of L c P] by (simp add: frames_def)

end
