(* ===== verification/Session_Invariant.thy ===== *)
theory Session_Invariant
  imports Session_Auth Program_Logic
begin

text \<open>
  An invariant of the session manager that every operation keeps, by the rules of \<open>Program_Logic\<close>.
\<close>

subsection \<open>Sizes\<close>

lemma yields_flush [post_intros]: "R () \<Longrightarrow> yields (secure_cache_flush b) R"
  by (simp add: yields_def)

text \<open>
  The results of the primitives are Rust arrays, so each has its length whatever the input; an
  expansion of HKDF fills the output it is given.
\<close>

definition sizes_ok :: "('ek, 'dk, 'vk, 'sk) prims \<Rightarrow> bool" where
  "sizes_ok P \<longleftrightarrow> (\<forall>x. length (sha384_digest P x) = 48) \<and> (\<forall>k x. length (hmac_finalize P k x) = 48) \<and>
     (\<forall>prk info n out. hkdf_expand P prk info n = Some out \<longrightarrow> length out = n) \<and>
     (\<forall>ek m. length (fst (kem_encapsulate P ek m)) = 1568 \<and> length (snd (kem_encapsulate P ek m)) = 32) \<and>
     (\<forall>dk ct. length (kem_decapsulate P dk ct) = 32) \<and>
     (\<forall>a. length (x_public P a) = 32) \<and> (\<forall>a. length (x_secret_bytes P a) = 32) \<and> (\<forall>a b. length (x_dh P a b) = 32)"

lemma sizes_okD:
  assumes "sizes_ok P"
  shows "length (sha384_digest P x) = 48" "length (hmac_finalize P k x) = 48"
    "hkdf_expand P prk info n = Some out \<Longrightarrow> length out = n"
    "kem_encapsulate P ek m = (ct, ss) \<Longrightarrow> length ct = 1568 \<and> length ss = 32"
    "length (kem_decapsulate P dk c) = 32"
    "length (x_public P a) = 32" "length (x_secret_bytes P a) = 32" "length (x_dh P a b) = 32"
  using assms by (auto simp: sizes_ok_def, (metis fst_conv snd_conv)+)

lemma identity_fingerprint_length: "sizes_ok P \<Longrightarrow> length (identity_fingerprint P vk) = 48"
  by (simp add: identity_fingerprint_def sha384_def sizes_okD)

lemma encapsulator_digest_length: "sizes_ok P \<Longrightarrow> length (encapsulator_digest P t g) = 48"
  by (simp add: encapsulator_digest_def sha384_def sizes_okD)

lemma yields_derive [post_intros]:
  assumes "sizes_ok P" "\<And>e a b. R (Inl e, a, b)" "\<And>k a b. length k = 128 \<Longrightarrow> R (Inr k, a, b)"
  shows "yields (derive_hybrid_key P pq cl salt info) R"
  unfolding derive_hybrid_key_def Let_def
  by (intro post_intros if_intros) (auto simp: HYBRID_OUTPUT_SIZE_def intro: assms dest: sizes_okD(3) [OF assms(1)])

lemma yields_derive_confirmation [post_intros]:
  assumes "sizes_ok P" "\<And>e a b. R (Inl e, a, b)"
    and "\<And>k c a b. length k = 128 \<Longrightarrow> length c = 96 \<Longrightarrow> R (Inr (k, c), a, b)"
  shows "yields (derive_hybrid_key_with_confirmation P pq cl salt info cinfo) R"
  unfolding derive_hybrid_key_with_confirmation_def Let_def
  by (cases "hkdf_expand P (hkdf_extract P salt (pq @ cl)) info HYBRID_OUTPUT_SIZE";
      cases "hkdf_expand P (hkdf_extract P salt (pq @ cl)) cinfo CONFIRMATION_OUTPUT_SIZE";
      simp; intro post_intros if_intros)
    (auto simp: HYBRID_OUTPUT_SIZE_def CONFIRMATION_OUTPUT_SIZE_def intro: assms dest: sizes_okD(3) [OF assms(1)])

lemma yields_encapsulate [post_intros]:
  assumes "sizes_ok P" "\<And>ss ct. length ss = 32 \<Longrightarrow> length ct = 1568 \<Longrightarrow> R (Inr (ss, ct))"
  shows "yields (ml_kem_encapsulate P ek m) R"
  unfolding ml_kem_encapsulate_def Let_def
  by (intro post_intros if_intros) (auto intro: assms dest: sizes_okD(4) [OF assms(1)])

lemma yields_decapsulate [post_intros]:
  assumes "sizes_ok P" "\<And>ss. length ss = 32 \<Longrightarrow> R (Inr ss)"
  shows "yields (ml_kem_decapsulate P dk ct) R"
  unfolding ml_kem_decapsulate_def Let_def by (intro post_intros if_intros assms) (simp add: sizes_okD [OF assms(1)])

lemma yields_diffie_hellman [post_intros]:
  assumes "sizes_ok P" "\<And>e. R (Inl e)" "\<And>ss. length ss = 32 \<Longrightarrow> R (Inr ss)"
  shows "yields (x25519_diffie_hellman P sk pk) R"
  unfolding x25519_diffie_hellman_def Let_def by (intro post_intros if_intros assms) (simp add: sizes_okD [OF assms(1)])

lemma yields_sign [post_intros]:
  assumes "\<And>e. R (Inl e)" "\<And>sig. length sig = 4627 \<Longrightarrow> R (Inr sig)"
  shows "yields (ml_dsa_sign P sk msg) R" "yields (ml_dsa_sign_with_context P sk msg c) R"
  unfolding ml_dsa_sign_def ml_dsa_sign_with_context_def Let_def
  by ((intro post_intros if_intros assms; simp add: ML_DSA_SIGNATURE_BYTES_def)+)

lemma yields_hmac [post_intros]:
  assumes "sizes_ok P" "\<And>e. R (Inl e)" "\<And>t. length t = 48 \<Longrightarrow> R (Inr t)"
  shows "yields (hmac_sha384 P k x) R" "yields (confirmation_tag P k l d) R"
  unfolding confirmation_tag_def hmac_sha384_def Let_def
  by ((intro post_intros if_intros assms; simp add: sizes_okD [OF assms(1)])+)

subsection \<open>The invariant\<close>

text \<open>
  A session is established exactly when it has both keys; then the handshake secrets are gone and
  its key integrity check passes.  Otherwise it has no keys and no pending authentication.  The
  two handshake secrets come and go together.  Every array has its length.
\<close>

definition pending_wf :: "pending_authentication \<Rightarrow> bool" where
  "pending_wf p \<longleftrightarrow> length (pa_digest p) = 48 \<and> length (pa_peer_identity p) = 48 \<and> length (pa_confirmation_key p) = 48"

definition session_wf :: "'dk session_manager \<Rightarrow> bool" where
  "session_wf s \<longleftrightarrow>
     (if is_established s
      then verify_key_integrity s = Ok () \<and> ml_kem_dk s = None \<and> x25519_sk s = None
      else tx_key s = None \<and> rx_key s = None \<and> pending_auth s = None) \<and>
     (ml_kem_dk s = None \<longleftrightarrow> x25519_sk s = None) \<and>
     pred_option (\<lambda>k. length k = 32) (x25519_sk s) \<and> pred_option (\<lambda>k. length k = 64) (tx_key s) \<and>
     pred_option (\<lambda>k. length k = 64) (rx_key s) \<and> pred_option pending_wf (pending_auth s)"

lemma session_wf_new [simp]: "session_wf session_new"
  by (simp add: session_wf_def session_new_def)

lemma session_wf_keyed [simp]: "length tx = 64 \<Longrightarrow> length rx = 64 \<Longrightarrow> session_wf (keyed_session tx rx)"
  by (simp add: session_wf_def keyed_session_def session_new_def verify_key_integrity_def)

lemma session_wf_secrets: "length x = 32 \<Longrightarrow> session_wf (session_new\<lparr>ml_kem_dk := Some dk, x25519_sk := Some x\<rparr>)"
  by (simp add: session_wf_def session_new_def)

text \<open>The integrity check looks at the keys and checksums only.\<close>

lemma verify_key_integrity_upd [simp]:
  "verify_key_integrity (s\<lparr>pending_auth := p\<rparr>) = verify_key_integrity s"
  "verify_key_integrity (s\<lparr>tx_counter := c\<rparr>) = verify_key_integrity s"
  "verify_key_integrity (s\<lparr>rx_window := w\<rparr>) = verify_key_integrity s"
  "verify_key_integrity (s\<lparr>rx_window := w, rx_counter := n\<rparr>) = verify_key_integrity s"
  by (simp_all add: verify_key_integrity_def split: option.split)

lemma session_wf_pending:
  "session_wf s \<Longrightarrow> is_established s \<Longrightarrow> pending_wf p \<Longrightarrow> session_wf (s\<lparr>pending_auth := Some p\<rparr>)"
  by (simp add: session_wf_def)

lemma session_wf_no_pending: "session_wf s \<Longrightarrow> session_wf (s\<lparr>pending_auth := None\<rparr>)"
  by (simp add: session_wf_def)

lemma session_wf_counter: "session_wf s \<Longrightarrow> session_wf (s\<lparr>tx_counter := c\<rparr>)"
  by (simp add: session_wf_def)

lemma session_wf_commit: "session_wf s \<Longrightarrow> session_wf (commit_rx_nonce s n)"
  by (simp add: session_wf_def commit_rx_nonce_def Let_def)

subsection \<open>Operations\<close>

lemma post_wipe_pending [post_intros]:
  "Q () (s\<lparr>pending_auth := None\<rparr>) \<Longrightarrow> post s wipe_pending_authentication Q"
  unfolding wipe_pending_authentication_def Let_def by (intro post_intros if_intros) simp_all

lemma wiped_session:
  "s\<lparr>ml_kem_dk := None, x25519_sk := None, tx_key := None, rx_key := None, tx_key_checksum := 0,
     rx_key_checksum := 0, is_established := False, tx_counter := 0, rx_counter := 0, rx_window := 0,
     pending_auth := None\<rparr> = session_new"
  by (cases s) (simp add: session_new_def)

lemma post_zeroize [post_intros]: "Q () session_new \<Longrightarrow> post s zeroize_session Q"
  unfolding zeroize_session_def by (intro post_intros if_intros) (simp_all add: wiped_session)

lemma post_install_keys [post_intros]: "Q () (keyed_session tx rx) \<Longrightarrow> post s (install_keys tx rx) Q"
  unfolding install_keys_def by (intro post_intros if_intros) (simp add: keyed_session_def session_new_def)

lemma initiate_handshake_post [post_intros]:
  assumes "sizes_ok P" "session_wf s" "\<And>e s'. session_wf s' \<Longrightarrow> Q (Inl e) s'"
    and "\<And>pk x s'. session_wf s' \<Longrightarrow> length x = 32 \<Longrightarrow> Q (Inr (pk, x)) s'"
  shows "post s (initiate_handshake P entropy) Q"
  unfolding initiate_handshake_def Let_def
  by (intro post_intros if_intros)
    (auto intro!: assms(3,4) session_wf_secrets simp: assms(2) x25519_keygen_def sizes_okD [OF assms(1)])

lemma finalize_handshake_post [post_intros]:
  assumes "sizes_ok P" "session_wf s" "\<And>r s'. session_wf s' \<Longrightarrow> Q r s'"
  shows "post s (finalize_handshake P pk ct salt info) Q"
  unfolding finalize_handshake_def Let_def
  by (intro post_intros if_intros assms(1)) (auto intro!: assms(3) simp: assms(2))

lemma encapsulate_inner_post [post_intros]:
  assumes "sizes_ok P" "session_wf s" "\<And>e ct pk s'. session_wf s' \<Longrightarrow> Q (Inl e, ct, pk) s'"
    and "\<And>c ct pk s'. session_wf s' \<Longrightarrow> is_established s' \<Longrightarrow> length ct = 1568 \<Longrightarrow> length pk = 32 \<Longrightarrow>
      pred_option (\<lambda>m. length m = 96) c \<Longrightarrow> Q (Inr c, ct, pk) s'"
  shows "post s (encapsulate_inner P ek x entropy salt info oc op want) Q"
  unfolding encapsulate_inner_def Let_def
  by (intro post_intros if_intros assms(1))
    (auto intro!: assms(3,4) simp: assms(2) x25519_keygen_def sizes_okD [OF assms(1)])

lemma encapsulate_for_peer_post [post_intros]:
  assumes "sizes_ok P" "session_wf s" "\<And>e ct pk s'. session_wf s' \<Longrightarrow> Q (Inl e, ct, pk) s'"
    and "\<And>ct pk s'. session_wf s' \<Longrightarrow> length ct = 1568 \<Longrightarrow> length pk = 32 \<Longrightarrow> Q (Inr (), ct, pk) s'"
  shows "post s (encapsulate_for_peer P ek x entropy salt info oc op) Q"
  unfolding encapsulate_for_peer_def
  by (intro post_intros if_intros assms(1,2)) (auto intro!: assms(3,4))

lemma encapsulate_authenticated_post [post_intros]:
  assumes "sizes_ok P" "session_wf s" "\<And>e ct pk sig t s'. session_wf s' \<Longrightarrow> Q (Inl e, ct, pk, sig, t) s'"
    and "\<And>ct pk sig t s'. session_wf s' \<Longrightarrow> length ct = 1568 \<Longrightarrow> length pk = 32 \<Longrightarrow> length sig = 4627 \<Longrightarrow>
      Q (Inr (), ct, pk, sig, t) s'"
  shows "post s (encapsulate_authenticated P sk vk ek x entropy salt app oc op os ot) Q"
  unfolding encapsulate_authenticated_def Let_def
  by (intro post_intros if_intros assms(1,2))
    (auto intro!: assms(3,4) session_wf_pending
      simp: assms(1,2) pending_wf_def identity_fingerprint_length encapsulator_digest_length CONFIRMATION_KEY_LEN_def)

lemma finalize_authenticated_post [post_intros]:
  assumes "sizes_ok P" "session_wf s" "\<And>e sig t s'. session_wf s' \<Longrightarrow> Q (Inl e, sig, t) s'"
    and "\<And>sig t s'. session_wf s' \<Longrightarrow> length sig = 4627 \<Longrightarrow> Q (Inr (), sig, t) s'"
  shows "post s (finalize_authenticated P sk vk x ct psig ptag salt app os ot) Q"
  unfolding finalize_authenticated_def complete_authenticated_finalize_def Let_def
  by (intro post_intros if_intros assms(1,2)) (auto intro!: assms(3,4) simp: assms(2))

lemma confirm_peer_post [post_intros]:
  assumes "sizes_ok P" "session_wf s" "\<And>r s'. session_wf s' \<Longrightarrow> Q r s'"
  shows "post s (confirm_peer P vk sig t) Q"
  unfolding confirm_peer_def Let_def
  by (intro post_intros if_intros assms(1)) (auto intro!: assms(3) session_wf_no_pending simp: assms(2))

lemma encrypt_packet_post [post_intros]:
  assumes "session_wf s" "\<And>r s'. session_wf s' \<Longrightarrow> Q r s'"
  shows "post s (encrypt_packet P aad pt ct nonce tag) Q"
  unfolding encrypt_packet_def aead_encrypt_def Let_def
  by (intro post_intros if_intros) (auto intro!: assms(2) session_wf_counter simp: assms(1))

lemma decrypt_packet_post [post_intros]:
  assumes "session_wf s" "\<And>r s'. session_wf s' \<Longrightarrow> Q r s'"
  shows "post s (decrypt_packet P aad ct nonce tag pt) Q"
  unfolding decrypt_packet_def aead_decrypt_def Let_def
  by (intro post_intros if_intros) (auto intro!: assms(2) session_wf_commit simp: assms(1))

subsection \<open>Operations return\<close>

text \<open>With a flush callback installed no operation halts, and none has a loop that could run on.\<close>

definition flush_installed :: "crypto_host \<Rightarrow> bool" where
  "flush_installed h \<longleftrightarrow> crypto_flush_cb h \<noteq> 0"

lemma sure_flush [total_intros]: "R () \<Longrightarrow> sure flush_installed (secure_cache_flush b) R"
  by (simp add: sure_def flush_installed_def)

lemma sure_primitives [total_intros]:
  assumes "\<And>r. R r"
  shows "sure flush_installed (ml_kem_decapsulate P dk ct) R" "sure flush_installed (x25519_diffie_hellman P sk pk) R"
    "sure flush_installed (ml_dsa_sign P ssk msg) R" "sure flush_installed (ml_dsa_sign_with_context P ssk msg c) R"
    "sure flush_installed (hmac_sha384 P k x) R" "sure flush_installed (confirmation_tag P k l d) R"
  unfolding ml_kem_decapsulate_def x25519_diffie_hellman_def ml_dsa_sign_def ml_dsa_sign_with_context_def
    confirmation_tag_def hmac_sha384_def Let_def
  by (intro total_intros sure_if assms)+

lemma sure_encapsulate [total_intros]:
  "(\<And>r. R r) \<Longrightarrow> sure flush_installed (ml_kem_encapsulate P ek m) R"
  unfolding ml_kem_encapsulate_def Let_def by (intro total_intros)

lemma sure_derive [total_intros]:
  "(\<And>r. R r) \<Longrightarrow> sure flush_installed (derive_hybrid_key P pq cl salt info) R"
  unfolding derive_hybrid_key_def Let_def by (intro total_intros)

lemma sure_derive_confirmation [total_intros]:
  "(\<And>r. R r) \<Longrightarrow> sure flush_installed (derive_hybrid_key_with_confirmation P pq cl salt info cinfo) R"
  unfolding derive_hybrid_key_with_confirmation_def Let_def by (intro total_intros)

lemma sure_hkdf [total_intros]: "(\<And>r. R r) \<Longrightarrow> sure flush_installed (hkdf_expand_sha384 P prk info out) R"
  unfolding hkdf_expand_sha384_def by (intro total_intros sure_if)

lemma sure_aead [total_intros]:
  "(\<And>r. R r) \<Longrightarrow> sure flush_installed (aead_encrypt P ek mk n aad pt ct mac) R"
  "(\<And>r. R' r) \<Longrightarrow> sure flush_installed (aead_decrypt P ek mk n aad ct mac pt) R'"
  unfolding aead_encrypt_def aead_decrypt_def Let_def by (intro total_intros sure_if; blast)+

lemma total_wipes [total_intros]:
  assumes "\<And>s'. Q () s'"
  shows "total flush_installed s wipe_pending_authentication Q" "total flush_installed s zeroize_session Q"
    "total flush_installed s (install_keys tx rx) Q"
  unfolding install_keys_def zeroize_session_def wipe_pending_authentication_def Let_def
  by (intro total_intros assms)+

lemma session_operations_return [total_intros]:
  "(\<And>r s'. Q1 r s') \<Longrightarrow> total flush_installed s (initiate_handshake P entropy) Q1"
  "(\<And>r s'. Q2 r s') \<Longrightarrow> total flush_installed s (finalize_handshake P xpk ct salt info) Q2"
  "(\<And>r s'. Q3 r s') \<Longrightarrow> total flush_installed s (encapsulate_inner P ek xpk entropy salt info oc op want) Q3"
  unfolding initiate_handshake_def finalize_handshake_def encapsulate_inner_def Let_def
  by (intro total_intros total_if; blast)+

lemma session_calls_return [total_intros]:
  "(\<And>r s'. Q1 r s') \<Longrightarrow> total flush_installed s (encapsulate_for_peer P ek xpk entropy salt info oc op) Q1"
  "(\<And>r s'. Q2 r s') \<Longrightarrow> total flush_installed s
     (encapsulate_authenticated P ssk vk ek xpk entropy salt app oc op os ot) Q2"
  "(\<And>r s'. Q3 r s') \<Longrightarrow> total flush_installed s
     (finalize_authenticated P ssk vk xpk ct psig ptag salt app os ot) Q3"
  "(\<And>r s'. Q4 r s') \<Longrightarrow> total flush_installed s (confirm_peer P vk sig t) Q4"
  "(\<And>r s'. Q5 r s') \<Longrightarrow> total flush_installed s (encrypt_packet P aad pt ct nonce tag) Q5"
  "(\<And>r s'. Q6 r s') \<Longrightarrow> total flush_installed s (decrypt_packet P aad ct nonce tag pt) Q6"
  unfolding encapsulate_for_peer_def encapsulate_authenticated_def finalize_authenticated_def
    complete_authenticated_finalize_def confirm_peer_def encrypt_packet_def decrypt_packet_def Let_def
  by (intro total_intros total_if; blast)+

end
