(* ===== verification/Crypto_Objects.thy ===== *)
theory Crypto_Objects
  imports Crypto_Boundary Boundary_Packets Session_Invariant
begin

text \<open>
  Every object behind the crypto boundary stays well-formed: whatever functions a host calls, in
  whatever order and with whatever pointers, each array in host storage has its length and each
  session satisfies the invariant of \<open>Session_Invariant\<close>.
\<close>

fun crypto_obj_ok :: "('ek, 'dk, 'vk, 'sk) crypto_obj \<Rightarrow> bool" where
  "crypto_obj_ok (ObjSession s) = session_wf s"
| "crypto_obj_ok (ObjKemShared b) = (length b = 32)"
| "crypto_obj_ok (ObjKemCt b) = (length b = 1568)"
| "crypto_obj_ok (ObjDsaSig b) = (length b = 4627)"
| "crypto_obj_ok (ObjXPub b) = (length b = 32)"
| "crypto_obj_ok (ObjXSec b) = (length b = 32)"
| "crypto_obj_ok (ObjXShared b) = (length b = 32)"
| "crypto_obj_ok _ = True"

text \<open>A host program: calls one after another, with the code each returned.\<close>

fun run_crypto ::
  "('ek, 'dk, 'vk, 'sk) prims \<Rightarrow> ('ek, 'dk, 'vk, 'sk) crypto_layouts \<Rightarrow> crypto_boundary_call list \<Rightarrow>
   (('ek, 'dk, 'vk, 'sk) crypto_obj memory \<times> crypto_host, nat list) prog" where
  "run_crypto P L [] = ret []"
| "run_crypto P L (c # cs) = bindP (crypto_boundary P L c) (\<lambda>r. bindP (run_crypto P L cs) (\<lambda>rs. ret (r # rs)))"

subsection \<open>Postconditions of memory operations\<close>

lemma post_write_slice [post_intros]: "R () (written M p (take n bs) m) \<Longrightarrow> post m (write_slice M p n bs) R"
  by (simp add: post_def)

lemma as_session_ok: "objs_ok crypto_obj_ok m \<Longrightarrow> mem_objs m p = Some y \<Longrightarrow> as_session y = Some s \<Longrightarrow> session_wf s"
  by (cases y) (auto dest: objs_okD)

subsection \<open>Calls\<close>

lemmas objs_ok_rules = objs_ok_put_obj objs_ok_written objs_ok_forget as_session_ok

lemma session_call_ok:
  assumes "sizes_ok P" "objs_ok crypto_obj_ok m"
  shows "post m (run_session_call P L c) (\<lambda>_ m'. objs_ok crypto_obj_ok m')"
  by (cases c; simp only: run_session_call.simps session_ffi_defs session_drop_def; intro post_intros post_any_if;
      auto simp: objs_ok_rules assms as_session_ok [OF assms(2)])

lemma key_call_ok:
  assumes "sizes_ok P" "objs_ok crypto_obj_ok m"
  shows "post m (run_key_call P L c) (\<lambda>_ m'. objs_ok crypto_obj_ok m')"
  by (cases c; simp only: run_key_call.simps key_ffi_defs drop_array_def x25519_keygen_def; intro post_intros post_any_if;
      auto simp: objs_ok_rules assms sizes_okD [OF assms(1)])

lemma codec_call_ok:
  assumes "objs_ok crypto_obj_ok m"
  shows "post m (run_codec_call P L c) (\<lambda>_ m'. objs_ok crypto_obj_ok m')"
  by (cases c; simp only: run_codec_call.simps codec_ffi_defs wire_to_bytes_def wire_from_bytes_def;
      intro post_intros post_any_if;
      auto simp: objs_ok_rules assms ml_kem_ciphertext_decode_def x25519_publickey_decode_def
        ml_dsa_signature_decode_def ML_DSA_SIGNATURE_BYTES_def)

text \<open>The symmetric functions keep the objects whatever the primitives return.\<close>

lemma symmetric_call_ok:
  assumes "objs_ok crypto_obj_ok m"
  shows "post m (run_symmetric_call P L c) (\<lambda>_ m'. objs_ok crypto_obj_ok m')"
  by (cases c; simp only: run_symmetric_call.simps symmetric_ffi_defs;
      intro post_any_if post_bindP post_seqP post_read_bytes post_slice post_write_slice post_ret post_hostP_any
        post_case_sum post_case_prod; simp add: objs_ok_written assms)

lemma crypto_boundary_ok:
  assumes "sizes_ok P" "objs_ok crypto_obj_ok m"
  shows "post m (crypto_boundary P L c) (\<lambda>_ m'. objs_ok crypto_obj_ok m')"
  by (cases c) (simp_all add: session_call_ok key_call_ok codec_call_ok symmetric_call_ok assms)

lemma run_crypto_ok:
  assumes "sizes_ok P" "objs_ok crypto_obj_ok m"
  shows "post m (run_crypto P L cs) (\<lambda>_ m'. objs_ok crypto_obj_ok m')"
  using assms(2)
proof (induction cs arbitrary: m)
  case (Cons c cs)
  have "post m (crypto_boundary P L c)
      (\<lambda>r m'. post m' (bindP (run_crypto P L cs) (\<lambda>rs. ret (r # rs))) (\<lambda>_ m'. objs_ok crypto_obj_ok m'))"
    using crypto_boundary_ok [OF assms(1) Cons.prems, of L c] Cons.IH
    unfolding post_def by (fastforce simp: bindP_eq_Ret)
  then show ?case by (simp add: post_bindP)
qed (simp add: post_ret)

subsection \<open>Calls return\<close>

lemma total_write_slice [total_intros]:
  "Q () (written M p (take n bs) m) \<Longrightarrow> total H m (write_slice M p n bs) Q"
  by (simp add: total_def)

text \<open>The pointers that must be null or name an object of their type, for each call.\<close>

fun session_live :: "('ek, 'dk, 'vk, 'sk) crypto_obj memory \<Rightarrow> session_call \<Rightarrow> bool" where
  "session_live m (SessionInit _) = True"
| "session_live m (SessionDestroy manager) = ptr_live m manager as_session"
| "session_live m (SessionInitiate manager _ _ _) = ptr_live m manager as_session"
| "session_live m (SessionFinalize manager xpk ct _ _ _ _) =
     (ptr_live m manager as_session \<and> ptr_live m xpk as_x_pub \<and> ptr_live m ct as_kem_ct)"
| "session_live m (SessionEncapsulate manager pk xpk _ _ _ _ _ _ _) =
     (ptr_live m manager as_session \<and> ptr_live m pk as_kem_pk \<and> ptr_live m xpk as_x_pub)"
| "session_live m (SessionEncapsulateAuth manager sk vk pk xpk _ _ _ _ _ _ _ _ _) =
     (ptr_live m manager as_session \<and> ptr_live m sk as_dsa_sk \<and> ptr_live m vk as_dsa_pk \<and> ptr_live m pk as_kem_pk \<and>
      ptr_live m xpk as_x_pub)"
| "session_live m (SessionFinalizeAuth manager sk vk xpk ct sig _ _ _ _ _ _ _) =
     (ptr_live m manager as_session \<and> ptr_live m sk as_dsa_sk \<and> ptr_live m vk as_dsa_pk \<and> ptr_live m xpk as_x_pub \<and>
      ptr_live m ct as_kem_ct \<and> ptr_live m sig as_dsa_sig)"
| "session_live m (SessionConfirm manager vk sig _) =
     (ptr_live m manager as_session \<and> ptr_live m vk as_dsa_pk \<and> ptr_live m sig as_dsa_sig)"
| "session_live m (SessionZeroize manager) = ptr_live m manager as_session"
| "session_live m (SessionEncrypt manager _ _ _ _ _ _ _) = ptr_live m manager as_session"
| "session_live m (SessionDecrypt manager _ _ _ _ _ _ _) = ptr_live m manager as_session"

fun key_live :: "('ek, 'dk, 'vk, 'sk) crypto_obj memory \<Rightarrow> key_call \<Rightarrow> bool" where
  "key_live m (KemDkDestroy dk) = ptr_live m dk as_kem_dk"
| "key_live m (KemEncapsulate pk _ _ _) = ptr_live m pk as_kem_pk"
| "key_live m (KemDecapsulate dk ct _) = (ptr_live m dk as_kem_dk \<and> ptr_live m ct as_kem_ct)"
| "key_live m (KemSharedDestroy ss) = ptr_live m ss as_kem_shared"
| "key_live m (DsaSkDestroy sk) = ptr_live m sk as_dsa_sk"
| "key_live m (DsaSign sk _ _ _) = ptr_live m sk as_dsa_sk"
| "key_live m (DsaVerify pk _ _ sig) = (ptr_live m pk as_dsa_pk \<and> ptr_live m sig as_dsa_sig)"
| "key_live m (XSecretDestroy sk) = ptr_live m sk as_x_sec"
| "key_live m (XDiffieHellman sk pk _) = (ptr_live m sk as_x_sec \<and> ptr_live m pk as_x_pub)"
| "key_live m (XSharedDestroy ss) = ptr_live m ss as_x_shared"
| "key_live m (KemKeygen _ _ _) = True"
| "key_live m (DsaKeygen _ _ _) = True"
| "key_live m (XKeygen _ _ _) = True"

fun codec_live :: "('ek, 'dk, 'vk, 'sk) crypto_obj memory \<Rightarrow> codec_call \<Rightarrow> bool" where
  "codec_live m (KemPkToBytes v _ _) = ptr_live m v as_kem_pk"
| "codec_live m (KemCtToBytes v _ _) = ptr_live m v as_kem_ct"
| "codec_live m (XPubToBytes v _ _) = ptr_live m v as_x_pub"
| "codec_live m (DsaPkToBytes v _ _) = ptr_live m v as_dsa_pk"
| "codec_live m (DsaSigToBytes v _ _) = ptr_live m v as_dsa_sig"
| "codec_live m _ = True"

fun call_live :: "('ek, 'dk, 'vk, 'sk) crypto_obj memory \<Rightarrow> crypto_boundary_call \<Rightarrow> bool" where
  "call_live m (SessionCall c) = session_live m c"
| "call_live m (KeyCall c) = key_live m c"
| "call_live m (CodecCall c) = codec_live m c"
| "call_live m (SymmetricCall _) = True"

lemma session_call_returns:
  assumes "session_live m c"
  shows "total flush_installed m (run_session_call P L c) (\<lambda>_ _. True)"
  using assms
  by (cases c; simp only: run_session_call.simps session_live.simps session_ffi_defs session_drop_def ptr_live_def;
      intro total_guard total_intros; blast?)

lemma key_call_returns:
  assumes "key_live m c"
  shows "total flush_installed m (run_key_call P L c) (\<lambda>_ _. True)"
  using assms
  by (cases c; simp only: run_key_call.simps key_live.simps key_ffi_defs drop_array_def ptr_live_def;
      intro total_guard total_intros; blast?)

lemma codec_call_returns:
  assumes "codec_live m c"
  shows "total flush_installed m (run_codec_call P L c) (\<lambda>_ _. True)"
  using assms
  by (cases c; simp only: run_codec_call.simps codec_live.simps codec_ffi_defs wire_to_bytes_def wire_from_bytes_def
      ptr_live_def; intro total_guard total_intros; blast?)

lemma symmetric_call_returns: "total flush_installed m (run_symmetric_call P L c) (\<lambda>_ _. True)"
  by (cases c; simp only: run_symmetric_call.simps symmetric_ffi_defs; intro total_guard total_intros; blast?)

lemma crypto_boundary_sure:
  "call_live m c \<Longrightarrow> total flush_installed m (crypto_boundary P L c) (\<lambda>_ _. True)"
  by (cases c) (simp_all add: session_call_returns key_call_returns codec_call_returns symmetric_call_returns)

subsection \<open>Properties\<close>

text \<open>
  C8: Everything stored behind the crypto boundary keeps its type and its invariant.  Let the host
  run any sequence of boundary calls with any arguments, from a memory whose objects are
  well-formed (an empty one, for example), with primitives whose results have their documented
  sizes.  If the calls return, every ciphertext, signature, key and shared secret in memory
  has its length, and every session is consistent: it is established exactly when it has both
  64-byte keys, its key integrity check then passes and its handshake secrets are gone, and only an
  established session has an authentication pending.
\<close>

theorem crypto_boundary_objects_wf:
  assumes "sizes_ok P" "objs_ok crypto_obj_ok m" "run_crypto P L cs (m, h) = Ret rs (m', h')"
  shows "objs_ok crypto_obj_ok m' \<and> length rs = length cs"
proof
  show "objs_ok crypto_obj_ok m'" using postD [OF run_crypto_ok [OF assms(1,2)] assms(3)] .
  show "length rs = length cs"
    using assms(3) by (induction cs arbitrary: m h rs) (fastforce simp: bindP_eq_Ret)+
qed

text \<open>A toy instance whose results have their sizes for inputs of any length.\<close>

definition sized_toy :: "(bytes, bytes, bytes, bytes) prims" where
  "sized_toy = toy\<lparr>kem_decapsulate := \<lambda>_. pad_to 32, x_secret_bytes := pad_to 32\<rparr>"

lemma sized_toy_ok: "sizes_ok sized_toy"
  by (auto simp: sizes_ok_def sized_toy_def toy_def)

theorem crypto_boundary_objects_wf_witness:
  "\<exists>m' h'. run_crypto sized_toy demo_crypto_layouts
      [SessionCall (SessionInit 0x1000), KeyCall (XKeygen 0x5000 0x2000 0x3000), SessionCall (SessionInit 0)]
      (\<lparr>mem_bytes = \<lambda>_. 7, mem_objs = \<lambda>_. None\<rparr>, demo_crypto_host) = Ret [0, 0, 1] (m', h') \<and>
    objs_ok crypto_obj_ok m' \<and> length [0 :: nat, 0, 1] = 3"
proof -
  let ?m = "\<lparr>mem_bytes = \<lambda>_. 7, mem_objs = \<lambda>_. None\<rparr> :: (bytes, bytes, bytes, bytes) crypto_obj memory"
  have "objs_ok crypto_obj_ok ?m" by (simp add: objs_ok_def)
  moreover have "\<exists>m'. run_crypto sized_toy demo_crypto_layouts
      [SessionCall (SessionInit 0x1000), KeyCall (XKeygen 0x5000 0x2000 0x3000), SessionCall (SessionInit 0)]
      (?m, demo_crypto_host) = Ret [0, 0, 1] (m', demo_crypto_host)"
    by (simp add: session_ffi_defs key_ffi_defs demo_crypto_layouts_def Let_def ptr_is_aligned_def is_multiple_of_def
        ranges_overlap_def checked_add_def x25519_keygen_def)
  ultimately show ?thesis using crypto_boundary_objects_wf [OF sized_toy_ok] by fastforce
qed

text \<open>
  C10: A call of the crypto boundary always comes back.  With a flush callback installed, any call
  whose object pointers are null or name an object of their type returns an error code, whatever its
  other arguments and the primitives are: it neither halts nor panics nor runs on, and the callback
  is still installed afterwards.
\<close>

theorem crypto_boundary_returns:
  assumes "crypto_flush_cb h \<noteq> 0" "call_live m c"
  shows "\<exists>r m' h'. crypto_boundary P L c (m, h) = Ret r (m', h') \<and> crypto_flush_cb h' \<noteq> 0"
  using totalD [OF crypto_boundary_sure [OF assms(2)], of h P L] assms(1) by (auto simp: flush_installed_def)

theorem crypto_boundary_returns_witness:
  "\<exists>r m' h'. crypto_boundary toy demo_crypto_layouts (SessionCall (SessionZeroize 0x1000))
      (demo_crypto_memory, demo_crypto_host) = Ret r (m', h') \<and> crypto_flush_cb h' \<noteq> 0"
  by (rule crypto_boundary_returns) (simp_all add: ptr_live_def holds_obj_def demo_crypto_memory_def)

end
