(* ===== verification/Panic_Facade.thy ===== *)
theory Panic_Facade
  imports Rtos_Host Crypto_Host
begin

text \<open>
  The panic handler of the linked archive (shawncore-ffi/src/lib.rs) as a step relation of any number
  of threads.  A panic swaps the flag; the thread that finds it clear calls the panic hooks of the two crates
  one after the other, and every thread ends in the endless loop.  A hook is host code: while it
  runs it may panic itself.
\<close>

datatype panic_pc =
    Working
  | Panicked
  | CallCryptoHook
  | InCryptoHook
  | CallRtosHook
  | InRtosHook
  | SpinLoop

record panic_conf =
  panic_in_progress :: bool
  crypto_side :: crypto_host
  rtos_side :: rtos_host
  panic_pcs :: "nat \<Rightarrow> panic_pc"

text \<open>The swap: what the caller gets, and the flag afterwards.\<close>

definition begin_panic :: "bool \<Rightarrow> bool \<times> bool" where
  "begin_panic flag = (\<not> flag, True)"

abbreviation goto :: "nat \<Rightarrow> panic_pc \<Rightarrow> panic_conf \<Rightarrow> panic_conf" where
  "goto i pc c \<equiv> c\<lparr>panic_pcs := (panic_pcs c)(i := pc)\<rparr>"

inductive panic_step :: "panic_conf \<Rightarrow> panic_conf \<Rightarrow> bool" where
  raise: "panic_pcs c i \<in> {Working, InCryptoHook, InRtosHook} \<Longrightarrow> panic_step c (goto i Panicked c)"
| enter: "panic_pcs c i = Panicked \<Longrightarrow> begin_panic (panic_in_progress c) = (first, flag) \<Longrightarrow>
    panic_step c (goto i (if first then CallCryptoHook else SpinLoop) (c\<lparr>panic_in_progress := flag\<rparr>))"
| call_crypto: "panic_pcs c i = CallCryptoHook \<Longrightarrow>
    panic_step c (goto i InCryptoHook (c\<lparr>crypto_side := crypto_invoke_panic_hook (crypto_side c)\<rparr>))"
| crypto_returns: "panic_pcs c i = InCryptoHook \<Longrightarrow> panic_step c (goto i CallRtosHook c)"
| call_rtos: "panic_pcs c i = CallRtosHook \<Longrightarrow>
    panic_step c (goto i InRtosHook (c\<lparr>rtos_side := invoke_panic_hook (rtos_side c)\<rparr>))"
| rtos_returns: "panic_pcs c i = InRtosHook \<Longrightarrow> panic_step c (goto i SpinLoop c)"
| spin: "panic_pcs c i = SpinLoop \<Longrightarrow> panic_step c c"

definition panic_init :: "crypto_host \<Rightarrow> rtos_host \<Rightarrow> panic_conf" where
  "panic_init hc hr =
     \<lparr>panic_in_progress = False, crypto_side = hc, rtos_side = hr, panic_pcs = (\<lambda>_. Working)\<rparr>"

subsection \<open>Invariant\<close>

text \<open>How many of the two hooks have been called, as far as the program counter tells.\<close>

fun hooks_called :: "panic_pc \<Rightarrow> nat option" where
  "hooks_called CallCryptoHook = Some 0"
| "hooks_called InCryptoHook = Some 1"
| "hooks_called CallRtosHook = Some 1"
| "hooks_called InRtosHook = Some 2"
| "hooks_called _ = None"

fun sides_after :: "nat \<Rightarrow> crypto_host \<Rightarrow> rtos_host \<Rightarrow> crypto_host \<times> rtos_host" where
  "sides_after 0 hc hr = (hc, hr)"
| "sides_after (Suc 0) hc hr = (crypto_invoke_panic_hook hc, hr)"
| "sides_after _ hc hr = (crypto_invoke_panic_hook hc, invoke_panic_hook hr)"

definition panic_inv :: "crypto_host \<Rightarrow> rtos_host \<Rightarrow> panic_conf \<Rightarrow> bool" where
  "panic_inv hc hr c \<longleftrightarrow> (\<exists>n\<le>2. (crypto_side c, rtos_side c) = sides_after n hc hr \<and>
     (\<not> panic_in_progress c \<longrightarrow> n = 0) \<and>
     (\<forall>i k. hooks_called (panic_pcs c i) = Some k \<longrightarrow> panic_in_progress c \<and> k = n) \<and>
     (\<forall>i j. hooks_called (panic_pcs c i) \<noteq> None \<and> hooks_called (panic_pcs c j) \<noteq> None \<longrightarrow> i = j))"

lemma panic_inv_init: "panic_inv hc hr (panic_init hc hr)"
  by (auto simp: panic_inv_def panic_init_def intro!: exI [of _ 0])

text \<open>A move that keeps the count, and the move that makes a call.\<close>

lemma panic_inv_goto:
  assumes "panic_inv hc hr c" "hooks_called pc = None \<or> hooks_called pc = hooks_called (panic_pcs c i)"
  shows "panic_inv hc hr (goto i pc c)"
proof -
  obtain n where n: "n \<le> 2" "(crypto_side c, rtos_side c) = sides_after n hc hr" "\<not> panic_in_progress c \<longrightarrow> n = 0"
    "\<And>i k. hooks_called (panic_pcs c i) = Some k \<Longrightarrow> panic_in_progress c \<and> k = n"
    "\<And>i j. hooks_called (panic_pcs c i) \<noteq> None \<Longrightarrow> hooks_called (panic_pcs c j) \<noteq> None \<Longrightarrow> i = j"
    using assms(1) unfolding panic_inv_def by blast
  have "hooks_called (((panic_pcs c)(i := pc)) j) = Some k \<Longrightarrow> hooks_called (panic_pcs c j) = Some k" for j k
    using assms(2) by (cases "j = i") auto
  then have sub: "\<And>j k. hooks_called (panic_pcs (goto i pc c) j) = Some k \<Longrightarrow> hooks_called (panic_pcs c j) = Some k"
    by simp
  have none: "\<And>j. hooks_called (panic_pcs (goto i pc c) j) \<noteq> None \<Longrightarrow> hooks_called (panic_pcs c j) \<noteq> None"
    using sub by (metis not_None_eq)
  show ?thesis
    unfolding panic_inv_def
  proof (intro exI [of _ n] conjI allI impI)
    show "(crypto_side (goto i pc c), rtos_side (goto i pc c)) = sides_after n hc hr" using n(2) by simp
    show "n = 0" if "\<not> panic_in_progress (goto i pc c)" using n(3) that by simp
    show "panic_in_progress (goto i pc c)" "k = n" if "hooks_called (panic_pcs (goto i pc c) j) = Some k" for j k
      using n(4) [OF sub [OF that]] by simp_all
    show "j = l" if "hooks_called (panic_pcs (goto i pc c) j) \<noteq> None \<and> hooks_called (panic_pcs (goto i pc c) l) \<noteq> None"
      for j l using n(5) none that by blast
  qed (rule n(1))
qed

lemma panic_inv_call:
  assumes "panic_inv hc hr c" "hooks_called (panic_pcs c i) = Some n" "hooks_called pc = Some (Suc n)" "n < 2"
    and "(crypto_side c', rtos_side c') = sides_after (Suc n) hc hr" "panic_in_progress c' = panic_in_progress c"
    and "panic_pcs c' = (panic_pcs c)(i := pc)"
  shows "panic_inv hc hr c'"
proof -
  have other: "hooks_called (panic_pcs c j) = None" if "j \<noteq> i" for j
    using assms(1,2) that unfolding panic_inv_def by (metis option.distinct(1))
  moreover have "panic_in_progress c" using assms(1,2) unfolding panic_inv_def by blast
  ultimately show ?thesis
    using assms(3-) unfolding panic_inv_def by (intro exI [of _ "Suc n"]) (auto split: if_splits)
qed

lemma panic_inv_sides:
  assumes "panic_inv hc hr c" "hooks_called (panic_pcs c i) = Some n"
  shows "crypto_side c = fst (sides_after n hc hr)" "rtos_side c = snd (sides_after n hc hr)"
  using assms unfolding panic_inv_def by (metis fst_conv snd_conv)+

lemma panic_inv_step: "panic_step c c' \<Longrightarrow> panic_inv hc hr c \<Longrightarrow> panic_inv hc hr c'"
proof (induction rule: panic_step.induct)
  case (enter c i first flag)
  show ?case
  proof (cases "panic_in_progress c")
    case True
    then have "c\<lparr>panic_in_progress := flag\<rparr> = c" "\<not> first" using enter(2) by (auto simp: begin_panic_def)
    then show ?thesis using panic_inv_goto [OF enter(3), of SpinLoop i] by (simp only: if_False hooks_called.simps simp_thms)
  next
    case False
    then have "hooks_called (panic_pcs c j) = None" for j
      using enter(3) unfolding panic_inv_def by (metis not_None_eq)
    then show ?thesis
      using enter False unfolding panic_inv_def
      by (intro exI [of _ 0]) (auto simp: begin_panic_def split: if_splits)
  qed
next
  case (call_crypto c i)
  show ?case
    by (rule panic_inv_call [of hc hr c i 0 InCryptoHook])
      (use call_crypto panic_inv_sides [of hc hr c i 0] in simp_all)
next
  case (call_rtos c i)
  show ?case
    by (rule panic_inv_call [of hc hr c i 1 InRtosHook])
      (use call_rtos panic_inv_sides [of hc hr c i 1] in \<open>simp_all add: eval_nat_numeral\<close>)
qed (auto intro!: panic_inv_goto)

lemma panic_inv_reachable: "panic_step\<^sup>*\<^sup>* (panic_init hc hr) c \<Longrightarrow> panic_inv hc hr c"
  by (induction rule: rtranclp_induct) (auto intro: panic_inv_init panic_inv_step)

lemma no_return_step: "panic_step c c' \<Longrightarrow> panic_pcs c i \<noteq> Working \<Longrightarrow> panic_pcs c' i \<noteq> Working"
  by (induction rule: panic_step.induct) auto

lemma no_return_steps: "panic_step\<^sup>*\<^sup>* c c' \<Longrightarrow> panic_pcs c i \<noteq> Working \<Longrightarrow> panic_pcs c' i \<noteq> Working"
  by (induction rule: rtranclp_induct) (auto dest: no_return_step)

subsection \<open>Properties\<close>

text \<open>
  C24: However many threads panic, and even if a host hook panics while it runs, the panic hooks are
  called at most once each, the hook of the crypto crate before that of the RTOS crate, and a
  thread that has panicked never goes back to work.
\<close>

theorem panic_hooks_run_once:
  assumes "panic_step\<^sup>*\<^sup>* (panic_init hc hr) c"
  shows "(crypto_side c, rtos_side c) \<in> {(hc, hr), (crypto_invoke_panic_hook hc, hr),
      (crypto_invoke_panic_hook hc, invoke_panic_hook hr)} \<and>
    (\<forall>i c'. panic_pcs c i \<noteq> Working \<and> panic_step\<^sup>*\<^sup>* c c' \<longrightarrow> panic_pcs c' i \<noteq> Working)"
proof -
  obtain n where "n \<le> 2" "(crypto_side c, rtos_side c) = sides_after n hc hr"
    using panic_inv_reachable [OF assms] unfolding panic_inv_def by blast
  moreover have "n = 0 \<or> n = 1 \<or> n = 2" using calculation(1) by auto
  ultimately show ?thesis using no_return_steps by (auto simp: eval_nat_numeral)
qed

theorem panic_hooks_run_once_witness:
  "\<exists>c. panic_step\<^sup>*\<^sup>* (panic_init demo_crypto_host demo_host) c \<and> panic_pcs c 0 = SpinLoop \<and>
    crypto_calls (crypto_side c) = [(7, CryptoPanicHook)] \<and> rtos_side c = demo_host \<and>
    (crypto_side c, rtos_side c) \<in> {(demo_crypto_host, demo_host), (crypto_invoke_panic_hook demo_crypto_host, demo_host),
      (crypto_invoke_panic_hook demo_crypto_host, invoke_panic_hook demo_host)}"
proof -
  let ?c0 = "panic_init demo_crypto_host demo_host"
  let ?c1 = "goto 0 Panicked ?c0"
  let ?c2 = "goto 0 CallCryptoHook (?c1\<lparr>panic_in_progress := True\<rparr>)"
  let ?c3 = "goto 0 InCryptoHook (?c2\<lparr>crypto_side := crypto_invoke_panic_hook (crypto_side ?c2)\<rparr>)"
  let ?c4 = "goto 0 Panicked ?c3"
  let ?c5 = "goto 0 SpinLoop (?c4\<lparr>panic_in_progress := True\<rparr>)"
  have "panic_step ?c0 ?c1" by (rule raise) (simp add: panic_init_def)
  moreover have "panic_step ?c1 ?c2"
    using enter [of ?c1 0 True True] by (simp add: begin_panic_def panic_init_def)
  moreover have "panic_step ?c2 ?c3" by (rule call_crypto) simp
  moreover have "panic_step ?c3 ?c4" by (rule raise) simp
  moreover have "panic_step ?c4 ?c5"
    using enter [of ?c4 0 False True] by (simp add: begin_panic_def)
  ultimately have r: "panic_step\<^sup>*\<^sup>* ?c0 ?c5" by (meson converse_rtranclp_into_rtranclp rtranclp.rtrancl_refl)
  then have "(crypto_side ?c5, rtos_side ?c5) \<in> {(demo_crypto_host, demo_host),
      (crypto_invoke_panic_hook demo_crypto_host, demo_host),
      (crypto_invoke_panic_hook demo_crypto_host, invoke_panic_hook demo_host)}"
    by (rule panic_hooks_run_once [THEN conjunct1])
  then show ?thesis
    using r by (intro exI [of _ ?c5])
      (simp add: panic_init_def crypto_invoke_panic_hook_def crypto_log_def demo_crypto_host_def)
qed

end
