(* ===== verification/Handshake_Model.thy ===== *)
theory Handshake_Model
  imports Shawn_Prelude "HOL-Library.List_Lexorder" "HOL-Library.Char_ord"
begin

text \<open>
  The bounded symbolic checker of the authenticated handshake (validation/formal/handshake_model.py):
  terms, the attacker's deduction \<open>derivable\<close>, the protocol variants, the fixed scenario with its
  honest sessions, the checks of agreement, key agreement and secrecy, and the run over all
  scenarios that decides the exit status.  A Python tuple is a constructor named by its first
  component; the string leaves, which everybody knows, are arguments of it, and so are the names of
  atoms.  The values of X25519 secrets are atoms throughout, so a Diffie-Hellman term, a frozen set
  of two atoms, is the pair of their names in sorted order.  Printing is left out.
\<close>

subsection \<open>Terms and deduction\<close>

datatype trm =
    Atom string
  | Pub trm
  | Pk trm
  | Ek trm
  | Salt string
  | Ct trm trm
  | Ss trm trm
  | SsRej trm trm
  | Dh string string
  | Dhx trm trm
  | Hash string "trm list"
  | NoTag
  | App
  | Prk trm trm trm
  | KcE trm trm
  | KcK trm trm
  | Okm trm trm
  | Mac trm trm
  | LE trm
  | LK trm
  | CtxE trm
  | CtxK trm
  | Sig trm trm

text \<open>A weight under which \<open>derivable\<close> descends: a public key of a Diffie-Hellman term is below it.\<close>

fun weight :: "trm \<Rightarrow> nat" where
  "weight (Pub s) = Suc (weight s)"
| "weight (Pk s) = Suc (weight s)"
| "weight (Ek s) = Suc (weight s)"
| "weight (Ct s t) = Suc (weight s + weight t)"
| "weight (Ss s t) = Suc (weight s + weight t)"
| "weight (SsRej s t) = Suc (weight s + weight t)"
| "weight (Dh _ _) = 2"
| "weight (Dhx s t) = Suc (weight s + weight t)"
| "weight (Hash _ ts) = Suc (sum_list (map weight ts))"
| "weight (Prk s t u) = Suc (weight s + weight t + weight u)"
| "weight (KcE s t) = Suc (weight s + weight t)"
| "weight (KcK s t) = Suc (weight s + weight t)"
| "weight (Okm s t) = Suc (weight s + weight t)"
| "weight (Mac s t) = Suc (weight s + weight t)"
| "weight (LE s) = Suc (weight s)"
| "weight (LK s) = Suc (weight s)"
| "weight (CtxE s) = Suc (weight s)"
| "weight (CtxK s) = Suc (weight s)"
| "weight (Sig s t) = Suc (weight s + weight t)"
| "weight _ = 0"

lemma weight_member: "t \<in> set ts \<Longrightarrow> weight t < Suc (sum_list (map weight ts))"
  by (simp add: less_Suc_eq_le member_le_sum_list)

function derivable :: "trm \<Rightarrow> trm set \<Rightarrow> bool" where
  "derivable term know =
     (if term \<in> know then True
      else case term of
        Atom _ \<Rightarrow> False
      | Ct ek r \<Rightarrow> derivable ek know \<and> derivable r know
      | Ss ek r \<Rightarrow>
          if derivable ek know \<and> derivable r know then True
          else (case ek of Ek dk \<Rightarrow> derivable dk know | _ \<Rightarrow> False)
      | Dh first second \<Rightarrow>
          derivable (Atom first) know \<and> derivable (Pub (Atom second)) know \<or>
          derivable (Atom second) know \<and> derivable (Pub (Atom first)) know
      | NoTag \<Rightarrow> True
      | App \<Rightarrow> True
      | Salt _ \<Rightarrow> True
      | Hash _ ts \<Rightarrow> (\<forall>t\<in>set ts. derivable t know)
      | Pub s \<Rightarrow> derivable s know
      | Pk s \<Rightarrow> derivable s know
      | Ek s \<Rightarrow> derivable s know
      | LE s \<Rightarrow> derivable s know
      | LK s \<Rightarrow> derivable s know
      | CtxE s \<Rightarrow> derivable s know
      | CtxK s \<Rightarrow> derivable s know
      | SsRej s t \<Rightarrow> derivable s know \<and> derivable t know
      | Dhx s t \<Rightarrow> derivable s know \<and> derivable t know
      | KcE s t \<Rightarrow> derivable s know \<and> derivable t know
      | KcK s t \<Rightarrow> derivable s know \<and> derivable t know
      | Okm s t \<Rightarrow> derivable s know \<and> derivable t know
      | Mac s t \<Rightarrow> derivable s know \<and> derivable t know
      | Sig s t \<Rightarrow> derivable s know \<and> derivable t know
      | Prk s t u \<Rightarrow> derivable s know \<and> derivable t know \<and> derivable u know)"
  by pat_completeness auto
termination
  by (relation "measure (weight \<circ> fst)") (auto simp: weight_member)

definition dh_term :: "string \<Rightarrow> trm \<Rightarrow> trm" where
  "dh_term secret public = (case public of
     Pub (Atom other) \<Rightarrow> Dh (min secret other) (max secret other)
   | _ \<Rightarrow> Dhx (Atom secret) public)"

subsection \<open>Protocol variants and key derivation\<close>

record variant =
  tags :: bool
  with_tag_k :: bool
  identities :: bool
  ephemerals_in_transcript :: bool

definition V2 :: variant where
  "V2 = \<lparr>tags = True, with_tag_k = True, identities = True, ephemerals_in_transcript = True\<rparr>"

definition CONTROLS :: "variant list" where
  "CONTROLS = [V2\<lparr>tags := False, with_tag_k := False\<rparr>, V2\<lparr>identities := False\<rparr>,
     V2\<lparr>tags := False, with_tag_k := False, ephemerals_in_transcript := False\<rparr>]"

definition REDUNDANT :: "variant list" where
  "REDUNDANT = [V2\<lparr>ephemerals_in_transcript := False\<rparr>, V2\<lparr>with_tag_k := False\<rparr>]"

definition fingerprint :: "trm \<Rightarrow> trm" where
  "fingerprint vk = Hash ''fp'' [vk]"

record derived =
  okm :: trm
  tag_e :: trm
  the_e :: trm
  tag_k :: trm
  thk :: trm

definition derive :: "variant \<Rightarrow> trm \<Rightarrow> trm \<Rightarrow> trm \<Rightarrow> trm \<Rightarrow> trm \<Rightarrow> trm \<Rightarrow> trm \<Rightarrow> trm \<Rightarrow> trm \<Rightarrow> derived" where
  "derive v ek xk_pub ct xe fp_k fp_e salt ss dh =
     (let binding = (if identities v then Hash ''bind'' [ek, xk_pub, fp_k, fp_e, App]
                     else Hash ''bind'' [ek, xk_pub, App]);
          inner = Hash ''inner'' [ct, xe, binding];
          prk = Prk salt ss dh;
          th = (if ephemerals_in_transcript v then Hash ''th'' [binding, ct, xe] else Hash ''th'' [binding]);
          te = (if tags v then Mac (KcE prk inner) (LE th) else NoTag);
          the_v = Hash ''the'' [th, te];
          tk = (if with_tag_k v then Mac (KcK prk inner) (LK the_v) else NoTag)
      in \<lparr>okm = Okm prk inner, tag_e = te, the_e = the_v, tag_k = tk, thk = Hash ''thk'' [the_v, tk]\<rparr>)"

subsection \<open>The world\<close>

datatype party = PartyK | PartyE | PartyM

fun signing_key :: "party \<Rightarrow> trm" where
  "signing_key PartyK = Atom ''skK''"
| "signing_key PartyE = Atom ''skE''"
| "signing_key PartyM = Atom ''skM''"

definition vk :: "party \<Rightarrow> trm" where
  "vk p = Pk (signing_key p)"

definition digit :: "nat \<Rightarrow> string" where
  "digit i = [char_of (48 + i)]"

record k_session =
  ks_j :: nat
  ks_dk :: string
  ks_x :: string

definition ks_ek :: "k_session \<Rightarrow> trm" where
  "ks_ek k = Ek (Atom (ks_dk k))"

definition ks_xk :: "k_session \<Rightarrow> trm" where
  "ks_xk k = Pub (Atom (ks_x k))"

definition k_sessions :: "k_session list" where
  "k_sessions = map (\<lambda>j. \<lparr>ks_j = j, ks_dk = ''dk'' @ digit j, ks_x = ''x'' @ digit j\<rparr>) [1, 2]"

definition m_ek :: trm where "m_ek = Ek (Atom ''dkM'')"
definition m_xk :: trm where "m_xk = Pub (Atom ''xM'')"

record scenario =
  salt_public :: bool
  e_salt_differs :: bool
  trust_m :: bool
  extra_known :: "string list"

definition salt_k :: trm where
  "salt_k = Salt ''S1''"

definition salt_e :: "scenario \<Rightarrow> trm" where
  "salt_e p = (if e_salt_differs p then Salt ''S2'' else salt_k)"

definition trusted_by_k :: "scenario \<Rightarrow> party list" where
  "trusted_by_k p = (if trust_m p then [PartyE, PartyM] else [PartyE])"

definition known_key_material :: "scenario \<Rightarrow> trm set" where
  "known_key_material p =
     set [vk PartyK, vk PartyE, vk PartyM, signing_key PartyM, Atom ''dkM'', Atom ''xM'', Atom ''rM''] \<union>
     set (concat (map (\<lambda>k. [ks_ek k, ks_xk k]) k_sessions)) \<union> set (map Atom (extra_known p)) \<union>
     (if salt_public p then set [salt_k, salt_e p] else {})"

record e_session =
  es_i :: nat
  es_ek :: trm
  es_xk :: trm
  es_ct :: trm
  es_xe :: trm
  es_d :: derived
  es_sig :: trm
  es_peer :: party
  es_r :: string
  es_y :: string

definition e_session_of :: "variant \<Rightarrow> scenario \<Rightarrow> nat \<Rightarrow> trm \<times> trm \<Rightarrow> e_session" where
  "e_session_of v p i = (\<lambda>(ek, xk).
     let r = ''r'' @ digit i; y = ''y'' @ digit i;
         ct = Ct ek (Atom r); xe = Pub (Atom y);
         d = derive v ek xk ct xe (fingerprint (vk PartyK)) (fingerprint (vk PartyE)) (salt_e p)
               (Ss ek (Atom r)) (dh_term y xk)
     in \<lparr>es_i = i, es_ek = ek, es_xk = xk, es_ct = ct, es_xe = xe, es_d = d,
          es_sig = Sig (signing_key PartyE) (CtxE (the_e d)), es_peer = PartyK, es_r = r, es_y = y\<rparr>)"

definition e_sessions :: "variant \<Rightarrow> scenario \<Rightarrow> e_session list" where
  "e_sessions v p = (let k = hd k_sessions in
     map (\<lambda>(i, keys). e_session_of v p i keys)
       (enumerate 1 [(ks_ek k, ks_xk k), (ks_ek k, ks_xk k), (m_ek, m_xk), (ks_ek k, m_xk), (m_ek, ks_xk k)]))"

subsection \<open>One scenario\<close>

text \<open>A tag that is not sent (\<open>None\<close>) is not added to what the attacker knows.\<close>

definition sent_tag :: "trm \<Rightarrow> trm set" where
  "sent_tag t = (if t = NoTag then {} else {t})"

definition e_sent :: "e_session list \<Rightarrow> trm set" where
  "e_sent es = \<Union> (set (map (\<lambda>s. set [es_ct s, es_xe s, es_sig s] \<union> sent_tag (tag_e (es_d s))) es))"

record k_accept =
  ka_k :: k_session
  ka_peer :: party
  ka_ct :: trm
  ka_xe :: trm
  ka_d :: derived

definition k_derive :: "variant \<Rightarrow> k_session \<Rightarrow> trm \<Rightarrow> trm \<Rightarrow> party \<Rightarrow> derived" where
  "k_derive v k ct xe peer =
     (let ss = (case ct of
            Ct ek r \<Rightarrow> if ek = ks_ek k then Ss (ks_ek k) r else SsRej (Atom (ks_dk k)) ct
          | _ \<Rightarrow> SsRej (Atom (ks_dk k)) ct)
      in derive v (ks_ek k) (ks_xk k) ct xe (fingerprint (vk PartyK)) (fingerprint (vk peer)) salt_k ss
           (dh_term (ks_x k) xe))"

definition k_accepts :: "variant \<Rightarrow> scenario \<Rightarrow> trm set \<Rightarrow> k_accept list" where
  "k_accepts v p know =
     [\<lparr>ka_k = k, ka_peer = peer, ka_ct = ct, ka_xe = xe, ka_d = k_derive v k ct xe peer\<rparr>.
       k \<leftarrow> k_sessions,
       ct \<leftarrow> map es_ct (e_sessions v p) @ [Ct (ks_ek k) (Atom ''rM'')],
       xe \<leftarrow> map es_xe (e_sessions v p) @ [m_xk],
       peer \<leftarrow> trusted_by_k p,
       derivable (Sig (signing_key peer) (CtxE (the_e (k_derive v k ct xe peer)))) know \<and>
       (tags v \<longrightarrow> derivable (tag_e (k_derive v k ct xe peer)) know)]"

definition k_sent :: "k_accept list \<Rightarrow> trm set" where
  "k_sent as = \<Union> (set (map (\<lambda>a. set [Sig (signing_key PartyK) (CtxK (thk (ka_d a)))] \<union>
     sent_tag (tag_k (ka_d a))) as))"

datatype violation = Agreement | KeyAgreement | Secrecy

fun party_name :: "party \<Rightarrow> string" where
  "party_name PartyK = ''K''"
| "party_name PartyE = ''E''"
| "party_name PartyM = ''M''"

fun randomness :: "trm \<Rightarrow> string" where
  "randomness (Ct _ (Atom r)) = r"
| "randomness _ = ''''"

definition accept_label :: "k_accept \<Rightarrow> string" where
  "accept_label a = ''K'' @ digit (ks_j (ka_k a)) @ '' accepted peer='' @ party_name (ka_peer a) @ '' ct='' @
     randomness (ka_ct a)"

definition check_accept ::
  "e_session list \<Rightarrow> scenario \<Rightarrow> party list \<Rightarrow> trm set \<Rightarrow> k_accept \<Rightarrow> (violation \<times> string) list" where
  "check_accept es p compromised know a =
     (let k = ka_k a;
          match = filter (\<lambda>s. es_ek s = ks_ek k \<and> es_xk s = ks_xk k \<and> es_ct s = ka_ct a \<and> es_xe s = ka_xe a \<and>
                     ka_peer a = PartyE \<and> salt_e p = salt_k) es;
          relayed = list_ex (\<lambda>s. es_ct s = ka_ct a \<and> es_xe s = ka_xe a) (filter (\<lambda>s. es_ek s = ks_ek k) es)
      in if PartyE \<in> set compromised \<and> ka_peer a = PartyE then []
         else if ka_peer a = PartyM \<and> \<not> relayed then []
         else case match of
           [] \<Rightarrow> (Agreement, accept_label a @ '': no matching E session (identity, salt or transcript differs)'') #
               (if derivable (okm (ka_d a)) know
                then [(Secrecy, accept_label a @ '': attacker derives the accepted key'')] else [])
         | s # _ \<Rightarrow>
             if okm (es_d s) \<noteq> okm (ka_d a) then [(KeyAgreement, accept_label a @ '': keys differ'')]
             else if derivable (okm (ka_d a)) know
             then [(Secrecy, accept_label a @ '': attacker derives the key of a matched pair'')]
             else [])"

definition check_confirm ::
  "variant \<Rightarrow> scenario \<Rightarrow> party list \<Rightarrow> k_accept list \<Rightarrow> trm set \<Rightarrow> e_session \<Rightarrow> (violation \<times> string) list" where
  "check_confirm v p compromised as know s =
     (if es_ek s \<noteq> ks_ek (hd k_sessions) \<or> es_xk s \<noteq> ks_xk (hd k_sessions) then []
      else let d = derive v (es_ek s) (es_xk s) (es_ct s) (es_xe s) (fingerprint (vk PartyK)) (fingerprint (vk PartyE))
                 (salt_e p) (Ss (es_ek s) (Atom (es_r s))) (dh_term (es_y s) (es_xk s));
               accepted = (derivable (Sig (signing_key PartyK) (CtxK (thk d))) know \<and>
                 (\<not> with_tag_k v \<or> derivable (tag_k d) know))
      in if \<not> accepted \<or> PartyK \<in> set compromised then []
         else case filter (\<lambda>a. ks_ek (ka_k a) = es_ek s \<and> ka_ct a = es_ct s \<and> ka_xe a = es_xe s \<and>
                   ka_peer a = PartyE) as of
           [] \<Rightarrow> [(Agreement, ''E'' @ digit (es_i s) @ '' confirmed a peer that never accepted'')]
         | a # _ \<Rightarrow>
             if okm (ka_d a) \<noteq> okm d then [(KeyAgreement, ''E'' @ digit (es_i s) @ '' confirmed but the keys differ'')]
             else if derivable (okm d) know
             then [(Secrecy, ''E'' @ digit (es_i s) @ '' confirmed a key the attacker derives'')]
             else [])"

definition run_scenario :: "variant \<Rightarrow> scenario \<Rightarrow> party list \<Rightarrow> (violation \<times> string) list" where
  "run_scenario v p compromised =
     (let es = e_sessions v p;
          know = known_key_material p \<union> e_sent es;
          as = k_accepts v p know;
          know' = know \<union> k_sent as
      in concat (map (check_accept es p compromised know') as) @
         concat (map (check_confirm v p compromised as know') es))"

subsection \<open>All scenarios\<close>

definition SCENARIOS :: "scenario list" where
  "SCENARIOS =
    [\<lparr>salt_public = False, e_salt_differs = False, trust_m = False, extra_known = []\<rparr>,
     \<lparr>salt_public = True, e_salt_differs = False, trust_m = False, extra_known = []\<rparr>,
     \<lparr>salt_public = True, e_salt_differs = False, trust_m = True, extra_known = []\<rparr>,
     \<lparr>salt_public = False, e_salt_differs = True, trust_m = False, extra_known = []\<rparr>,
     \<lparr>salt_public = True, e_salt_differs = True, trust_m = False, extra_known = []\<rparr>]"

definition names_of :: "string \<Rightarrow> nat \<Rightarrow> string list" where
  "names_of prefix n = map (\<lambda>i. prefix @ digit i) [1..<Suc n]"

definition COMPROMISE :: "(scenario \<times> party list) list" where
  "COMPROMISE =
    [(\<lparr>salt_public = True, e_salt_differs = False, trust_m = False,
       extra_known = [''dk1'', ''dk2''] @ names_of ''r'' 5\<rparr>, []),
     (\<lparr>salt_public = True, e_salt_differs = False, trust_m = False,
       extra_known = [''x1'', ''x2''] @ names_of ''y'' 5\<rparr>, []),
     (\<lparr>salt_public = True, e_salt_differs = False, trust_m = False, extra_known = [''skK'', ''skE'']\<rparr>,
       [PartyE, PartyK]),
     (\<lparr>salt_public = True, e_salt_differs = False, trust_m = False, extra_known = [''skK'']\<rparr>, [PartyK]),
     (\<lparr>salt_public = True, e_salt_differs = False, trust_m = False, extra_known = [''skE'']\<rparr>, [PartyE])]"

definition kept :: "party list \<Rightarrow> (violation \<times> string) list \<Rightarrow> (violation \<times> string) list" where
  "kept compromised = filter (\<lambda>f. fst f = Secrecy \<or> (fst f = Agreement \<or> fst f = KeyAgreement) \<and> compromised = [])"

definition found :: "variant \<Rightarrow> (violation \<times> string) list" where
  "found v = concat (map (\<lambda>p. run_scenario v p []) SCENARIOS)"

definition main :: nat where
  "main =
     (let failed = list_ex (\<lambda>p. run_scenario V2 p [] \<noteq> []) SCENARIOS \<or>
            list_ex (\<lambda>(p, compromised). kept compromised (run_scenario V2 p compromised) \<noteq> []) COMPROMISE \<or>
            list_ex (\<lambda>v. found v = []) CONTROLS \<or> list_ex (\<lambda>v. found v \<noteq> []) REDUNDANT
      in if failed then 1 else 0)"

subsection \<open>Lemmas on deduction\<close>

declare derivable.simps [simp del]

lemma derivable_known: "t \<in> know \<Longrightarrow> derivable t know"
  by (subst derivable.simps) simp

lemma derivable_unfold:
  "derivable (Atom n) know \<longleftrightarrow> Atom n \<in> know"
  "derivable (Pub s) know \<longleftrightarrow> Pub s \<in> know \<or> derivable s know"
  "derivable (Pk s) know \<longleftrightarrow> Pk s \<in> know \<or> derivable s know"
  "derivable (Ek s) know \<longleftrightarrow> Ek s \<in> know \<or> derivable s know"
  "derivable (Salt n) know"
  "derivable (Ct s t) know \<longleftrightarrow> Ct s t \<in> know \<or> derivable s know \<and> derivable t know"
  "derivable (Ss s t) know \<longleftrightarrow> Ss s t \<in> know \<or> derivable s know \<and> derivable t know \<or>
     (\<exists>dk. s = Ek dk \<and> derivable dk know)"
  "derivable (SsRej s t) know \<longleftrightarrow> SsRej s t \<in> know \<or> derivable s know \<and> derivable t know"
  "derivable (Dh m n) know \<longleftrightarrow> Dh m n \<in> know \<or>
     derivable (Atom m) know \<and> derivable (Pub (Atom n)) know \<or>
     derivable (Atom n) know \<and> derivable (Pub (Atom m)) know"
  "derivable (Dhx s t) know \<longleftrightarrow> Dhx s t \<in> know \<or> derivable s know \<and> derivable t know"
  "derivable (Hash n ts) know \<longleftrightarrow> Hash n ts \<in> know \<or> (\<forall>t\<in>set ts. derivable t know)"
  "derivable NoTag know" "derivable App know"
  "derivable (Prk s t u) know \<longleftrightarrow> Prk s t u \<in> know \<or> derivable s know \<and> derivable t know \<and> derivable u know"
  "derivable (KcE s t) know \<longleftrightarrow> KcE s t \<in> know \<or> derivable s know \<and> derivable t know"
  "derivable (KcK s t) know \<longleftrightarrow> KcK s t \<in> know \<or> derivable s know \<and> derivable t know"
  "derivable (Okm s t) know \<longleftrightarrow> Okm s t \<in> know \<or> derivable s know \<and> derivable t know"
  "derivable (Mac s t) know \<longleftrightarrow> Mac s t \<in> know \<or> derivable s know \<and> derivable t know"
  "derivable (LE s) know \<longleftrightarrow> LE s \<in> know \<or> derivable s know"
  "derivable (LK s) know \<longleftrightarrow> LK s \<in> know \<or> derivable s know"
  "derivable (CtxE s) know \<longleftrightarrow> CtxE s \<in> know \<or> derivable s know"
  "derivable (CtxK s) know \<longleftrightarrow> CtxK s \<in> know \<or> derivable s know"
  "derivable (Sig s t) know \<longleftrightarrow> Sig s t \<in> know \<or> derivable s know \<and> derivable t know"
  by (subst derivable.simps; auto split: trm.splits)+

text \<open>More knowledge derives more, and what is derivable adds nothing to what is known.\<close>

lemma derivable_cut:
  "derivable t know' \<Longrightarrow> (\<And>u. u \<in> know' \<Longrightarrow> derivable u know) \<Longrightarrow> derivable t know"
proof (induction t rule: measure_induct_rule [of weight])
  case (less t)
  show ?case
  proof (cases "t \<in> know'")
    case False
    have IH: "derivable u know' \<Longrightarrow> derivable u know" if "weight u < weight t" for u
      using less.IH [OF that _ less.prems(2)] by blast
    show ?thesis
    proof (cases t)
      case (Dh m n)
      then show ?thesis
        using less.prems(1) False IH [of "Atom m"] IH [of "Atom n"] IH [of "Pub (Atom m)"] IH [of "Pub (Atom n)"]
        unfolding Dh derivable_unfold(9) by auto
    qed (use less.prems(1) False IH in \<open>auto simp: derivable_unfold weight_member\<close>)
  qed (rule less.prems(2))
qed

lemma derivable_cong:
  assumes "know \<subseteq> know'" "\<And>u. u \<in> know' \<Longrightarrow> derivable u know"
  shows "derivable t know' = derivable t know"
  using derivable_cut [of t know know'] derivable_cut [of t know' know] assms derivable_known by blast

end
