(* ===== verification/Handshake_Safety.thy ===== *)
theory Handshake_Safety
  imports Handshake_Model
begin

text \<open>
  What the bounded check of the handshake shows, proved instead of enumerated.  The attacker's
  deduction finds exactly the terms that a sequence of single operations computes.  Every variant that signs the tags and binds the identities is
  free of violations in every scenario in which one of the two key exchanges is intact and every
  leaked signing key is declared.  The weakened variants have violations, so the run
  over all scenarios succeeds.  Keeping the salt from the attacker changes nothing.
\<close>

subsection \<open>Honest sessions\<close>

lemma k_sessions_eq:
  "k_sessions = [\<lparr>ks_j = 1, ks_dk = ''dk1'', ks_x = ''x1''\<rparr>, \<lparr>ks_j = 2, ks_dk = ''dk2'', ks_x = ''x2''\<rparr>]"
  by code_simp

lemma digits: "digit 1 = ''1''" "digit (Suc 0) = ''1''" "digit 2 = ''2''" "digit 3 = ''3''" "digit 4 = ''4''" "digit 5 = ''5''"
  by code_simp+

lemma e_sessions_eq:
  "e_sessions v p =
    [e_session_of v p 1 (Ek (Atom ''dk1''), Pub (Atom ''x1'')), e_session_of v p 2 (Ek (Atom ''dk1''), Pub (Atom ''x1'')),
     e_session_of v p 3 (Ek (Atom ''dkM''), Pub (Atom ''xM'')), e_session_of v p 4 (Ek (Atom ''dk1''), Pub (Atom ''xM'')),
     e_session_of v p 5 (Ek (Atom ''dkM''), Pub (Atom ''x1''))]"
  by (simp add: e_sessions_def k_sessions_eq ks_ek_def ks_xk_def m_ek_def m_xk_def eval_nat_numeral)

lemma e_session_of_sel:
  "es_ek (e_session_of v p i (ek, xk)) = ek" "es_xk (e_session_of v p i (ek, xk)) = xk"
  "es_ct (e_session_of v p i (ek, xk)) = Ct ek (Atom (''r'' @ digit i))"
  "es_xe (e_session_of v p i (ek, xk)) = Pub (Atom (''y'' @ digit i))"
  "es_r (e_session_of v p i (ek, xk)) = ''r'' @ digit i" "es_y (e_session_of v p i (ek, xk)) = ''y'' @ digit i"
  "es_d (e_session_of v p i (ek, xk)) = derive v ek xk (Ct ek (Atom (''r'' @ digit i))) (Pub (Atom (''y'' @ digit i)))
     (fingerprint (vk PartyK)) (fingerprint (vk PartyE)) (salt_e p) (Ss ek (Atom (''r'' @ digit i)))
     (dh_term (''y'' @ digit i) xk)"
  "es_sig (e_session_of v p i (ek, xk)) = Sig (Atom ''skE'') (CtxE (the_e (es_d (e_session_of v p i (ek, xk)))))"
  by (simp_all add: e_session_of_def Let_def)

lemma names_of_eq:
  "names_of ''r'' 5 = [''r1'', ''r2'', ''r3'', ''r4'', ''r5'']" "names_of ''y'' 5 = [''y1'', ''y2'', ''y3'', ''y4'', ''y5'']"
  by code_simp+

lemma e_session_facts:
  assumes "s \<in> set (e_sessions v p)"
  shows "es_ct s = Ct (es_ek s) (Atom (es_r s))" "es_xe s = Pub (Atom (es_y s))"
    "es_ek s \<in> {Ek (Atom ''dk1''), Ek (Atom ''dkM'')}"
    "es_r s \<in> set (names_of ''r'' 5)" "es_y s \<in> set (names_of ''y'' 5)"
    "es_d s = derive v (es_ek s) (es_xk s) (es_ct s) (es_xe s) (fingerprint (vk PartyK)) (fingerprint (vk PartyE))
       (salt_e p) (Ss (es_ek s) (Atom (es_r s))) (dh_term (es_y s) (es_xk s))"
    "es_sig s = Sig (Atom ''skE'') (CtxE (the_e (es_d s)))"
  using assms unfolding e_sessions_eq names_of_eq
  by (auto simp only: list.set insert_iff empty_iff e_session_of_sel digits append.simps)

lemma e_session_by_ct:
  "s \<in> set (e_sessions v p) \<Longrightarrow> s' \<in> set (e_sessions v p) \<Longrightarrow> es_ct s = es_ct s' \<Longrightarrow> s = s'"
  unfolding e_sessions_eq by (auto simp: e_session_of_sel digits)

lemma k_session_by_ek: "k \<in> set k_sessions \<Longrightarrow> k' \<in> set k_sessions \<Longrightarrow> ks_ek k = ks_ek k' \<Longrightarrow> k = k'"
  by (auto simp: k_sessions_eq ks_ek_def)

lemma vk_inject [simp]: "vk a = vk b \<longleftrightarrow> a = b"
  by (cases a; cases b) (simp_all add: vk_def)

lemma fingerprint_inject [simp]: "fingerprint a = fingerprint b \<longleftrightarrow> a = b"
  by (simp add: fingerprint_def)

subsection \<open>What a transcript fixes\<close>

lemma derive_fixed:
  assumes "tags v" "identities v"
    and "tag_e (derive v ek xk ct xe fk fe salt ss dh) = tag_e (derive v ek' xk' ct' xe' fk' fe' salt' ss' dh')"
  shows "ek = ek' \<and> xk = xk' \<and> ct = ct' \<and> xe = xe' \<and> fe = fe' \<and> salt = salt' \<and> ss = ss' \<and> dh = dh'"
  using assms by (simp add: derive_def Let_def)

lemma derive_transcript:
  "the_e (derive v ek xk ct xe fk fe salt ss dh) = the_e (derive v ek' xk' ct' xe' fk' fe' salt' ss' dh') \<Longrightarrow>
   tag_e (derive v ek xk ct xe fk fe salt ss dh) = tag_e (derive v ek' xk' ct' xe' fk' fe' salt' ss' dh')"
  "thk (derive v ek xk ct xe fk fe salt ss dh) = thk (derive v ek' xk' ct' xe' fk' fe' salt' ss' dh') \<Longrightarrow>
   the_e (derive v ek xk ct xe fk fe salt ss dh) = the_e (derive v ek' xk' ct' xe' fk' fe' salt' ss' dh')"
  by (simp_all add: derive_def Let_def)

subsection \<open>What the attacker knows\<close>

definition known_before :: "variant \<Rightarrow> scenario \<Rightarrow> trm set" where
  "known_before v p = known_key_material p \<union> e_sent (e_sessions v p)"

definition known_after :: "variant \<Rightarrow> scenario \<Rightarrow> trm set" where
  "known_after v p = known_before v p \<union> k_sent (k_accepts v p (known_before v p))"

fun on_network :: "trm \<Rightarrow> bool" where
  "on_network (Ss _ _) = False"
| "on_network (SsRej _ _) = False"
| "on_network (Dh _ _) = False"
| "on_network (Dhx _ _) = False"
| "on_network (Prk _ _ _) = False"
| "on_network (KcE _ _) = False"
| "on_network (KcK _ _) = False"
| "on_network (Okm _ _) = False"
| "on_network _ = True"

lemma run_scenario_eq:
  "run_scenario v p compromised =
     concat (map (check_accept (e_sessions v p) p compromised (known_after v p)) (k_accepts v p (known_before v p))) @
     concat (map (check_confirm v p compromised (k_accepts v p (known_before v p)) (known_after v p)) (e_sessions v p))"
  by (simp add: run_scenario_def known_after_def known_before_def Let_def)

lemma tag_cases:
  "tag_e (derive v ek xk ct xe fk fe salt ss dh) = NoTag \<or>
   (\<exists>k m. tag_e (derive v ek xk ct xe fk fe salt ss dh) = Mac k (LE m))"
  "tag_k (derive v ek xk ct xe fk fe salt ss dh) = NoTag \<or>
   (\<exists>k m. tag_k (derive v ek xk ct xe fk fe salt ss dh) = Mac k (LK m))"
  by (auto simp: derive_def Let_def)

lemma e_sent_iff:
  "t \<in> e_sent es \<longleftrightarrow> (\<exists>s\<in>set es. t = es_ct s \<or> t = es_xe s \<or> t = es_sig s \<or> t = tag_e (es_d s) \<and> t \<noteq> NoTag)"
  by (auto simp: e_sent_def sent_tag_def)

lemma k_sent_iff:
  "t \<in> k_sent as \<longleftrightarrow> (\<exists>a\<in>set as. t = Sig (Atom ''skK'') (CtxK (thk (ka_d a))) \<or> t = tag_k (ka_d a) \<and> t \<noteq> NoTag)"
  by (auto simp: k_sent_def sent_tag_def)

lemma k_accepts_iff:
  "a \<in> set (k_accepts v p know) \<longleftrightarrow>
     ka_k a \<in> set k_sessions \<and> ka_peer a \<in> set (trusted_by_k p) \<and>
     (ka_ct a \<in> es_ct ` set (e_sessions v p) \<or> ka_ct a = Ct (ks_ek (ka_k a)) (Atom ''rM'')) \<and>
     (ka_xe a \<in> es_xe ` set (e_sessions v p) \<or> ka_xe a = m_xk) \<and>
     ka_d a = k_derive v (ka_k a) (ka_ct a) (ka_xe a) (ka_peer a) \<and>
     derivable (Sig (signing_key (ka_peer a)) (CtxE (the_e (ka_d a)))) know \<and>
     (tags v \<longrightarrow> derivable (tag_e (ka_d a)) know)"
  by (cases a) (auto simp: k_accepts_def)

lemma key_material_cases:
  assumes "t \<in> known_key_material p"
  obtains n where "t = Atom n" "n \<in> {''skM'', ''dkM'', ''xM'', ''rM''} \<union> set (extra_known p)"
    | u where "t = Pk u" | u where "t = Ek u" | u where "t = Pub u" | n where "t = Salt n"
  using assms
  by (auto simp: known_key_material_def vk_def ks_ek_def ks_xk_def salt_k_def salt_e_def split: if_splits)

lemma e_sent_cases:
  assumes "t \<in> e_sent (e_sessions v p)"
  obtains s where "s \<in> set (e_sessions v p)" "t = Ct (es_ek s) (Atom (es_r s))"
    | s where "s \<in> set (e_sessions v p)" "t = Pub (Atom (es_y s))"
    | s where "s \<in> set (e_sessions v p)" "t = Sig (Atom ''skE'') (CtxE (the_e (es_d s)))"
    | s k m where "s \<in> set (e_sessions v p)" "t = Mac k (LE m)" "tag_e (es_d s) = Mac k (LE m)"
proof -
  from assms obtain s where s: "s \<in> set (e_sessions v p)"
    "t = es_ct s \<or> t = es_xe s \<or> t = es_sig s \<or> t = tag_e (es_d s) \<and> t \<noteq> NoTag"
    by (auto simp: e_sent_iff)
  note f = e_session_facts [OF s(1)]
  have "tag_e (es_d s) = NoTag \<or> (\<exists>k m. tag_e (es_d s) = Mac k (LE m))"
    unfolding f(6) by (rule tag_cases)
  then show thesis using s that f by metis
qed

lemma k_sent_cases:
  assumes "t \<in> k_sent (k_accepts v p know)"
  obtains a where "a \<in> set (k_accepts v p know)" "t = Sig (Atom ''skK'') (CtxK (thk (ka_d a)))"
    | k m where "t = Mac k (LK m)"
proof -
  from assms obtain a where a: "a \<in> set (k_accepts v p know)"
    "t = Sig (Atom ''skK'') (CtxK (thk (ka_d a))) \<or> t = tag_k (ka_d a) \<and> t \<noteq> NoTag"
    by (auto simp: k_sent_iff)
  have "ka_d a = k_derive v (ka_k a) (ka_ct a) (ka_xe a) (ka_peer a)"
    using a(1) by (simp add: k_accepts_iff)
  then have "tag_k (ka_d a) = NoTag \<or> (\<exists>k m. tag_k (ka_d a) = Mac k (LK m))"
    unfolding k_derive_def Let_def by (simp only: tag_cases)
  then show thesis using a that by metis
qed

lemma on_network_known: "t \<in> known_after v p \<Longrightarrow> on_network t"
  unfolding known_after_def known_before_def
  by (auto elim!: key_material_cases e_sent_cases k_sent_cases)

lemma atom_known: "Atom n \<in> known_after v p \<Longrightarrow> n \<in> {''skM'', ''dkM'', ''xM'', ''rM''} \<union> set (extra_known p)"
  unfolding known_after_def known_before_def
  by (auto elim!: key_material_cases e_sent_cases k_sent_cases)

lemma known_before_after: "known_before v p \<subseteq> known_after v p"
  by (simp add: known_after_def)

lemma sig_known_before:
  assumes "Sig k m \<in> known_before v p"
  obtains s where "s \<in> set (e_sessions v p)" "k = Atom ''skE''" "m = CtxE (the_e (es_d s))"
  using assms unfolding known_before_def by (auto elim!: key_material_cases e_sent_cases)

lemma mac_known_before:
  assumes "Mac k m \<in> known_before v p"
  obtains s where "s \<in> set (e_sessions v p)" "tag_e (es_d s) = Mac k m"
  using assms unfolding known_before_def by (auto elim!: key_material_cases e_sent_cases)

lemma reply_known_after:
  assumes "Sig (Atom ''skK'') m \<in> known_after v p"
  obtains a where "a \<in> set (k_accepts v p (known_before v p))" "m = CtxK (thk (ka_d a))"
  using assms unfolding known_after_def by (auto elim!: sig_known_before k_sent_cases)

subsection \<open>Secrets\<close>

text \<open>One of the two key exchanges is intact.\<close>

definition hybrid :: "scenario \<Rightarrow> bool" where
  "hybrid p \<longleftrightarrow>
     set (extra_known p) \<inter> set ([''dk1'', ''dk2''] @ names_of ''r'' 5) = {} \<or>
     set (extra_known p) \<inter> set ([''x1'', ''x2''] @ names_of ''y'' 5) = {}"

lemma secrets_needed:
  assumes "know \<subseteq> known_after v p" "derivable (Prk salt ss dh) know"
  shows "derivable ss know" "derivable dh know"
  using assms on_network_known [of "Prk salt ss dh" v p] by (auto simp: derivable_unfold)

lemma kem_secret:
  assumes "know \<subseteq> known_after v p" "derivable (Ss (Ek (Atom dk)) (Atom r)) know"
  shows "dk \<in> {''skM'', ''dkM'', ''xM'', ''rM''} \<union> set (extra_known p) \<or>
    r \<in> {''skM'', ''dkM'', ''xM'', ''rM''} \<union> set (extra_known p)"
  using assms on_network_known [of "Ss (Ek (Atom dk)) (Atom r)" v p] atom_known [of _ v p]
  by (auto simp: derivable_unfold)

lemma dh_secret:
  assumes "know \<subseteq> known_after v p" "derivable (dh_term x (Pub (Atom y))) know"
  shows "x \<in> {''skM'', ''dkM'', ''xM'', ''rM''} \<union> set (extra_known p) \<or>
    y \<in> {''skM'', ''dkM'', ''xM'', ''rM''} \<union> set (extra_known p)"
proof -
  have "Atom (min x y) \<in> know \<or> Atom (max x y) \<in> know"
    using assms on_network_known [of "Dh (min x y) (max x y)" v p] by (auto simp: dh_term_def derivable_unfold)
  then have "Atom x \<in> know \<or> Atom y \<in> know" by (metis min_def max_def)
  then show ?thesis using assms(1) atom_known [of _ v p] by blast
qed

lemma pair_secret:
  assumes "hybrid p" "know \<subseteq> known_after v p" "k \<in> set k_sessions" "s \<in> set (e_sessions v p)"
    and "derivable (Prk salt (Ss (ks_ek k) (Atom (es_r s))) (dh_term (ks_x k) (es_xe s))) know"
  shows False
proof -
  note f = e_session_facts [OF assms(4)]
  have k: "ks_dk k \<in> {''dk1'', ''dk2''}" "ks_x k \<in> {''x1'', ''x2''}"
    using assms(3) by (auto simp: k_sessions_eq)
  note d = secrets_needed [OF assms(2,5)]
  have "ks_dk k \<in> set (extra_known p) \<or> es_r s \<in> set (extra_known p)"
    using kem_secret [OF assms(2) d(1) [unfolded ks_ek_def]] k(1) f(4) by (auto simp: names_of_eq)
  moreover have "ks_x k \<in> set (extra_known p) \<or> es_y s \<in> set (extra_known p)"
    using dh_secret [OF assms(2) d(2) [unfolded f(2)]] k(2) f(5) by (auto simp: names_of_eq)
  ultimately show False
    using assms(1) k f(4,5) unfolding hybrid_def by auto
qed

lemma k_derive_paired:
  assumes "s \<in> set (e_sessions v p)" "es_ek s = ks_ek k"
  shows "k_derive w k (es_ct s) (es_xe s) peer =
    derive w (ks_ek k) (ks_xk k) (es_ct s) (es_xe s) (fingerprint (vk PartyK)) (fingerprint (vk peer)) salt_k
      (Ss (ks_ek k) (Atom (es_r s))) (dh_term (ks_x k) (es_xe s))"
  using e_session_facts(1) [OF assms(1)] assms(2) by (simp add: k_derive_def)

lemma paired_okm_secret:
  assumes "hybrid p" "k \<in> set k_sessions" "s \<in> set (e_sessions v p)" "es_ek s = ks_ek k"
  shows "\<not> derivable (okm (k_derive w k (es_ct s) (es_xe s) peer)) (known_after v p)"
proof
  assume "derivable (okm (k_derive w k (es_ct s) (es_xe s) peer)) (known_after v p)"
  then have "derivable (Prk salt_k (Ss (ks_ek k) (Atom (es_r s))) (dh_term (ks_x k) (es_xe s))) (known_after v p)"
    using on_network_known [of _ v p]
    by (fastforce simp: k_derive_paired [OF assms(3,4)] derive_def Let_def derivable_unfold(17))
  then show False by (rule pair_secret [OF assms(1) subset_refl assms(2,3)])
qed

lemma paired_tag_unforgeable:
  assumes "hybrid p" "tags v" "k \<in> set k_sessions" "s \<in> set (e_sessions v p)" "es_ek s = ks_ek k"
    and "derivable (tag_e (k_derive v k (es_ct s) (es_xe s) peer)) (known_before v p)"
  obtains s' where "s' \<in> set (e_sessions v p)" "tag_e (es_d s') = tag_e (k_derive v k (es_ct s) (es_xe s) peer)"
proof -
  let ?prk = "Prk salt_k (Ss (ks_ek k) (Atom (es_r s))) (dh_term (ks_x k) (es_xe s))"
  obtain inner th where t: "tag_e (k_derive v k (es_ct s) (es_xe s) peer) = Mac (KcE ?prk inner) (LE th)"
    using assms(2) by (simp add: k_derive_paired [OF assms(4,5)] derive_def Let_def)
  have "\<not> derivable ?prk (known_before v p)"
    using pair_secret [OF assms(1) known_before_after assms(3,4)] by blast
  then have "\<not> derivable (KcE ?prk inner) (known_before v p)"
    using on_network_known [of "KcE ?prk inner" v p] known_before_after [of v p] by (auto simp: derivable_unfold(15))
  then have "Mac (KcE ?prk inner) (LE th) \<in> known_before v p"
    using assms(6) unfolding t derivable_unfold(18) by blast
  then show thesis by (rule mac_known_before) (use t that in simp)
qed

subsection \<open>Agreement\<close>

lemma tag_match:
  assumes "tags v" "identities v" "a \<in> set (k_accepts v p know)" "s \<in> set (e_sessions v p)"
    and "tag_e (ka_d a) = tag_e (es_d s)"
  shows "ka_peer a = PartyE" "es_ek s = ks_ek (ka_k a)" "es_xk s = ks_xk (ka_k a)" "es_ct s = ka_ct a"
    "es_xe s = ka_xe a" "salt_e p = salt_k" "ka_d a = es_d s"
proof -
  note f = e_session_facts(6) [OF assms(4)]
  obtain ss where d: "ka_d a = derive v (ks_ek (ka_k a)) (ks_xk (ka_k a)) (ka_ct a) (ka_xe a) (fingerprint (vk PartyK))
      (fingerprint (vk (ka_peer a))) salt_k ss (dh_term (ks_x (ka_k a)) (ka_xe a))"
    using assms(3) by (auto simp: k_accepts_iff k_derive_def Let_def)
  note eqs = derive_fixed [OF assms(1,2) assms(5) [unfolded d f]]
  then show "ka_peer a = PartyE" "es_ek s = ks_ek (ka_k a)" "es_xk s = ks_xk (ka_k a)" "es_ct s = ka_ct a"
    "es_xe s = ka_xe a" "salt_e p = salt_k"
    by simp_all
  show "ka_d a = es_d s" unfolding d f using eqs by metis
qed

lemma transcript_tag:
  assumes "a \<in> set (k_accepts v p know)" "s \<in> set (e_sessions v p)"
  shows "the_e (ka_d a) = the_e (es_d s) \<Longrightarrow> tag_e (ka_d a) = tag_e (es_d s)"
    and "thk (ka_d a) = thk (es_d s) \<Longrightarrow> the_e (ka_d a) = the_e (es_d s)"
proof -
  have d: "ka_d a = k_derive v (ka_k a) (ka_ct a) (ka_xe a) (ka_peer a)" using assms(1) by (simp add: k_accepts_iff)
  note unfolded = d k_derive_def Let_def e_session_facts(6) [OF assms(2)]
  show "the_e (ka_d a) = the_e (es_d s) \<Longrightarrow> tag_e (ka_d a) = tag_e (es_d s)"
    unfolding unfolded by (rule derive_transcript(1))
  show "thk (ka_d a) = thk (es_d s) \<Longrightarrow> the_e (ka_d a) = the_e (es_d s)"
    unfolding unfolded by (rule derive_transcript(2))
qed

lemma check_accept_none:
  assumes v: "tags v" "identities v" and p: "hybrid p" "''skE'' \<in> set (extra_known p) \<Longrightarrow> PartyE \<in> set compromised"
    and a: "a \<in> set (k_accepts v p (known_before v p))"
  shows "check_accept (e_sessions v p) p compromised (known_after v p) a = []"
proof -
  let ?es = "e_sessions v p"
  let ?k = "ka_k a"
  have k: "?k \<in> set k_sessions" and d: "ka_d a = k_derive v ?k (ka_ct a) (ka_xe a) (ka_peer a)"
    and sig: "derivable (Sig (signing_key (ka_peer a)) (CtxE (the_e (ka_d a)))) (known_before v p)"
    and tag: "derivable (tag_e (ka_d a)) (known_before v p)" and peer: "ka_peer a \<in> {PartyE, PartyM}"
    using a v by (auto simp: k_accepts_iff trusted_by_k_def split: if_splits)
  show ?thesis
  proof (cases "ka_peer a = PartyE")
    case E: True
    show ?thesis
    proof (cases "PartyE \<in> set compromised")
      case False
      then have "Atom ''skE'' \<notin> known_before v p"
        using p(2) atom_known [of "''skE''" v p] known_before_after [of v p] by auto
      then have "Sig (Atom ''skE'') (CtxE (the_e (ka_d a))) \<in> known_before v p"
        using sig E by (auto simp: derivable_unfold(1,23))
      then obtain s where s: "s \<in> set ?es" "the_e (ka_d a) = the_e (es_d s)"
        by (auto elim: sig_known_before)
      note m = tag_match [OF v a s(1) transcript_tag(1) [OF a s]]
      let ?match = "filter (\<lambda>s. es_ek s = ks_ek ?k \<and> es_xk s = ks_xk ?k \<and> es_ct s = ka_ct a \<and> es_xe s = ka_xe a \<and>
          ka_peer a = PartyE \<and> salt_e p = salt_k) ?es"
      have "s \<in> set ?match" using s(1) m by simp
      then obtain t ts where t: "?match = t # ts" by (cases ?match) auto
      have "t \<in> set ?match" unfolding t by simp
      then have "t = s" using e_session_by_ct [of t v p s] s(1) m(4) by simp
      moreover have "\<not> derivable (okm (ka_d a)) (known_after v p)"
        using paired_okm_secret [OF p(1) k s(1) m(2), of v "ka_peer a"] d m(4,5) by simp
      ultimately show ?thesis
        unfolding check_accept_def Let_def t using m(7) E False by simp
    qed (simp add: check_accept_def E)
  next
    case False
    then have M: "ka_peer a = PartyM" using peer by simp
    have "\<not> (es_ct s = ka_ct a \<and> es_xe s = ka_xe a)" if s: "s \<in> set ?es" "es_ek s = ks_ek ?k" for s
    proof
      assume c: "es_ct s = ka_ct a \<and> es_xe s = ka_xe a"
      then have "derivable (tag_e (k_derive v ?k (es_ct s) (es_xe s) (ka_peer a))) (known_before v p)"
        using tag d by simp
      from paired_tag_unforgeable [OF p(1) v(1) k s this] obtain s' where
        "s' \<in> set ?es" "tag_e (ka_d a) = tag_e (es_d s')"
        using c d by metis
      from tag_match(1) [OF v a this] show False using M by simp
    qed
    then show ?thesis using M by (auto simp: check_accept_def Let_def list_ex_iff)
  qed
qed

lemma check_confirm_none:
  assumes v: "tags v" "identities v" and p: "hybrid p" "''skK'' \<in> set (extra_known p) \<Longrightarrow> PartyK \<in> set compromised"
    and s: "s \<in> set (e_sessions v p)"
  shows "check_confirm v p compromised (k_accepts v p (known_before v p)) (known_after v p) s = []"
proof -
  let ?as = "k_accepts v p (known_before v p)"
  note d = e_session_facts(6) [OF s, symmetric]
  have participates: "check_confirm v p compromised ?as (known_after v p) s = []"
    if K: "PartyK \<notin> set compromised" and sig: "derivable (Sig (Atom ''skK'') (CtxK (thk (es_d s)))) (known_after v p)"
  proof -
    have "Atom ''skK'' \<notin> known_after v p" using K p(2) atom_known [of "''skK''" v p] by auto
    then have "Sig (Atom ''skK'') (CtxK (thk (es_d s))) \<in> known_after v p"
      using sig by (simp add: derivable_unfold(1,23))
    then obtain a where a: "a \<in> set ?as" "thk (ka_d a) = thk (es_d s)"
      by (auto elim!: reply_known_after)
    note m = tag_match [OF v a(1) s transcript_tag(1) [OF a(1) s transcript_tag(2) [OF a(1) s a(2)]]]
    let ?matches = "filter (\<lambda>a. ks_ek (ka_k a) = es_ek s \<and> ka_ct a = es_ct s \<and> ka_xe a = es_xe s \<and> ka_peer a = PartyE) ?as"
    have "a \<in> set ?matches" using a(1) m by simp
    then obtain b bs where b: "?matches = b # bs" by (cases ?matches) auto
    have "b \<in> set ?matches" unfolding b by simp
    then have "ka_k b = ka_k a" "ka_ct b = ka_ct a" "ka_xe b = ka_xe a" "ka_peer b = ka_peer a" "b \<in> set ?as"
      using a(1) m k_session_by_ek [of "ka_k b" "ka_k a"] by (auto simp: k_accepts_iff)
    then have "ka_d b = es_d s" using a(1) m(7) by (simp add: k_accepts_iff)
    moreover have "\<not> derivable (okm (es_d s)) (known_after v p)"
      using paired_okm_secret [OF p(1) _ s m(2), of v "ka_peer a"] a(1) m(4,5,7) by (simp add: k_accepts_iff)
    ultimately show ?thesis
      unfolding check_confirm_def Let_def d b by simp
  qed
  show ?thesis
  proof (cases "PartyK \<in> set compromised \<or> \<not> derivable (Sig (Atom ''skK'') (CtxK (thk (es_d s)))) (known_after v p)")
    case True
    then show ?thesis unfolding check_confirm_def Let_def d by (elim disjE) simp_all
  qed (use participates in blast)
qed

lemma no_violation:
  assumes "tags v" "identities v" "hybrid p"
    and "''skE'' \<in> set (extra_known p) \<Longrightarrow> PartyE \<in> set compromised"
    and "''skK'' \<in> set (extra_known p) \<Longrightarrow> PartyK \<in> set compromised"
  shows "run_scenario v p compromised = []"
  unfolding run_scenario_eq using check_accept_none check_confirm_none assms by auto

subsection \<open>The salt\<close>

lemma salt_public_sessions: "e_sessions v (p\<lparr>salt_public := b\<rparr>) = e_sessions v p"
  unfolding e_sessions_eq e_session_of_def by (simp add: salt_e_def)

lemma known_before_salt:
  "known_before v (p\<lparr>salt_public := b\<rparr>) =
     known_before v (p\<lparr>salt_public := False\<rparr>) \<union> (if b then {salt_k, salt_e p} else {})"
  by (auto simp: known_before_def known_key_material_def salt_public_sessions salt_e_def)

lemma derivable_salt: "derivable t (know \<union> (if b then {salt_k, salt_e p} else {})) = derivable t know"
  by (rule derivable_cong) (auto simp: salt_k_def salt_e_def derivable_unfold derivable_known split: if_splits)

lemma k_accepts_cong:
  "(\<And>t. derivable t know = derivable t know') \<Longrightarrow>
   k_accepts v (p\<lparr>salt_public := b\<rparr>) know = k_accepts v (p\<lparr>salt_public := b'\<rparr>) know'"
  by (simp add: k_accepts_def salt_public_sessions trusted_by_k_def)

lemma run_scenario_salt:
  "run_scenario v (p\<lparr>salt_public := b\<rparr>) compromised = run_scenario v (p\<lparr>salt_public := False\<rparr>) compromised"
proof -
  let ?p = "p\<lparr>salt_public := b\<rparr>" and ?q = "p\<lparr>salt_public := False\<rparr>"
  have before: "derivable t (known_before v ?p) = derivable t (known_before v ?q)" for t
    unfolding known_before_salt [where p = p and b = b] by (rule derivable_salt)
  then have as: "k_accepts v ?p (known_before v ?p) = k_accepts v ?q (known_before v ?q)"
    by (rule k_accepts_cong)
  have "known_after v ?p = known_after v ?q \<union> (if b then {salt_k, salt_e p} else {})"
    unfolding known_after_def as unfolding known_before_salt [where p = p and b = b] by auto
  then have after: "derivable t (known_after v ?p) = derivable t (known_after v ?q)" for t
    by (simp only: derivable_salt)
  have salt: "salt_e ?p = salt_e ?q" by (simp add: salt_e_def)
  show ?thesis
    unfolding run_scenario_eq as salt_public_sessions check_accept_def check_confirm_def after salt ..
qed

subsection \<open>Violations of the weakened variants\<close>

lemma violation_found:
  assumes "a \<in> set (k_accepts v p (known_before v p))"
    and "check_accept (e_sessions v p) p [] (known_after v p) a \<noteq> []" "p \<in> set SCENARIOS"
  shows "found v \<noteq> []"
  using assms by (auto simp: found_def run_scenario_eq)

lemma unmatched_violates:
  assumes "\<And>s. s \<in> set es \<Longrightarrow> \<not> (es_ct s = ka_ct a \<and> ka_peer a = PartyE \<and> salt_e p = salt_k)"
    and "ka_peer a \<noteq> PartyM \<or> (\<exists>s\<in>set es. es_ek s = ks_ek (ka_k a) \<and> es_ct s = ka_ct a \<and> es_xe s = ka_xe a)"
  shows "check_accept es p [] know a \<noteq> []"
proof -
  have match: "filter (\<lambda>s. es_ek s = ks_ek (ka_k a) \<and> es_xk s = ks_xk (ka_k a) \<and> es_ct s = ka_ct a \<and> es_xe s = ka_xe a \<and>
      ka_peer a = PartyE \<and> salt_e p = salt_k) es = []"
    using assms(1) by (auto simp: filter_empty_conv)
  show ?thesis
    unfolding check_accept_def Let_def match using assms(2) by (auto simp: list_ex_iff)
qed

text \<open>The first key-generating session, and a candidate message for it.\<close>

definition first_k :: k_session where
  "first_k = \<lparr>ks_j = 1, ks_dk = ''dk1'', ks_x = ''x1''\<rparr>"

definition candidate :: "variant \<Rightarrow> trm \<Rightarrow> trm \<Rightarrow> party \<Rightarrow> k_accept" where
  "candidate v ct xe peer =
     \<lparr>ka_k = first_k, ka_peer = peer, ka_ct = ct, ka_xe = xe, ka_d = k_derive v first_k ct xe peer\<rparr>"

definition first_e :: "variant \<Rightarrow> scenario \<Rightarrow> e_session" where
  "first_e v p = e_session_of v p 1 (Ek (Atom ''dk1''), Pub (Atom ''x1''))"

lemma first_sessions: "first_k \<in> set k_sessions" "first_e v p \<in> set (e_sessions v p)"
  by (simp_all add: first_k_def k_sessions_eq first_e_def e_sessions_eq)

lemma first_e_sent:
  "es_sig (first_e v p) \<in> known_before v p" "es_ct (first_e v p) \<in> known_before v p" "es_xe (first_e v p) \<in> known_before v p"
  "tag_e (es_d (first_e v p)) \<in> known_before v p \<or> tag_e (es_d (first_e v p)) = NoTag"
  using first_sessions(2) [of v p] by (auto simp: known_before_def e_sent_iff)

lemmas first_e_sel = e_session_of_sel [where i = 1 and ek = "Ek (Atom ''dk1'')" and xk = "Pub (Atom ''x1'')",
  folded first_e_def]
lemmas candidate_simps = candidate_def first_k_def ks_ek_def ks_xk_def

lemma unconfirmed_violates:
  assumes "v = V2\<lparr>tags := False, with_tag_k := False\<rparr>"
  shows "found v \<noteq> []"
proof -
  define p where "p = \<lparr>salt_public = False, e_salt_differs = True, trust_m = False, extra_known = []\<rparr>"
  let ?a = "candidate v (es_ct (first_e v p)) (es_xe (first_e v p)) PartyE"
  have "the_e (ka_d ?a) = the_e (es_d (first_e v p))"
    by (simp add: candidate_simps k_derive_def first_e_sel derive_def Let_def assms V2_def)
  then have "derivable (Sig (signing_key PartyE) (CtxE (the_e (ka_d ?a)))) (known_before v p)"
    using first_e_sent(1) [of v p] by (simp add: first_e_sel(8) derivable_known)
  then have "?a \<in> set (k_accepts v p (known_before v p))"
    using first_sessions(1) first_sessions(2) [of v p] by (simp add: k_accepts_iff candidate_def trusted_by_k_def p_def assms V2_def)
  moreover have "salt_e p \<noteq> salt_k" by (simp add: salt_e_def salt_k_def p_def)
  then have "check_accept (e_sessions v p) p [] (known_after v p) ?a \<noteq> []"
    by (intro unmatched_violates) (simp_all add: candidate_def)
  moreover have "p \<in> set SCENARIOS" by (simp add: SCENARIOS_def p_def)
  ultimately show ?thesis by (rule violation_found)
qed

lemma unbound_identities_violate:
  assumes "v = V2\<lparr>identities := False\<rparr>"
  shows "found v \<noteq> []"
proof -
  define p where "p = \<lparr>salt_public = True, e_salt_differs = False, trust_m = True, extra_known = []\<rparr>"
  let ?a = "candidate v (es_ct (first_e v p)) (es_xe (first_e v p)) PartyM"
  let ?K = "known_before v p"
  have d: "ka_d ?a = es_d (first_e v p)"
    by (simp add: candidate_simps k_derive_def first_e_sel derive_def Let_def assms V2_def salt_e_def p_def
        dh_term_def min.commute max.commute)
  have known: "derivable (tag_e (es_d (first_e v p))) ?K" "derivable (es_ct (first_e v p)) ?K" "derivable (es_xe (first_e v p)) ?K"
    using first_e_sent [of v p] by (auto simp: derivable_known derivable_unfold)
  have keys: "Atom ''skM'' \<in> ?K" "Ek (Atom ''dk1'') \<in> ?K" "Pub (Atom ''x1'') \<in> ?K"
    by (auto simp: known_before_def known_key_material_def k_sessions_eq ks_ek_def ks_xk_def)
  have "derivable (the_e (es_d (first_e v p))) ?K"
    using known keys unfolding first_e_sel(3,4,7) by (simp add: derive_def Let_def assms V2_def derivable_unfold derivable_known)
  then have "?a \<in> set (k_accepts v p ?K)"
    using first_sessions(1) first_sessions(2) [of v p] keys known(1) d
    by (simp add: k_accepts_iff candidate_def trusted_by_k_def p_def derivable_unfold derivable_known)
  moreover have "check_accept (e_sessions v p) p [] (known_after v p) ?a \<noteq> []"
    using first_sessions(2) [of v p] by (intro unmatched_violates) (auto simp: candidate_simps first_e_sel(1) intro!: bexI [of _ "first_e v p"])
  moreover have "p \<in> set SCENARIOS" by (simp add: SCENARIOS_def p_def)
  ultimately show ?thesis by (rule violation_found)
qed

lemma first_message_only_violates:
  assumes "v = V2\<lparr>tags := False, with_tag_k := False, ephemerals_in_transcript := False\<rparr>"
  shows "found v \<noteq> []"
proof -
  define p where "p = \<lparr>salt_public = True, e_salt_differs = False, trust_m = False, extra_known = []\<rparr>"
  let ?a = "candidate v (Ct (ks_ek first_k) (Atom ''rM'')) m_xk PartyE"
  have "the_e (ka_d ?a) = the_e (es_d (first_e v p))"
    by (simp add: candidate_simps k_derive_def first_e_sel derive_def Let_def assms V2_def)
  then have "derivable (Sig (signing_key PartyE) (CtxE (the_e (ka_d ?a)))) (known_before v p)"
    using first_e_sent(1) [of v p] by (simp add: first_e_sel(8) derivable_known)
  then have "?a \<in> set (k_accepts v p (known_before v p))"
    using first_sessions(1) by (simp add: k_accepts_iff candidate_def trusted_by_k_def p_def assms V2_def)
  moreover have "es_ct s \<noteq> Ct (ks_ek first_k) (Atom ''rM'')" if "s \<in> set (e_sessions v p)" for s
    using e_session_facts(1,4) [OF that] by (auto simp: names_of_eq)
  then have "check_accept (e_sessions v p) p [] (known_after v p) ?a \<noteq> []"
    by (intro unmatched_violates) (simp_all add: candidate_def)
  moreover have "p \<in> set SCENARIOS" by (simp add: SCENARIOS_def p_def)
  ultimately show ?thesis by (rule violation_found)
qed

subsection \<open>The attacker as a sequence of operations\<close>

text \<open>
  One operation of the attacker: the term it computes and the terms it needs.  It encapsulates to a
  public key with randomness of its choice, decapsulates with a decapsulation key, completes a
  Diffie-Hellman exchange with one secret and the other public value, takes public keys of secrets,
  and applies every other function to arguments it has.  Literals cost nothing; atoms are never
  computed.
\<close>

inductive attacker_op :: "trm set \<Rightarrow> trm \<Rightarrow> bool" for know where
  literal: "t \<in> {NoTag, App} \<or> t = Salt n \<Longrightarrow> attacker_op know t"
| encapsulate: "ek \<in> know \<Longrightarrow> r \<in> know \<Longrightarrow> t \<in> {Ct ek r, Ss ek r} \<Longrightarrow> attacker_op know t"
| decapsulate: "dk \<in> know \<Longrightarrow> attacker_op know (Ss (Ek dk) r)"
| agree: "Atom x \<in> know \<Longrightarrow> Pub (Atom y) \<in> know \<Longrightarrow> t \<in> {Dh x y, Dh y x} \<Longrightarrow> attacker_op know t"
| publish: "s \<in> know \<Longrightarrow> t \<in> {Pub s, Pk s, Ek s} \<Longrightarrow> attacker_op know t"
| label: "s \<in> know \<Longrightarrow> t \<in> {LE s, LK s, CtxE s, CtxK s} \<Longrightarrow> attacker_op know t"
| hash: "set ts \<subseteq> know \<Longrightarrow> attacker_op know (Hash n ts)"
| extract_prk: "salt \<in> know \<Longrightarrow> s \<in> know \<Longrightarrow> u \<in> know \<Longrightarrow> attacker_op know (Prk salt s u)"
| keyed: "s \<in> know \<Longrightarrow> u \<in> know \<Longrightarrow>
    t \<in> {SsRej s u, Dhx s u, KcE s u, KcK s u, Okm s u, Mac s u, Sig s u} \<Longrightarrow> attacker_op know t"

text \<open>The knowledge the attacker reaches by finitely many operations.\<close>

inductive learns :: "trm set \<Rightarrow> trm set \<Rightarrow> bool" for know where
  start: "learns know know"
| operate: "learns know known \<Longrightarrow> attacker_op known t \<Longrightarrow> learns know (insert t known)"

lemma attacker_op_mono: "attacker_op know t \<Longrightarrow> know \<subseteq> known \<Longrightarrow> attacker_op known t"
  by (induction rule: attacker_op.induct) (auto intro: attacker_op.intros)

lemma learns_more: "learns know known \<Longrightarrow> know \<subseteq> known"
  by (induction rule: learns.induct) auto

lemma learns_trans: "learns known later \<Longrightarrow> learns know known \<Longrightarrow> learns know later"
  by (induction rule: learns.induct) (auto intro: learns.operate)

lemma learns_beside: "learns know known \<Longrightarrow> learns (know \<union> other) (known \<union> other)"
proof (induction rule: learns.induct)
  case (operate known t)
  then show ?case
    using learns.operate [of "know \<union> other" "known \<union> other" t] attacker_op_mono [of known t] by simp
qed (rule learns.start)

lemma learns_both:
  assumes "learns know a" "learns know b"
  shows "learns know (a \<union> b)"
proof -
  have "learns a (b \<union> a)" using learns_beside [OF assms(2), of a] learns_more [OF assms(1)] by (simp add: Un_absorb1)
  then show ?thesis using learns_trans assms(1) by (simp add: Un_commute)
qed

lemma learns_list:
  "(\<And>t. t \<in> set ts \<Longrightarrow> \<exists>known. learns know known \<and> t \<in> known) \<Longrightarrow> \<exists>known. learns know known \<and> set ts \<subseteq> known"
proof (induction ts)
  case (Cons t ts)
  then obtain a b where "learns know a" "t \<in> a" "learns know b" "set ts \<subseteq> b" by fastforce
  then show ?case using learns_both [of know a b] by (intro exI [of _ "a \<union> b"]) auto
qed (auto intro: learns.start)

lemma learns_by:
  assumes "\<And>t. t \<in> set ts \<Longrightarrow> \<exists>known. learns know known \<and> t \<in> known" "attacker_op (set ts) t"
  shows "\<exists>known. learns know known \<and> t \<in> known"
proof -
  obtain known where "learns know known" "set ts \<subseteq> known" using learns_list [of ts know] assms(1) by blast
  then show ?thesis using learns.operate attacker_op_mono [OF assms(2)] by blast
qed

lemma attacker_op_derivable: "attacker_op know t \<Longrightarrow> derivable t know"
  by (induction rule: attacker_op.induct) (auto simp: derivable_unfold derivable_known)

lemma learns_derivable: "learns know known \<Longrightarrow> t \<in> known \<Longrightarrow> derivable t know"
proof (induction arbitrary: t rule: learns.induct)
  case (operate known u)
  then show ?case using derivable_cut [OF attacker_op_derivable, of known u know] by auto
qed (rule derivable_known)

text \<open>
  Every derivable term is known or is one operation away from derivable terms of smaller weight: the
  components of its tuple, except for a decapsulated secret and a Diffie-Hellman term.
\<close>

fun parts :: "trm \<Rightarrow> trm list" where
  "parts (Pub s) = [s]"
| "parts (Pk s) = [s]"
| "parts (Ek s) = [s]"
| "parts (Ct s t) = [s, t]"
| "parts (Ss s t) = [s, t]"
| "parts (SsRej s t) = [s, t]"
| "parts (Dhx s t) = [s, t]"
| "parts (Hash _ ts) = ts"
| "parts (Prk s t u) = [s, t, u]"
| "parts (KcE s t) = [s, t]"
| "parts (KcK s t) = [s, t]"
| "parts (Okm s t) = [s, t]"
| "parts (Mac s t) = [s, t]"
| "parts (LE s) = [s]"
| "parts (LK s) = [s]"
| "parts (CtxE s) = [s]"
| "parts (CtxK s) = [s]"
| "parts (Sig s t) = [s, t]"
| "parts _ = []"

lemma parts_weight: "u \<in> set (parts t) \<Longrightarrow> weight u < weight t"
  by (cases t) (auto simp: weight_member)

lemma parts_op: "(\<And>n. t \<noteq> Atom n) \<Longrightarrow> (\<And>x y. t \<noteq> Dh x y) \<Longrightarrow> attacker_op (set (parts t)) t"
  by (cases t) (auto intro: attacker_op.intros)

lemma derivable_parts:
  "derivable t know \<Longrightarrow> t \<notin> know \<Longrightarrow> (\<And>x y. t \<noteq> Dh x y) \<Longrightarrow> u \<in> set (parts t) \<Longrightarrow>
   derivable u know \<or> (\<exists>dk r. t = Ss (Ek dk) r \<and> derivable dk know)"
  by (cases t) (auto simp: derivable_unfold)

lemma derivable_step:
  assumes "derivable t know" "t \<notin> know"
  shows "\<exists>ts. attacker_op (set ts) t \<and> (\<forall>u\<in>set ts. derivable u know \<and> weight u < weight t)"
proof -
  consider x y where "t = Dh x y" "derivable (Atom x) know" "derivable (Pub (Atom y)) know"
    | x y where "t = Dh x y" "derivable (Atom y) know" "derivable (Pub (Atom x)) know"
    | dk r where "t = Ss (Ek dk) r" "derivable dk know"
    | "\<And>x y. t \<noteq> Dh x y" "\<And>u. u \<in> set (parts t) \<Longrightarrow> derivable u know"
    using assms derivable_parts [OF assms] by (cases "\<exists>x y. t = Dh x y") (auto simp: derivable_unfold(9), metis)
  then show ?thesis
  proof cases
    case (1 x y)
    then show ?thesis by (intro exI [of _ "[Atom x, Pub (Atom y)]"]) (auto intro: attacker_op.agree)
  next
    case (2 x y)
    then show ?thesis by (intro exI [of _ "[Atom y, Pub (Atom x)]"]) (auto intro: attacker_op.agree)
  next
    case (3 dk r)
    then show ?thesis by (intro exI [of _ "[dk]"]) (auto intro: attacker_op.decapsulate)
  next
    case 4
    moreover have "\<And>n. t \<noteq> Atom n" using assms by (auto simp: derivable_unfold)
    ultimately show ?thesis using parts_op parts_weight by blast
  qed
qed

lemma derivable_learns: "derivable t know \<Longrightarrow> \<exists>known. learns know known \<and> t \<in> known"
proof (induction t rule: measure_induct_rule [of weight])
  case (less t)
  show ?case
  proof (cases "t \<in> know")
    case True
    then show ?thesis using learns.start by blast
  next
    case False
    then obtain ts where ts: "attacker_op (set ts) t" "\<forall>u\<in>set ts. derivable u know \<and> weight u < weight t"
      using derivable_step less.prems by blast
    then show ?thesis using learns_by [OF _ ts(1)] less.IH by blast
  qed
qed

subsection \<open>Properties\<close>

text \<open>
  C30: The attacker's deduction decides what an attacker can compute.  A term is \<open>derivable\<close> from some
  knowledge exactly if a finite sequence of single operations reaches it from there, each computing one
  new term from terms known by then: encapsulation with chosen randomness, decapsulation,
  Diffie-Hellman with one of the two secrets, public keys, hashes, key derivation, authentication codes,
  signatures and public literals.  The goal-directed recursion misses no sequence and claims nothing
  that no sequence reaches.
\<close>

theorem derivable_iff_learns:
  "derivable t know \<longleftrightarrow> (\<exists>known. learns know known \<and> t \<in> known)"
  using derivable_learns learns_derivable by blast

text \<open>
  C16: The handshake has no attack in the model, in more scenarios than the script runs.  Take any
  variant that signs the confirmation tag and binds both identities, whether or not it has the second
  tag and the ephemeral values in the transcript.  Let the salts agree or differ, be public or not, let the
  key-generating side trust the attacker or not, and let any atoms leak such that the secrets of the
  key encapsulation or those of X25519 stay safe and a leaked signing key is declared
  compromised.  Then the check reports neither disagreement, nor different keys, nor a derivable key.
\<close>

theorem handshake_no_violation:
  assumes "tags v" "identities v" "hybrid p"
    and "''skE'' \<in> set (extra_known p) \<Longrightarrow> PartyE \<in> set compromised"
    and "''skK'' \<in> set (extra_known p) \<Longrightarrow> PartyK \<in> set compromised"
  shows "run_scenario v p compromised = []"
  using assms by (rule no_violation)

theorem handshake_no_violation_witness:
  "run_scenario V2 \<lparr>salt_public = True, e_salt_differs = True, trust_m = True,
     extra_known = [''skK'', ''dk1'', ''r1'', ''r2'']\<rparr> [PartyK] = []"
  by (rule handshake_no_violation) (simp_all add: V2_def hybrid_def names_of_eq)

text \<open>
  C23: The run over all scenarios succeeds: the protocol and the two redundant variants have no
  violation, in the ten and the five scenarios each, and every one of the three weakened variants has
  one, so the exit status is 0.
\<close>

theorem handshake_check_passes: "main = 0"
proof -
  have safe: "run_scenario v p [] = []" if "tags v" "identities v" "p \<in> set SCENARIOS" for v p
    using that by (intro no_violation) (auto simp: SCENARIOS_def hybrid_def)
  have "kept compromised (run_scenario V2 p compromised) = []" if "(p, compromised) \<in> set COMPROMISE" for p compromised
  proof -
    have "hybrid p" "''skE'' \<in> set (extra_known p) \<Longrightarrow> PartyE \<in> set compromised"
      "''skK'' \<in> set (extra_known p) \<Longrightarrow> PartyK \<in> set compromised"
      using that by (auto simp: COMPROMISE_def hybrid_def names_of_eq)
    then show ?thesis using no_violation [of V2 p compromised] by (simp add: V2_def kept_def)
  qed
  then have 1: "\<not> list_ex (\<lambda>(p, compromised). kept compromised (run_scenario V2 p compromised) \<noteq> []) COMPROMISE"
    by (auto simp: list_ex_iff)
  have 2: "\<not> list_ex (\<lambda>v. found v \<noteq> []) REDUNDANT"
    using safe by (auto simp: found_def REDUNDANT_def V2_def)
  have 3: "\<not> list_ex (\<lambda>v. found v = []) CONTROLS"
    unfolding CONTROLS_def
    using unconfirmed_violates [OF refl] unbound_identities_violate [OF refl] first_message_only_violates [OF refl]
    by (simp only: list_ex_iff list.set) blast
  have 4: "\<not> list_ex (\<lambda>p. run_scenario V2 p [] \<noteq> []) SCENARIOS"
    using safe [of V2] by (auto simp: list_ex_iff V2_def)
  show ?thesis unfolding main_def Let_def by (simp only: 1 2 3 4 simp_thms if_False)
qed

text \<open>
  C31: The parameter that keeps the salt secret has no effect.  A salt is built from a literal, and
  the deduction derives every literal, so the attacker derives both salts in every scenario and the
  findings are the same whether the salt is public or not.
\<close>

theorem salt_public_irrelevant:
  "derivable salt_k know \<and> derivable (salt_e p) know \<and>
   run_scenario v (p\<lparr>salt_public := True\<rparr>) compromised = run_scenario v (p\<lparr>salt_public := False\<rparr>) compromised"
  by (simp add: salt_k_def salt_e_def derivable_unfold run_scenario_salt [where b = True])

end
