(* ===== verification/Spec2Isabelle.thy ===== *)
theory Spec2Isabelle
  imports Interrupt_Spinlock One_Shot_Init Rtos_Returns Boundary_Codecs Crypto_Objects Panic_Facade
    Handshake_Safety
begin

text \<open>
  \<^bold>\<open>ShawnCore libraries: verification development\<close>

  The repository holds two no-std Rust crates and a facade that links them into one static archive
  for C hosts.  \<^verbatim>\<open>shawncore-rtos-sync\<close> has the synchronisation primitives of a real-time
  kernel: a life-cycle state machine, a latency tracker, an interrupt-safe spinlock, two lock-free
  queues, a DMA buffer pool and a bitmap scheduler.  \<^verbatim>\<open>shawncore-pq-crypto\<close> has a hybrid
  post-quantum session protocol: wrappers around ML-KEM-1024, X25519, ML-DSA-87, ChaCha20, HMAC and
  HKDF, the key derivation, the handshake with and without signatures, packet encryption with a
  replay window, and an entropy queue and pool.  Both crates reach the host through registered
  callbacks and are called through exported C functions.  A script under \<^verbatim>\<open>validation\<close> checks a
  symbolic model of the handshake.

  \<^bold>\<open>How the code is modelled.\<close>  An operation is a function from a state to an outcome
  (\<open>Shawn_Prelude\<close>): a return with a value, a halt (the fail-closed spin after a missing callback),
  a panic, still running (a schedule of spurious compare-exchange failures or a held lock that
  outlasts it), or undefined behaviour.  Errors of the code are values of \<open>error + 'a\<close>.  A struct is a
  record, an enum a datatype, a machine integer a word of its width with the wrapping, checked or
  saturating operation the source names.  Output buffers are arguments and come back in the result as
  every path leaves them.  Atomic retry loops take a list of booleans, one per weak
  compare-exchange, that says which fail spuriously; a list with one non-failing entry is enough for a
  loop of one thread to return, and the theorems say so.  No other bound or fuel is used: the loops over
  slots, bytes, tasks and terms are structural or have a termination proof.  Where threads race, the atomic accesses are the
  steps of an inductive relation.

  \<^bold>\<open>RTOS crate (shawncore-rtos-sync/src).\<close>
  \<^item> \<open>Rtos_Host\<close>: error.rs, ffi_error.rs, ffi_callbacks.rs.  Registries, wrappers, error codes.
  \<^item> \<open>State_Machine\<close>: state_machine.rs.  \<open>try_advance\<close> sequentially and by any number of threads; the
    states visited are a path of valid edges.
  \<^item> \<open>Latency_Tracker\<close>: latency_tracker.rs.  It refines a list of measured durations.
  \<^item> \<open>Interrupt_Spinlock\<close>: interrupt_spinlock.rs.  Mutual exclusion and interrupt flags for any number
    of cores.
  \<^item> \<open>Bounded_Fifo\<close> (the queue contract, a locale), \<open>Spsc_Queue\<close>: spsc_queue.rs, \<open>Ring_Buffer\<close>:
    ring_buffer.rs.  Both queues are interpretations of the contract, through index wrap-around.
  \<^item> \<open>Slot_Allocator\<close> (the allocator contract, a locale), \<open>Dma_Pool\<close>: static_dma_pool.rs.  Ownership
    tokens, free list, wiping; the pool is an interpretation.
  \<^item> \<open>One_Shot_Init\<close>: the init gates of the queues and of the pool under concurrent callers.  The queue
    gate runs its body once; the pool gate can run it twice, which is a finding.
  \<^item> \<open>Bitmap_Scheduler\<close>: tcb.rs, bitmap_scheduler.rs.  Reachable schedulers are well-formed; selection,
    switching, stack canaries, watchdog.
  \<^item> \<open>Ffi_Memory\<close>, \<open>Rtos_Ffi\<close>, \<open>Rtos_Boundary\<close>, \<open>Rtos_Returns\<close>: ffi.rs and telemetry_queue.rs.  Every
    exported function over a memory of bytes and typed objects; what a call may write, that it keeps
    objects well-formed, and that it returns.

  \<^bold>\<open>Crypto crate (shawncore-pq-crypto/src).\<close>
  \<^item> \<open>Crypto_Host\<close>: error.rs, ffi_error.rs, ffi_callbacks.rs, zeroize.rs.
  \<^item> \<open>Crypto_Prims\<close>: ml_kem_wrapper.rs, x25519_wrapper.rs, ml_dsa_wrapper.rs, and the record of
    third-party primitives with their documented behaviour as the predicates \<open>hash_ok\<close>, \<open>hmac_ok\<close>,
    \<open>hkdf_ok\<close>, \<open>chacha_ok\<close>, \<open>kem_ok\<close>, \<open>dh_ok\<close> and \<open>dsa_ok\<close>; the instance \<open>toy\<close> shows that they can hold.
  \<^item> \<open>Aead\<close>: aead_wrapper.rs.  Round trip, tampering, in-place variants.
  \<^item> \<open>Hybrid_Kdf\<close>: hybrid_kdf.rs.  \<open>Auth_Handshake\<close>: auth_handshake.rs, with injective encodings.
  \<^item> \<open>Replay_Window\<close> (the anti-replay contract, a locale), \<open>Session_State\<close>, \<open>Session_Keys\<close>,
    \<open>Session_Packets\<close>, \<open>Session_Handshake\<close>, \<open>Session_Auth\<close>: session_manager.rs.  Replay window, nonces,
    key integrity, wiping, both handshakes, failure paths.
  \<^item> \<open>Entropy_Queue\<close>, \<open>Entropy_Pool\<close>: entropy_queue.rs, entropy_pool.rs.
  \<^item> \<open>Crypto_Ffi\<close>, \<open>Crypto_Ffi_Keys\<close>, \<open>Crypto_Boundary\<close>, \<open>Boundary_Packets\<close>, \<open>Boundary_Codecs\<close>: ffi.rs.
    Every exported function; what a call may write; packets and wire-encoded values survive
    the crossing of the boundary; the self test.
  \<^item> \<open>Program_Logic\<close>, \<open>Session_Invariant\<close>, \<open>Crypto_Objects\<close>: rules for partial and total correctness, one
    per combinator of the model, and what they give for every session operation and every exported
    function: the objects in memory keep their types and invariants, and a call returns.

  \<^bold>\<open>The archive and the symbolic check.\<close>
  \<^item> \<open>Panic_Facade\<close>: shawncore-ffi/src/lib.rs.  The panic handler for any number of threads and for hooks
    that panic.
  \<^item> \<open>Handshake_Model\<close>, \<open>Handshake_Safety\<close>: validation/formal/handshake_model.py, the Dolev-Yao check of
    the authenticated handshake.  The deduction decides what a sequence of attacker operations
    computes; the protocol has no violation in any scenario with one key exchange intact, a larger class than the script enumerates; the
    weakened variants have one; the script's exit status is 0.  Its secret-salt scenarios do not
    differ from the public ones, which is a finding.

  \<^bold>\<open>The C boundary.\<close>  Memory maps addresses to bytes and to typed objects.  Sizes, alignments and byte
  representations of Rust types are decided by the compiler and are parameters.  A write destroys the
  objects it meets, so an overlap that a check fails to refuse shows in the model.  An operation on
  an object behind a pointer runs on the object and the host; outputs are written when it returns.
  Words are stored little-endian.  The buffers the RTOS objects use (queue slots, pool storage) are host
  memory.  What an object reads from them is part of its record, which excludes other writers as the
  ownership contract of the init functions does; what it stores to them (slot counters at init, payload
  and counter of a pushed slot, the cleared payload of a popped one, the wiped buffer of a free) is
  stored to memory as well, through \<open>on_backed\<close>.

  \<^bold>\<open>This theory\<close> holds the properties that span components: the authenticated protocol delivers packets
  in both directions, and the overlap tests of both boundaries are exact.

  \<^bold>\<open>Not modelled.\<close>
  \<^item> The third-party primitives (RustCrypto packages) and the host's callbacks: parameters.
  \<^item> Weak memory ordering: atomic accesses are sequentially consistent here.
  \<^item> Allocation and release of DMA slots, and pushes and pops, by several threads at once; the code
    restricts the queues to one producer and one consumer.
  \<^item> The symbol retention of shawncore-ffi, the module lists of the two lib.rs files, and the C header: no
    computation of their own.
  \<^item> What the symbolic check prints.
  \<^item> Unit tests, test vectors, fuzz targets, benchmarks, the other validation scripts and the C and C++
    smoke programs: they run the code and add no behaviour to it.
\<close>

section \<open>Properties across components\<close>

text \<open>
  C1: The whole protocol delivers.  Two sides that run the authenticated handshake with each other
  (key generation, encapsulation, finalization, confirmation), with primitives that behave as
  documented, entropy that is neither all zeros nor all ones, Diffie-Hellman shares that are not
  degenerate, a registered cache flush on every host, the same salt and application info (shorter than
  2^32 bytes) and the other's verifying key as trust anchor, succeed in every call; afterwards a packet
  sent by either side, no longer than the key stream of ChaCha20 allows, is decrypted by the other
  side to exactly the plaintext that was sent.
\<close>

theorem authenticated_channel_delivers:
  assumes ok: "kem_ok P" "dh_ok P" "hkdf_ok P" "hmac_ok P" "dsa_ok P" "chacha_ok P"
    and ent: "\<not> entropy_degenerate e1" "\<not> entropy_degenerate e2"
    and flush: "crypto_flush_cb h1 \<noteq> 0" "crypto_flush_cb h2 \<noteq> 0" "crypto_flush_cb h3 \<noteq> 0"
    and adm: "dh_admissible P (take 32 (drop 32 e2)) (x_public P (take 32 (drop 64 e1)))"
      "\<not> list_all (\<lambda>b. b = 0) (x_public P (take 32 (drop 32 e2)))"
    and app: "length app < 2 ^ 32"
    and len: "length m1 \<le> CHACHA20_MAX_BYTES" "length m2 \<le> CHACHA20_MAX_BYTES"
  shows "\<exists>ek xk s1' h1' ct xe sigE tagE s2' h2' sigK tagK s1'' h1'' s2'' h2''.
    initiate_handshake P e1 (s1, h1) = Ret (Ok (ek, xk)) (s1', h1') \<and>
    encapsulate_authenticated P skE (ml_dsa_verifying_key P skK) ek xk e2 salt app oc op os ot (s2, h2) =
      Ret (Ok (), ct, xe, sigE, tagE) (s2', h2') \<and>
    finalize_authenticated P skK (ml_dsa_verifying_key P skE) xe ct sigE tagE salt app os' ot' (s1', h1') =
      Ret (Ok (), sigK, tagK) (s1'', h1'') \<and>
    confirm_peer P (ml_dsa_verifying_key P skK) sigK tagK (s2', h2') = Ret (Ok ()) (s2'', h2'') \<and>
    (\<exists>c1 n1 t1 x1 h4 y1 h5.
      encrypt_packet P aad m1 (zeros (length m1)) nonce tag (s1'', h3) = Ret (Ok (), c1, n1, t1) (x1, h4) \<and>
      decrypt_packet P aad c1 n1 t1 (zeros (length m1)) (s2'', h3) = Ret (Ok (), m1) (y1, h5)) \<and>
    (\<exists>c2 n2 t2 x2 h6 y2 h7.
      encrypt_packet P aad m2 (zeros (length m2)) nonce tag (s2'', h3) = Ret (Ok (), c2, n2, t2) (x2, h6) \<and>
      decrypt_packet P aad c2 n2 t2 (zeros (length m2)) (s1'', h3) = Ret (Ok (), m2) (y2, h7))"
proof -
  have deliver: "\<exists>c n t x h4 y h5.
      encrypt_packet P aad m (zeros (length m)) nonce tag (keyed_session a b, h3) = Ret (Ok (), c, n, t) (x, h4) \<and>
      decrypt_packet P aad c n t (zeros (length m)) (keyed_session b a, h3) = Ret (Ok (), m) (y, h5)"
    if "length a = 64" "length m \<le> CHACHA20_MAX_BYTES" for a b m
  proof -
    have "check_rx_nonce (keyed_session b a) (tx_nonce (tx_counter (keyed_session a b))) = Ok ()"
      by (simp add: rx_check_iff [of _ "{}"] fresh_seq_def)
    then show ?thesis
      using packet_delivered [OF ok(6,4) flush(3,3) that(1), of "keyed_session a b" "keyed_session b a" m
          "zeros (length m)" "zeros (length m)" aad nonce tag] that(2)
      by fastforce
  qed
  obtain ek xk s1' h1' ct xe sigE tagE s2' h2' sigK tagK s1'' h1'' s2'' h2'' a b where run:
    "initiate_handshake P e1 (s1, h1) = Ret (Ok (ek, xk)) (s1', h1')"
    "encapsulate_authenticated P skE (ml_dsa_verifying_key P skK) ek xk e2 salt app oc op os ot (s2, h2) =
      Ret (Ok (), ct, xe, sigE, tagE) (s2', h2')"
    "finalize_authenticated P skK (ml_dsa_verifying_key P skE) xe ct sigE tagE salt app os' ot' (s1', h1') =
      Ret (Ok (), sigK, tagK) (s1'', h1'')"
    "confirm_peer P (ml_dsa_verifying_key P skK) sigK tagK (s2', h2') = Ret (Ok ()) (s2'', h2'')"
    "s1'' = keyed_session a b" "s2'' = keyed_session b a" "length a = 64" "length b = 64"
    using authenticated_handshake_run [where ?s1.0 = s1 and ?s2.0 = s2 and skE = skE and skK = skK and salt = salt
        and oc = oc and op = op and os = os and ot = ot and os' = os' and ot' = ot',
        OF ok(1-5) ent flush(1,2) adm app] by (elim exE conjE) (rule that)
  note forth = deliver [OF run(7) len(1), of b, folded run(5,6)]
    and reply = deliver [OF run(8) len(2), of a, folded run(5,6)]
  show ?thesis
    by (rule exI)+ (rule conjI [OF run(1)] conjI [OF run(2)] conjI [OF run(3)] conjI [OF run(4)]
        conjI [OF forth] reply)+
qed

theorem authenticated_channel_delivers_witness:
  "\<exists>ek xk s1' h1' ct xe sigE tagE s2' h2' sigK tagK s1'' h1'' s2'' h2''.
    initiate_handshake toy (replicate 96 5) (session_new, demo_crypto_host) = Ret (Ok (ek, xk)) (s1', h1') \<and>
    encapsulate_authenticated toy [1] (ml_dsa_verifying_key toy [2]) ek xk (replicate 64 6) [] [3] [] [] [] []
      (session_new, demo_crypto_host) = Ret (Ok (), ct, xe, sigE, tagE) (s2', h2') \<and>
    finalize_authenticated toy [2] (ml_dsa_verifying_key toy [1]) xe ct sigE tagE [] [3] [] [] (s1', h1') =
      Ret (Ok (), sigK, tagK) (s1'', h1'') \<and>
    confirm_peer toy (ml_dsa_verifying_key toy [2]) sigK tagK (s2', h2') = Ret (Ok ()) (s2'', h2'') \<and>
    (\<exists>c1 n1 t1 x1 h4 y1 h5.
      encrypt_packet toy [] [7] (zeros (length [7 :: u8])) [] [] (s1'', demo_crypto_host) = Ret (Ok (), c1, n1, t1) (x1, h4) \<and>
      decrypt_packet toy [] c1 n1 t1 (zeros (length [7 :: u8])) (s2'', demo_crypto_host) = Ret (Ok (), [7]) (y1, h5)) \<and>
    (\<exists>c2 n2 t2 x2 h6 y2 h7.
      encrypt_packet toy [] [8, 9] (zeros (length [8 :: u8, 9])) [] [] (s2'', demo_crypto_host) = Ret (Ok (), c2, n2, t2) (x2, h6) \<and>
      decrypt_packet toy [] c2 n2 t2 (zeros (length [8 :: u8, 9])) (s1'', demo_crypto_host) = Ret (Ok (), [8, 9]) (y2, h7))"
  by (rule authenticated_channel_delivers [OF toy_ok(5) toy_ok(6) toy_ok(3) toy_ok(2) toy_ok(7) toy_ok(4)])
     (simp_all add: entropy_degenerate_def list_all_iff dh_admissible_def toy_def pad_to_def CHACHA20_MAX_BYTES_def)

text \<open>
  C21: The overlap tests of both boundaries are exact.  The crypto test reports a pair of ranges if and
  only if both are non-empty and either one of them does not fit in the address space or an address
  lies in both; the loop over several ranges reports if and only if some two of them, at least one
  writable, are such a pair.  The RTOS test answers the same for non-empty ranges.
\<close>

theorem overlap_checks_exact:
  "(ranges_overlap a n b m \<longleftrightarrow> n \<noteq> 0 \<and> m \<noteq> 0 \<and>
      (2 ^ 64 \<le> unat a + unat n \<or> 2 ^ 64 \<le> unat b + unat m \<or> (\<exists>x. in_region (a, n) x \<and> in_region (b, m) x))) \<and>
   (writable_regions_overlap rs \<longleftrightarrow> (\<exists>i j. i < j \<and> j < length rs \<and> (snd (snd (rs ! i)) \<or> snd (snd (rs ! j))) \<and>
      ranges_overlap (fst (rs ! i)) (fst (snd (rs ! i))) (fst (rs ! j)) (fst (snd (rs ! j))))) \<and>
   (n \<noteq> 0 \<and> m \<noteq> 0 \<and> rtos_ranges_overlap a n b m \<longleftrightarrow> ranges_overlap a n b m)"
proof (intro conjI)
  show "ranges_overlap a n b m \<longleftrightarrow> n \<noteq> 0 \<and> m \<noteq> 0 \<and>
      (2 ^ 64 \<le> unat a + unat n \<or> 2 ^ 64 \<le> unat b + unat m \<or> (\<exists>x. in_region (a, n) x \<and> in_region (b, m) x))"
    unfolding ranges_overlap_iff regions_meet_iff by simp
  show "writable_regions_overlap rs \<longleftrightarrow> (\<exists>i j. i < j \<and> j < length rs \<and> (snd (snd (rs ! i)) \<or> snd (snd (rs ! j))) \<and>
      ranges_overlap (fst (rs ! i)) (fst (snd (rs ! i))) (fst (rs ! j)) (fst (snd (rs ! j))))"
    unfolding writable_regions_overlap_iff conflict_def by simp
  show "n \<noteq> 0 \<and> m \<noteq> 0 \<and> rtos_ranges_overlap a n b m \<longleftrightarrow> ranges_overlap a n b m"
    using rtos_ranges_overlap_iff [of n m a b] ranges_overlap_iff [of a n b m] by blast
qed

end
